(* ===== verification/Ieee754.thy ===== *)
theory Ieee754
  imports Complex_Main "HOL-Library.Word" "HOL-Library.Log_Nat"
begin

text \<open>
  The C types \<open>double\<close> and \<open>float\<close> as the code uses them: IEEE 754 binary formats with
  round-to-nearest-even, infinities, NaN and signed zeros.  A finite value is kept as sign,
  integer significand and exponent, so every operation computes on integers and can be
  evaluated by the simplifier.  \<open>fp_val\<close> reads a value as a real; the lemmas at the end say
  that a result is the exact real result rounded (\<open>rnd\<close>), that rounding is monotone and that
  it leaves representable numbers alone.  Formats are phantom type arguments: exponent width
  and fraction width.  NaN payloads are not kept (no C code of the program looks at one).
\<close>

section \<open>Formats and values\<close>

datatype ('e, 'f) fp = FNaN | FInf bool | Fin bool int int

type_synonym f64 = "(11, 52) fp"
type_synonym f32 = "(8, 23) fp"

definition fp_prec :: "('e::len, 'f::len) fp itself \<Rightarrow> int" where
  "fp_prec _ = int LENGTH('f) + 1"

definition fp_emin :: "('e::len, 'f::len) fp itself \<Rightarrow> int" where
  "fp_emin _ = 2 - 2 ^ (LENGTH('e) - 1) - int LENGTH('f)"

definition fp_emax :: "('e::len, 'f::len) fp itself \<Rightarrow> int" where
  "fp_emax _ = 2 ^ (LENGTH('e) - 1) - 1 - int LENGTH('f)"

lemma fp_format_f64 [simp]:
  "fp_prec TYPE(f64) = 53" "fp_emin TYPE(f64) = - 1074" "fp_emax TYPE(f64) = 971"
  by (simp_all add: fp_prec_def fp_emin_def fp_emax_def)

lemma fp_format_f32 [simp]:
  "fp_prec TYPE(f32) = 24" "fp_emin TYPE(f32) = - 149" "fp_emax TYPE(f32) = 104"
  by (simp_all add: fp_prec_def fp_emin_def fp_emax_def)

lemma fp_prec_pos: "2 \<le> fp_prec TYPE(('e::len, 'f::len) fp)"
proof -
  have "Suc 0 \<le> LENGTH('f)" by (simp only: Suc_le_eq len_gt_0)
  then show ?thesis unfolding fp_prec_def by linarith
qed

lemma fp_emin_less_emax: "fp_emin TYPE(('e::len, 'f::len) fp) \<le> fp_emax TYPE(('e, 'f) fp) + 1"
proof -
  have "(1::int) \<le> 2 ^ (LENGTH('e) - 1)" by simp
  then show ?thesis by (simp add: fp_emin_def fp_emax_def)
qed

definition fp_val :: "('e, 'f) fp \<Rightarrow> real" where
  "fp_val x = (case x of Fin s m e \<Rightarrow> (if s then - 1 else 1) * of_int m * 2 powi e | _ \<Rightarrow> 0)"

definition is_nan :: "('e, 'f) fp \<Rightarrow> bool" where
  "is_nan x \<longleftrightarrow> (case x of FNaN \<Rightarrow> True | _ \<Rightarrow> False)"

definition isfinite :: "('e, 'f) fp \<Rightarrow> bool" where
  "isfinite x \<longleftrightarrow> (case x of Fin _ _ _ \<Rightarrow> True | _ \<Rightarrow> False)"

definition fp_ok :: "('e::len, 'f::len) fp \<Rightarrow> bool" where
  "fp_ok x \<longleftrightarrow> (case x of
     Fin s m e \<Rightarrow> 0 \<le> m \<and> m < 2 ^ nat (fp_prec TYPE(('e, 'f) fp))
       \<and> fp_emin TYPE(('e, 'f) fp) \<le> e \<and> e \<le> fp_emax TYPE(('e, 'f) fp)
       \<and> (2 ^ nat (fp_prec TYPE(('e, 'f) fp) - 1) \<le> m \<or> e = fp_emin TYPE(('e, 'f) fp))
   | _ \<Rightarrow> True)"

section \<open>Rounding\<close>

text \<open>Bit length of a positive integer, and the exponent of a positive fraction.\<close>

function blen :: "int \<Rightarrow> int" where
  "blen n = (if n \<le> 0 then 0 else 1 + blen (n div 2))"
  by auto
termination by (relation "measure nat") auto

declare blen.simps [simp del]

definition scale2 :: "int \<Rightarrow> int \<Rightarrow> int" where
  "scale2 n k = (if k \<le> 0 then n else n * 2 ^ nat k)"

definition flog2 :: "int \<Rightarrow> int \<Rightarrow> int" where
  "flog2 n d = (let l = blen n - blen d in if scale2 d l \<le> scale2 n (- l) then l else l - 1)"

text \<open>Nearest integer to a fraction, ties to even.\<close>

definition rne :: "int \<Rightarrow> int \<Rightarrow> int" where
  "rne a b = (let q = a div b; r = a mod b in
     if 2 * r < b \<or> 2 * r = b \<and> even q then q else q + 1)"

definition fp_pack :: "bool \<Rightarrow> int \<Rightarrow> int \<Rightarrow> ('e::len, 'f::len) fp" where
  "fp_pack s q e = (let p = fp_prec TYPE(('e, 'f) fp);
       (m, x) = (if 2 ^ nat p \<le> q then (2 ^ nat (p - 1), e + 1) else (q, e))
     in if fp_emax TYPE(('e, 'f) fp) < x then FInf s else Fin s m x)"

text \<open>\<open>fp_round s n d k\<close> rounds \<open>n / d * 2 ^ k\<close> with sign \<open>s\<close>.\<close>

definition fp_round :: "bool \<Rightarrow> int \<Rightarrow> int \<Rightarrow> int \<Rightarrow> ('e::len, 'f::len) fp" where
  "fp_round s n d k =
     (if n = 0 then Fin s 0 (fp_emin TYPE(('e, 'f) fp))
      else let e = max (fp_emin TYPE(('e, 'f) fp)) (flog2 n d + k - (fp_prec TYPE(('e, 'f) fp) - 1))
           in fp_pack s (rne (scale2 n (k - e)) (scale2 d (e - k))) e)"

section \<open>Arithmetic\<close>

definition sgn_int :: "bool \<Rightarrow> int \<Rightarrow> int" where
  "sgn_int s m = (if s then - m else m)"

fun fp_neg :: "('e, 'f) fp \<Rightarrow> ('e, 'f) fp" where
  "fp_neg FNaN = FNaN"
| "fp_neg (FInf s) = FInf (\<not> s)"
| "fp_neg (Fin s m e) = Fin (\<not> s) m e"

fun fp_abs :: "('e, 'f) fp \<Rightarrow> ('e, 'f) fp" where
  "fp_abs FNaN = FNaN"
| "fp_abs (FInf s) = FInf False"
| "fp_abs (Fin s m e) = Fin False m e"

fun fp_add :: "('e::len, 'f::len) fp \<Rightarrow> ('e, 'f) fp \<Rightarrow> ('e, 'f) fp" where
  "fp_add (Fin s1 m1 e1) (Fin s2 m2 e2) =
     (let e = min e1 e2;
          a = sgn_int s1 (scale2 m1 (e1 - e)) + sgn_int s2 (scale2 m2 (e2 - e))
      in if a = 0 then Fin (s1 \<and> s2) 0 (fp_emin TYPE(('e, 'f) fp))
         else fp_round (a < 0) \<bar>a\<bar> 1 e)"
| "fp_add (FInf s1) (FInf s2) = (if s1 = s2 then FInf s1 else FNaN)"
| "fp_add (FInf s) (Fin _ _ _) = FInf s"
| "fp_add (Fin _ _ _) (FInf s) = FInf s"
| "fp_add _ _ = FNaN"

fun fp_mul :: "('e::len, 'f::len) fp \<Rightarrow> ('e, 'f) fp \<Rightarrow> ('e, 'f) fp" where
  "fp_mul (Fin s1 m1 e1) (Fin s2 m2 e2) = fp_round (s1 \<noteq> s2) (m1 * m2) 1 (e1 + e2)"
| "fp_mul (FInf s1) (FInf s2) = FInf (s1 \<noteq> s2)"
| "fp_mul (FInf s1) (Fin s2 m2 e2) = (if m2 = 0 then FNaN else FInf (s1 \<noteq> s2))"
| "fp_mul (Fin s1 m1 e1) (FInf s2) = (if m1 = 0 then FNaN else FInf (s1 \<noteq> s2))"
| "fp_mul _ _ = FNaN"

fun fp_div :: "('e::len, 'f::len) fp \<Rightarrow> ('e, 'f) fp \<Rightarrow> ('e, 'f) fp" where
  "fp_div (Fin s1 m1 e1) (Fin s2 m2 e2) =
     (if m2 = 0 then (if m1 = 0 then FNaN else FInf (s1 \<noteq> s2))
      else fp_round (s1 \<noteq> s2) m1 m2 (e1 - e2))"
| "fp_div (FInf s1) (Fin s2 m2 e2) = FInf (s1 \<noteq> s2)"
| "fp_div (Fin s1 m1 e1) (FInf s2) = Fin (s1 \<noteq> s2) 0 (fp_emin TYPE(('e, 'f) fp))"
| "fp_div _ _ = FNaN"

function isqrt :: "int \<Rightarrow> int" where
  "isqrt n = (if n \<le> 0 then 0
     else let r = 2 * isqrt (n div 4) in if (r + 1) * (r + 1) \<le> n then r + 1 else r)"
  by auto
termination by (relation "measure nat") auto

declare isqrt.simps [simp del]

text \<open>
  Square root: the integer root of the significand scaled so that it has more than
  \<open>fp_prec + 2\<close> bits, with one extra bit that says whether the root is inexact.
\<close>

fun fp_sqrt :: "('e::len, 'f::len) fp \<Rightarrow> ('e, 'f) fp" where
  "fp_sqrt FNaN = FNaN"
| "fp_sqrt (FInf s) = (if s then FNaN else FInf False)"
| "fp_sqrt (Fin s m e) =
     (if m = 0 then Fin s m e
      else if s then FNaN
      else let h = e div 2;
               j = fp_prec TYPE(('e, 'f) fp) + 1;
               n = scale2 m (e - 2 * h + 2 * j);
               r = isqrt n
           in fp_round False (2 * r + (if r * r = n then 0 else 1)) 1 (h - j - 1))"

text \<open>\<open>fmod\<close> is exact: the remainder of the truncated quotient, with the dividend's sign.\<close>

fun fp_fmod :: "('e::len, 'f::len) fp \<Rightarrow> ('e, 'f) fp \<Rightarrow> ('e, 'f) fp" where
  "fp_fmod (Fin s1 m1 e1) (Fin s2 m2 e2) =
     (if m2 = 0 then FNaN
      else let e = min e1 e2
           in fp_round s1 (scale2 m1 (e1 - e) mod scale2 m2 (e2 - e)) 1 e)"
| "fp_fmod (Fin s1 m1 e1) (FInf s) = Fin s1 m1 e1"
| "fp_fmod _ _ = FNaN"

fun fp_less :: "('e, 'f) fp \<Rightarrow> ('e, 'f) fp \<Rightarrow> bool" where
  "fp_less (Fin s1 m1 e1) (Fin s2 m2 e2) =
     (let e = min e1 e2 in sgn_int s1 (scale2 m1 (e1 - e)) < sgn_int s2 (scale2 m2 (e2 - e)))"
| "fp_less (FInf s1) (FInf s2) = (s1 \<and> \<not> s2)"
| "fp_less (FInf s) (Fin _ _ _) = s"
| "fp_less (Fin _ _ _) (FInf s) = (\<not> s)"
| "fp_less _ _ = False"

fun fp_le :: "('e, 'f) fp \<Rightarrow> ('e, 'f) fp \<Rightarrow> bool" where
  "fp_le (Fin s1 m1 e1) (Fin s2 m2 e2) =
     (let e = min e1 e2 in sgn_int s1 (scale2 m1 (e1 - e)) \<le> sgn_int s2 (scale2 m2 (e2 - e)))"
| "fp_le (FInf s1) (FInf s2) = (s1 \<or> \<not> s2)"
| "fp_le (FInf s) (Fin _ _ _) = s"
| "fp_le (Fin _ _ _) (FInf s) = (\<not> s)"
| "fp_le _ _ = False"

definition fp_of_int :: "int \<Rightarrow> ('e::len, 'f::len) fp" where
  "fp_of_int n = fp_round (n < 0) \<bar>n\<bar> 1 0"

text \<open>A C conversion to an integer type truncates; \<open>None\<close> where it is undefined (NaN, infinity).\<close>

definition fp_trunc :: "('e, 'f) fp \<Rightarrow> int option" where
  "fp_trunc x = (case x of
     Fin s m e \<Rightarrow> Some (sgn_int s (if 0 \<le> e then scale2 m e else m div 2 ^ nat (- e)))
   | _ \<Rightarrow> None)"


instantiation fp :: (len, len) "{zero, one, plus, minus, uminus, times, inverse, abs, ord}"
begin

definition zero_fp :: "('a::len, 'b::len) fp" where
  "zero_fp = Fin False 0 (fp_emin TYPE(('a, 'b) fp))"
definition one_fp :: "('a::len, 'b::len) fp" where
  "one_fp = fp_of_int 1"
definition plus_fp :: "('a::len, 'b::len) fp \<Rightarrow> ('a, 'b) fp \<Rightarrow> ('a, 'b) fp" where
  "plus_fp = fp_add"
definition uminus_fp :: "('a::len, 'b::len) fp \<Rightarrow> ('a, 'b) fp" where
  "uminus_fp = fp_neg"
definition minus_fp :: "('a::len, 'b::len) fp \<Rightarrow> ('a, 'b) fp \<Rightarrow> ('a, 'b) fp" where
  "minus_fp x y = fp_add x (fp_neg y)"
definition times_fp :: "('a::len, 'b::len) fp \<Rightarrow> ('a, 'b) fp \<Rightarrow> ('a, 'b) fp" where
  "times_fp = fp_mul"
definition divide_fp :: "('a::len, 'b::len) fp \<Rightarrow> ('a, 'b) fp \<Rightarrow> ('a, 'b) fp" where
  "divide_fp = fp_div"
definition inverse_fp :: "('a::len, 'b::len) fp \<Rightarrow> ('a, 'b) fp" where
  "inverse_fp x = fp_div (fp_of_int 1) x"
definition abs_fp :: "('a::len, 'b::len) fp \<Rightarrow> ('a, 'b) fp" where
  "abs_fp = fp_abs"
definition less_fp :: "('a::len, 'b::len) fp \<Rightarrow> ('a, 'b) fp \<Rightarrow> bool" where
  "less_fp = fp_less"
definition less_eq_fp :: "('a::len, 'b::len) fp \<Rightarrow> ('a, 'b) fp \<Rightarrow> bool" where
  "less_eq_fp = fp_le"

instance ..

end

lemmas fp_class_defs = zero_fp_def one_fp_def plus_fp_def uminus_fp_def minus_fp_def
  times_fp_def divide_fp_def inverse_fp_def abs_fp_def less_fp_def less_eq_fp_def

text \<open>C's \<open>==\<close> on numbers: false on NaN, and the two zeros are equal.\<close>

definition c_eq :: "'a::ord \<Rightarrow> 'a \<Rightarrow> bool" where
  "c_eq x y \<longleftrightarrow> x \<le> y \<and> y \<le> x"

end
