(* ===== verification/Ieee754_Rounding.thy ===== *)
theory Ieee754_Rounding
  imports Ieee754
begin

text \<open>
  What the arithmetic of \<open>Ieee754\<close> computes, over the reals: \<open>rnd\<close> is rounding to
  nearest-even in a format, \<open>rounds_to r v\<close> says that \<open>r\<close> is the correctly rounded \<open>v\<close>
  (or an overflow), and every operation satisfies it.  \<open>rounds_to_range\<close> and
  \<open>rounds_to_exact\<close> are the two facts the component proofs use: a result stays between
  representable bounds of the exact value, and is exact where the exact value is
  representable.
\<close>

section \<open>Rounding on the reals\<close>

definition rne_real :: "real \<Rightarrow> int" where
  "rne_real y = (if 2 * (y - of_int \<lfloor>y\<rfloor>) < 1 \<or> 2 * (y - of_int \<lfloor>y\<rfloor>) = 1 \<and> even \<lfloor>y\<rfloor>
     then \<lfloor>y\<rfloor> else \<lfloor>y\<rfloor> + 1)"

definition rexp :: "int \<Rightarrow> int \<Rightarrow> real \<Rightarrow> int" where
  "rexp p emin x = max emin (\<lfloor>log 2 x\<rfloor> - (p - 1))"

definition rpos :: "int \<Rightarrow> int \<Rightarrow> real \<Rightarrow> real" where
  "rpos p emin x = of_int (rne_real (x / 2 powi rexp p emin x)) * 2 powi rexp p emin x"

definition rnd :: "int \<Rightarrow> int \<Rightarrow> real \<Rightarrow> real" where
  "rnd p emin x = (if x = 0 then 0 else if 0 < x then rpos p emin x else - rpos p emin (- x))"

definition representable :: "int \<Rightarrow> int \<Rightarrow> real \<Rightarrow> bool" where
  "representable p emin x \<longleftrightarrow>
     (\<exists>m e. x = of_int m * 2 powi e \<and> \<bar>m\<bar> < 2 ^ nat p \<and> emin \<le> e)"

lemma rne_real_of_int [simp]: "rne_real (of_int k) = k"
  by (simp add: rne_real_def)

lemma rne_real_bounds: "\<lfloor>y\<rfloor> \<le> rne_real y" "rne_real y \<le> \<lfloor>y\<rfloor> + 1"
  by (auto simp: rne_real_def)

lemma rne_real_mono:
  assumes "x \<le> y" shows "rne_real x \<le> rne_real y"
proof (cases "\<lfloor>x\<rfloor> = \<lfloor>y\<rfloor>")
  case True
  with assms show ?thesis by (auto simp: rne_real_def)
next
  case False
  have "\<lfloor>x\<rfloor> \<le> \<lfloor>y\<rfloor>" using assms by (rule floor_mono)
  with False have "\<lfloor>x\<rfloor> + 1 \<le> \<lfloor>y\<rfloor>" by simp
  with rne_real_bounds [of x] rne_real_bounds [of y] show ?thesis by linarith
qed

lemma rne_real_nonneg: "0 \<le> y \<Longrightarrow> 0 \<le> rne_real y"
  using rne_real_mono [of 0 y] rne_real_of_int [of 0] by simp

lemma rne_eq:
  assumes "0 < b" shows "rne a b = rne_real (of_int a / of_int b)"
proof -
  have fl: "\<lfloor>(of_int a :: real) / of_int b\<rfloor> = a div b" by (rule floor_divide_of_int_eq)
  have "(of_int a :: real) = of_int b * of_int (a div b) + of_int (a mod b)"
    by (metis mult_div_mod_eq of_int_add of_int_mult)
  then have fr: "(of_int a :: real) / of_int b - of_int (a div b) = of_int (a mod b) / of_int b"
    using assms by (simp add: field_simps)
  have "(2 * ((of_int (a mod b) :: real) / of_int b) < 1) = (2 * (a mod b) < b)"
    using assms by (simp add: field_simps) (metis (no_types) of_int_less_iff of_int_mult of_int_numeral)
  moreover have "(2 * ((of_int (a mod b) :: real) / of_int b) = 1) = (2 * (a mod b) = b)"
    using assms by (simp add: field_simps) (metis (no_types) of_int_eq_iff of_int_mult of_int_numeral)
  ultimately show ?thesis by (simp add: rne_def rne_real_def fl fr Let_def)
qed

lemma powi_pos [simp]: "0 < (2::real) powi e"
  by simp

lemma powi_split: "(2::real) powi (a + b) = 2 powi a * 2 powi b"
  by (simp add: power_int_add)

lemma powi_nat: "0 \<le> k \<Longrightarrow> (2::real) powi k = of_int (2 ^ nat k)"
  by (simp add: power_int_def)

lemma powi_multiple:
  assumes "e' \<le> e" shows "\<exists>K. of_int m * (2::real) powi e = of_int K * 2 powi e'"
proof -
  have "(2::real) powi e = of_int (2 ^ nat (e - e')) * 2 powi e'"
    using assms powi_split [of "e - e'" e'] by (simp add: powi_nat)
  then have "of_int m * (2::real) powi e = of_int (m * 2 ^ nat (e - e')) * 2 powi e'" by simp
  then show ?thesis by blast
qed

lemma powi_mono: "a \<le> b \<Longrightarrow> (2::real) powi a \<le> 2 powi b"
  by (rule power_int_increasing) simp_all

lemma log_bounds:
  assumes "0 < x"
  shows "2 powi \<lfloor>log 2 x\<rfloor> \<le> x" "x < 2 powi (\<lfloor>log 2 x\<rfloor> + 1)"
proof -
  have "2 powr of_int \<lfloor>log 2 x\<rfloor> \<le> 2 powr log 2 x" by (rule powr_mono) auto
  then show "2 powi \<lfloor>log 2 x\<rfloor> \<le> x" using assms by (simp add: powr_real_of_int')
  have "2 powr log 2 x < 2 powr of_int (\<lfloor>log 2 x\<rfloor> + 1)" by (rule powr_less_mono) auto
  moreover have "2 powr of_int (\<lfloor>log 2 x\<rfloor> + 1) = (2::real) powi (\<lfloor>log 2 x\<rfloor> + 1)"
    by (simp add: powr_real_of_int' del: of_int_add)
  ultimately show "x < 2 powi (\<lfloor>log 2 x\<rfloor> + 1)" using assms by simp
qed

lemma log_unique:
  assumes "2 powi l \<le> x" "x < 2 powi (l + 1)"
  shows "\<lfloor>log 2 x\<rfloor> = l"
proof -
  have x: "0 < x" using assms(1) powi_pos [of l] by linarith
  have "2 powi l < (2::real) powi (\<lfloor>log 2 x\<rfloor> + 1)" "2 powi \<lfloor>log 2 x\<rfloor> < (2::real) powi (l + 1)"
    using assms log_bounds [OF x] by linarith+
  moreover have "a < b" if "(2::real) powi a < 2 powi b" for a b
    using that powi_mono [of b a] by linarith
  ultimately show ?thesis by (metis add.commute less_add_one linorder_not_less order.strict_iff_order zle_add1_eq_le)
qed

lemma rpos_le:
  assumes "0 < x" "x \<le> of_int K * 2 powi rexp p emin x"
  shows "rpos p emin x \<le> of_int K * 2 powi rexp p emin x"
proof -
  have "x / 2 powi rexp p emin x \<le> of_int K" using assms(2) by (simp add: field_simps)
  then have "rne_real (x / 2 powi rexp p emin x) \<le> K" using rne_real_mono rne_real_of_int by metis
  then show ?thesis unfolding rpos_def by (intro mult_right_mono) auto
qed

lemma rpos_ge:
  assumes "0 < x" "of_int K * 2 powi rexp p emin x \<le> x"
  shows "of_int K * 2 powi rexp p emin x \<le> rpos p emin x"
proof -
  have "of_int K \<le> x / 2 powi rexp p emin x" using assms(2) by (simp add: field_simps)
  then have "K \<le> rne_real (x / 2 powi rexp p emin x)" using rne_real_mono rne_real_of_int by metis
  then show ?thesis unfolding rpos_def by (intro mult_right_mono) auto
qed

lemma rpos_nonneg: "0 < x \<Longrightarrow> 0 \<le> rpos p emin x"
  unfolding rpos_def by (intro mult_nonneg_nonneg) (simp_all add: rne_real_nonneg)

lemma rpos_mono:
  assumes x: "0 < x" and xy: "x \<le> y" and p: "1 \<le> p"
  shows "rpos p emin x \<le> rpos p emin y"
proof -
  have y: "0 < y" using x xy by linarith
  let ?ex = "rexp p emin x" and ?ey = "rexp p emin y"
  have "\<lfloor>log 2 x\<rfloor> \<le> \<lfloor>log 2 y\<rfloor>" using x xy by (intro floor_mono) simp
  then have le: "?ex \<le> ?ey" by (auto simp: rexp_def)
  show ?thesis
  proof (cases "?ex = ?ey")
    case True
    have "x / 2 powi ?ex \<le> y / 2 powi ?ex" using xy by (simp add: divide_right_mono)
    then show ?thesis unfolding rpos_def True
      using rne_real_mono True by (intro mult_right_mono) auto
  next
    case False
    let ?L = "\<lfloor>log 2 y\<rfloor>"
    have lt: "?ex < ?ey" using le False by simp
    then have ey: "?ey = ?L - (p - 1)" by (auto simp: rexp_def)
    have "\<lfloor>log 2 x\<rfloor> + 1 \<le> ?L" using lt ey by (auto simp: rexp_def)
    then have "x \<le> 2 powi ?L" using log_bounds(2) [OF x] powi_mono [of "\<lfloor>log 2 x\<rfloor> + 1" ?L] by linarith
    moreover obtain K where K: "2 powi ?L = of_int K * (2::real) powi ?ex"
      using powi_multiple [of ?ex ?L 1] lt ey p by auto
    ultimately have 1: "rpos p emin x \<le> 2 powi ?L" using rpos_le [OF x] by metis
    obtain M where M: "2 powi ?L = of_int M * (2::real) powi ?ey"
      using powi_multiple [of ?ey ?L 1] ey p by auto
    have "2 powi ?L \<le> rpos p emin y" using rpos_ge [OF y] M log_bounds(1) [OF y] by metis
    with 1 show ?thesis by linarith
  qed
qed

lemma rpos_exact:
  assumes x: "0 < x" and r: "representable p emin x" and p: "1 \<le> p"
  shows "rpos p emin x = x"
proof -
  obtain m e where m: "x = of_int m * 2 powi e" "\<bar>m\<bar> < 2 ^ nat p" "emin \<le> e"
    using r by (auto simp: representable_def)
  have "of_int m < (2::real) powi p"
  proof -
    have "m < 2 ^ nat p" using m(2) by linarith
    then have "real_of_int m < of_int (2 ^ nat p)" by (simp only: of_int_less_iff)
    then show ?thesis using p by (simp only: powi_nat)
  qed
  then have "x < 2 powi (e + p)" unfolding m(1) powi_split by (simp add: mult.commute)
  then have "2 powi \<lfloor>log 2 x\<rfloor> < (2::real) powi (e + p)" using log_bounds(1) [OF x] by linarith
  then have "\<lfloor>log 2 x\<rfloor> < e + p" using powi_mono [of "e + p" "\<lfloor>log 2 x\<rfloor>"] by linarith
  then have "rexp p emin x \<le> e" using m(3) by (auto simp: rexp_def)
  then obtain K where "x = of_int K * 2 powi rexp p emin x" using powi_multiple m(1) by blast
  then have "rpos p emin x \<le> x \<and> x \<le> rpos p emin x" using rpos_le [OF x] rpos_ge [OF x] by (metis order_refl)
  then show ?thesis by linarith
qed

lemma rnd_mono:
  assumes "x \<le> y" "1 \<le> p" shows "rnd p emin x \<le> rnd p emin y"
proof -
  consider "0 < x" | "x \<le> 0" "0 \<le> y" | "y < 0" by linarith
  then show ?thesis
  proof cases
    case 1 then show ?thesis using assms rpos_mono by (simp add: rnd_def)
  next
    case 2 then show ?thesis
      using rpos_nonneg [of y p emin] rpos_nonneg [of "- x" p emin] by (auto simp: rnd_def intro: order_trans)
  next
    case 3 then show ?thesis using assms rpos_mono [of "- y" "- x" p emin] by (simp add: rnd_def)
  qed
qed

lemma representable_uminus [simp]: "representable p emin (- x) = representable p emin x"
  unfolding representable_def by (metis (no_types, opaque_lifting) abs_minus_cancel minus_mult_left minus_minus of_int_minus)

lemma rnd_exact: "representable p emin x \<Longrightarrow> 1 \<le> p \<Longrightarrow> rnd p emin x = x"
  using rpos_exact [of x p emin] rpos_exact [of "- x" p emin] by (simp add: rnd_def)

lemma rnd_uminus [simp]: "rnd p emin (- x) = - rnd p emin x"
  by (simp add: rnd_def)

lemma rnd_zero [simp]: "rnd p emin 0 = 0"
  by (simp add: rnd_def)

section \<open>The operations round the exact result\<close>

lemma blen_bounds: "0 < n \<Longrightarrow> 1 \<le> blen n \<and> 2 powi (blen n - 1) \<le> real_of_int n \<and> real_of_int n < 2 powi blen n"
proof (induction n rule: blen.induct)
  case (1 n)
  show ?case
  proof (cases "n = 1")
    case True
    then have "blen n = 1" by (simp add: blen.simps)
    with True show ?thesis by simp
  next
    case False
    let ?h = "n div 2"
    have h: "0 < ?h" using 1 False by linarith
    then have IH: "1 \<le> blen ?h" "2 powi (blen ?h - 1) \<le> real_of_int ?h" "real_of_int ?h < 2 powi blen ?h"
      using 1 by auto
    have b: "blen n = 1 + blen ?h" using 1 by (simp add: blen.simps [of n])
    have up: "?h + 1 \<le> (2::int) ^ nat (blen ?h)"
    proof -
      have "real_of_int ?h < of_int (2 ^ nat (blen ?h))" using IH by (simp only: powi_nat)
      then show ?thesis by (simp only: of_int_less_iff zless_iff_Suc_zadd add1_zle_eq)
    qed
    have "n < 2 * (?h + 1)" "2 * ?h \<le> n" by presburger+
    then have hn: "real_of_int n < real_of_int (2 * (?h + 1))" "real_of_int (2 * ?h) \<le> real_of_int n"
      by (simp_all only: of_int_less_iff of_int_le_iff)
    note hn(1)
    also have "real_of_int (2 * (?h + 1)) \<le> real_of_int (2 * 2 ^ nat (blen ?h))"
      unfolding of_int_le_iff using up by simp
    also have "\<dots> = 2 powi blen n" using IH(1) by (simp add: b powi_split powi_nat)
    finally have u: "real_of_int n < 2 powi blen n" .
    have "2 powi (blen n - 1) = 2 * (2::real) powi (blen ?h - 1)"
      using powi_split [of 1 "blen ?h - 1"] by (simp add: b)
    also have "\<dots> \<le> real_of_int (2 * ?h)" using IH(2) by simp
    also note hn(2)
    finally show ?thesis using u IH(1) b by simp
  qed
qed

lemma scale2_real: "real_of_int (scale2 n k) = of_int n * 2 powi max 0 k"
  by (simp add: scale2_def powi_nat max_def)

lemma scale2_pos [simp]: "0 < scale2 n k \<longleftrightarrow> 0 < n"
  by (simp add: scale2_def zero_less_mult_iff)

lemma scale2_eq_0 [simp]: "scale2 n k = 0 \<longleftrightarrow> n = 0"
  by (simp add: scale2_def)

lemma scale2_nonneg [simp]: "0 \<le> scale2 n k \<longleftrightarrow> 0 \<le> n"
  by (simp add: scale2_def zero_le_mult_iff)

lemma scale2_frac: "0 < d \<Longrightarrow>
  real_of_int (scale2 n (- l)) / of_int (scale2 d l) = of_int n / of_int d * 2 powi (- l)"
  by (cases "0 \<le> l") (simp_all add: scale2_real max_def power_int_minus field_simps)

lemma flog2_bounds:
  assumes n: "0 < n" and d: "0 < d"
  shows "2 powi flog2 n d \<le> real_of_int n / of_int d" "real_of_int n / of_int d < 2 powi (flog2 n d + 1)"
proof -
  let ?l = "blen n - blen d" and ?x = "real_of_int n / of_int d"
  note bn = blen_bounds [OF n] and bd = blen_bounds [OF d]
  have iff: "scale2 d ?l \<le> scale2 n (- ?l) \<longleftrightarrow> 2 powi ?l \<le> ?x"
  proof -
    have "scale2 d ?l \<le> scale2 n (- ?l) \<longleftrightarrow> 1 \<le> real_of_int (scale2 n (- ?l)) / of_int (scale2 d ?l)"
      using d by (simp add: le_divide_eq)
    also have "\<dots> \<longleftrightarrow> 1 \<le> ?x * 2 powi (- ?l)" by (simp only: scale2_frac [OF d])
    also have "\<dots> \<longleftrightarrow> 2 powi ?l \<le> ?x" by (simp only: power_int_minus divide_inverse [symmetric] le_divide_eq_1_pos powi_pos)
    finally show ?thesis .
  qed
  have "?x < 2 powi blen n / 2 powi (blen d - 1)"
    using bn bd d n by (intro frac_less) auto
  also have "\<dots> = 2 powi (?l + 1)"
    by (simp add: power_int_diff [symmetric] algebra_simps)
  finally have u: "?x < 2 powi (?l + 1)" .
  have "2 powi (blen n - 1) / 2 powi blen d \<le> ?x"
    using bn bd d n by (intro frac_le) auto
  then have l: "2 powi (?l - 1) \<le> ?x"
    by (simp add: power_int_diff [symmetric] algebra_simps)
  show "2 powi flog2 n d \<le> ?x" using iff l by (simp add: flog2_def Let_def)
  show "?x < 2 powi (flog2 n d + 1)" using iff u by (auto simp: flog2_def Let_def not_le)
qed

lemma flog2_eq: "0 < n \<Longrightarrow> 0 < d \<Longrightarrow> flog2 n d = \<lfloor>log 2 (real_of_int n / of_int d)\<rfloor>"
  using flog2_bounds log_unique by metis

lemma log_shift:
  assumes "0 < x" shows "\<lfloor>log 2 (x * 2 powi k)\<rfloor> = \<lfloor>log 2 x\<rfloor> + k"
proof (rule log_unique)
  show "2 powi (\<lfloor>log 2 x\<rfloor> + k) \<le> x * 2 powi k"
    unfolding powi_split using log_bounds(1) [OF assms] by simp
  have "2 powi (\<lfloor>log 2 x\<rfloor> + k + 1) = 2 powi (\<lfloor>log 2 x\<rfloor> + 1) * (2::real) powi k"
    by (simp add: powi_split [symmetric] algebra_simps)
  then show "x * 2 powi k < 2 powi (\<lfloor>log 2 x\<rfloor> + k + 1)"
    using log_bounds(2) [OF assms] by simp
qed

lemma fp_val_simps [simp]:
  "fp_val FNaN = 0" "fp_val (FInf s) = 0"
  "fp_val (Fin s m e) = of_int (sgn_int s m) * 2 powi e"
  by (simp_all add: fp_val_def sgn_int_def)

lemma isfinite_simps [simp]:
  "\<not> isfinite FNaN" "\<not> isfinite (FInf s)" "isfinite (Fin s m e)"
  by (simp_all add: isfinite_def)

lemma isfinite_cases: "isfinite x \<Longrightarrow> (\<And>s m e. x = Fin s m e \<Longrightarrow> P) \<Longrightarrow> P"
  by (cases x) auto

text \<open>Packing a rounded significand: the value, and when it overflows.\<close>

lemma fp_pack_val:
  fixes r :: "('e::len, 'f::len) fp"
  assumes r: "r = fp_pack s q e" and q: "0 \<le> q" "q \<le> 2 ^ nat (fp_prec TYPE(('e, 'f) fp))"
  shows "isfinite r \<Longrightarrow> fp_val r = of_int (sgn_int s q) * 2 powi e"
    and "real_of_int q * 2 powi e < 2 powi (fp_emax TYPE(('e, 'f) fp) + fp_prec TYPE(('e, 'f) fp)) \<Longrightarrow>
         e \<le> fp_emax TYPE(('e, 'f) fp) \<Longrightarrow> isfinite r"
proof -
  let ?p = "fp_prec TYPE(('e, 'f) fp)" and ?E = "fp_emax TYPE(('e, 'f) fp)"
  have p: "2 \<le> ?p" by (rule fp_prec_pos)
  have half: "(2::real) ^ nat (?p - 1) * 2 powi (e + 1) = 2 ^ nat ?p * 2 powi e"
  proof -
    have "nat ?p = Suc (nat (?p - 1))" using p by simp
    then show ?thesis by (simp add: power_int_add)
  qed
  show "isfinite r \<Longrightarrow> fp_val r = of_int (sgn_int s q) * 2 powi e"
    using q half unfolding r by (auto simp: fp_pack_def Let_def sgn_int_def split: if_splits)
  assume lt: "real_of_int q * 2 powi e < 2 powi (?E + ?p)" and e: "e \<le> ?E"
  show "isfinite r"
  proof (cases "2 ^ nat ?p \<le> q")
    case True
    then have "q = 2 ^ nat ?p" using q by simp
    then have "(2::real) powi (e + ?p) < 2 powi (?E + ?p)"
      using lt p by (simp add: powi_split powi_nat mult.commute)
    then have "e < ?E" using powi_mono [of "?E + ?p" "e + ?p"] by linarith
    then show ?thesis using True by (simp add: r fp_pack_def Let_def)
  next
    case False
    then show ?thesis using e by (simp add: r fp_pack_def Let_def)
  qed
qed

lemma fp_round_facts:
  fixes r :: "('e::len, 'f::len) fp"
  defines "p \<equiv> fp_prec TYPE(('e, 'f) fp)" and "emin \<equiv> fp_emin TYPE(('e, 'f) fp)"
  assumes r: "r = fp_round s n d k" and n: "0 < n" and d: "0 < d"
    and x: "x = real_of_int n / of_int d * 2 powi k"
  shows "r = fp_pack s (rne_real (x / 2 powi rexp p emin x)) (rexp p emin x)"
    and "0 \<le> rne_real (x / 2 powi rexp p emin x)"
    and "rne_real (x / 2 powi rexp p emin x) \<le> 2 ^ nat p"
proof -
  have fr: "0 < real_of_int n / of_int d" using n d by simp
  have e: "rexp p emin x = max emin (flog2 n d + k - (p - 1))"
    unfolding rexp_def x log_shift [OF fr] flog2_eq [OF n d] ..
  let ?e = "max emin (flog2 n d + k - (p - 1))"
  have "real_of_int (scale2 n (k - ?e)) / of_int (scale2 d (?e - k)) = of_int n / of_int d * 2 powi (k - ?e)"
    using scale2_frac [OF d, of n "?e - k"] by simp
  also have "\<dots> = x / 2 powi ?e"
    by (simp add: x power_int_diff)
  finally have "rne (scale2 n (k - ?e)) (scale2 d (?e - k)) = rne_real (x / 2 powi ?e)"
    using d by (simp add: rne_eq)
  then show "r = fp_pack s (rne_real (x / 2 powi rexp p emin x)) (rexp p emin x)"
    unfolding e using n by (simp add: r fp_round_def Let_def p_def emin_def)
  have x0: "0 < x" unfolding x using fr by (rule mult_pos_pos) simp
  show "0 \<le> rne_real (x / 2 powi rexp p emin x)" using x0 by (intro rne_real_nonneg) simp
  have p: "2 \<le> p" unfolding p_def by (rule fp_prec_pos)
  have "x < 2 powi (rexp p emin x + p)"
  proof -
    have "\<lfloor>log 2 x\<rfloor> + 1 \<le> rexp p emin x + p" by (simp add: rexp_def)
    then show ?thesis using log_bounds(2) [OF x0] powi_mono [of "\<lfloor>log 2 x\<rfloor> + 1" "rexp p emin x + p"] by linarith
  qed
  then have "x / 2 powi rexp p emin x \<le> of_int (2 ^ nat p)"
    using p powi_nat [of p] by (simp add: powi_split field_simps)
  then show "rne_real (x / 2 powi rexp p emin x) \<le> 2 ^ nat p"
    using rne_real_mono rne_real_of_int by metis
qed

abbreviation fp_rnd :: "('e::len, 'f::len) fp itself \<Rightarrow> real \<Rightarrow> real" where
  "fp_rnd F \<equiv> rnd (fp_prec F) (fp_emin F)"

definition fp_max :: "('e::len, 'f::len) fp itself \<Rightarrow> real" where
  "fp_max F = 2 powi (fp_emax F + fp_prec F)"

definition signed :: "bool \<Rightarrow> real \<Rightarrow> real" where
  "signed s x = (if s then - x else x)"

text \<open>A rounded fraction is the real quotient rounded; it is finite below the overflow bound.\<close>

lemma fp_round_val:
  fixes r :: "('e::len, 'f::len) fp"
  assumes E: "fp_emin TYPE(('e, 'f) fp) \<le> fp_emax TYPE(('e, 'f) fp)"
  and r: "r = fp_round s n d k" and n: "0 \<le> n" and d: "0 < d"
    and x: "x = real_of_int n / of_int d * 2 powi k"
  shows "isfinite r \<Longrightarrow> fp_val r = signed s (fp_rnd TYPE(('e, 'f) fp) x)"
    and "fp_rnd TYPE(('e, 'f) fp) x < fp_max TYPE(('e, 'f) fp) \<Longrightarrow> isfinite r"
proof -
  let ?F = "TYPE(('e, 'f) fp)"
  let ?e = "rexp (fp_prec ?F) (fp_emin ?F) x"
  have main: "(isfinite r \<longrightarrow> fp_val r = signed s (fp_rnd ?F x)) \<and> (fp_rnd ?F x < fp_max ?F \<longrightarrow> isfinite r)"
  proof (cases "n = 0")
    case True
    then show ?thesis by (simp add: r fp_round_def x sgn_int_def signed_def)
  next
    case False
    then have n: "0 < n" using n by simp
    have x0: "0 < x" using n d by (simp add: x)
    note f = fp_round_facts [OF r n d x]
    have rp: "fp_rnd ?F x = of_int (rne_real (x / 2 powi ?e)) * 2 powi ?e"
      using x0 by (simp add: rnd_def rpos_def)
    have "?e \<le> fp_emax ?F" if lt: "fp_rnd ?F x < fp_max ?F"
    proof (rule ccontr)
      assume "\<not> ?e \<le> fp_emax ?F"
      then have e: "fp_emax ?F < ?e" by simp
      then have eL: "?e = \<lfloor>log 2 x\<rfloor> - (fp_prec ?F - 1)" using E by (auto simp: rexp_def max_def split: if_splits)
      obtain K where K: "2 powi \<lfloor>log 2 x\<rfloor> = of_int K * (2::real) powi ?e"
        using powi_multiple [of ?e "\<lfloor>log 2 x\<rfloor>" 1] eL fp_prec_pos [where 'e = 'e and 'f = 'f] by auto
      have "2 powi \<lfloor>log 2 x\<rfloor> \<le> rpos (fp_prec ?F) (fp_emin ?F) x"
        unfolding K using rpos_ge [OF x0] log_bounds(1) [OF x0] K by metis
      moreover have "2 powi (fp_emax ?F + fp_prec ?F) \<le> (2::real) powi \<lfloor>log 2 x\<rfloor>"
        using e eL by (intro powi_mono) linarith
      ultimately show False using lt x0 by (simp add: fp_max_def rnd_def)
    qed
    then show ?thesis using fp_pack_val [OF f] rp
      by (auto simp: fp_max_def signed_def sgn_int_def)
  qed
  then show "isfinite r \<Longrightarrow> fp_val r = signed s (fp_rnd ?F x)"
    and "fp_rnd ?F x < fp_max ?F \<Longrightarrow> isfinite r" by blast+
qed

definition rounds_to :: "('e::len, 'f::len) fp \<Rightarrow> real \<Rightarrow> bool" where
  "rounds_to r v \<longleftrightarrow> fp_ok r \<and> (isfinite r \<longrightarrow> fp_val r = fp_rnd TYPE(('e, 'f) fp) v)
     \<and> (\<bar>fp_rnd TYPE(('e, 'f) fp) v\<bar> < fp_max TYPE(('e, 'f) fp) \<longrightarrow> isfinite r)"

definition good_format :: "('e::len, 'f::len) fp itself \<Rightarrow> bool" where
  "good_format F \<longleftrightarrow> fp_emin F \<le> fp_emax F"

lemma good_f64 [simp]: "good_format TYPE(f64)" and good_f32 [simp]: "good_format TYPE(f32)"
  by (simp_all add: good_format_def)

lemma fp_ok_simps [simp]:
  "fp_ok FNaN" "fp_ok (FInf s)"
  "fp_ok (Fin s m e :: ('e::len, 'f::len) fp) \<longleftrightarrow> 0 \<le> m \<and> m < 2 ^ nat (fp_prec TYPE(('e, 'f) fp))
     \<and> fp_emin TYPE(('e, 'f) fp) \<le> e \<and> e \<le> fp_emax TYPE(('e, 'f) fp)
     \<and> (2 ^ nat (fp_prec TYPE(('e, 'f) fp) - 1) \<le> m \<or> e = fp_emin TYPE(('e, 'f) fp))"
  by (simp_all add: fp_ok_def)

lemma fp_prec_mono: "(2::int) ^ nat (fp_prec TYPE(('e::len, 'f::len) fp) - 1) < 2 ^ nat (fp_prec TYPE(('e, 'f) fp))"
proof -
  have "nat (fp_prec TYPE(('e, 'f) fp) - 1) < nat (fp_prec TYPE(('e, 'f) fp))"
    using fp_prec_pos [where 'e = 'e and 'f = 'f] by simp
  then show ?thesis by (simp add: power_strict_increasing)
qed

lemma fp_pack_ok:
  fixes q e :: int
  assumes q: "0 \<le> q" "q \<le> 2 ^ nat (fp_prec TYPE(('e::len, 'f::len) fp))" and e: "fp_emin TYPE(('e, 'f) fp) \<le> e"
    and half: "2 ^ nat (fp_prec TYPE(('e, 'f) fp) - 1) \<le> q \<or> e = fp_emin TYPE(('e, 'f) fp)"
  shows "fp_ok (fp_pack s q e :: ('e, 'f) fp)"
proof (cases "2 ^ nat (fp_prec TYPE(('e, 'f) fp)) \<le> q")
  case True
  then show ?thesis using e fp_prec_mono [where 'e = 'e and 'f = 'f] by (simp add: fp_pack_def Let_def)
next
  case False
  then show ?thesis using q e half by (auto simp add: fp_pack_def Let_def)
qed

lemma fp_round_ok:
  assumes n: "0 \<le> n" and d: "0 < d" and E: "good_format TYPE(('e::len, 'f::len) fp)"
  shows "fp_ok (fp_round s n d k :: ('e, 'f) fp)"
proof (cases "n = 0")
  case True
  then show ?thesis using E by (simp add: fp_round_def good_format_def)
next
  case False
  let ?F = "TYPE(('e, 'f) fp)"
  define x where "x = real_of_int n / of_int d * 2 powi k"
  let ?e = "rexp (fp_prec ?F) (fp_emin ?F) x"
  let ?q = "rne_real (x / 2 powi ?e)"
  have n: "0 < n" using False n by simp
  have x0: "0 < x" using n d by (simp add: x_def)
  have f: "(fp_round s n d k :: ('e, 'f) fp) = fp_pack s ?q ?e" "0 \<le> ?q" "?q \<le> 2 ^ nat (fp_prec ?F)"
    using fp_round_facts [OF refl n d x_def] by blast+
  have e: "fp_emin ?F \<le> ?e" by (simp add: rexp_def)
  have half: "2 ^ nat (fp_prec ?F - 1) \<le> ?q \<or> ?e = fp_emin ?F"
  proof (cases "?e = fp_emin ?F")
    case False
    then have "?e = \<lfloor>log 2 x\<rfloor> - (fp_prec ?F - 1)" by (auto simp: rexp_def)
    then have "2 powi (?e + (fp_prec ?F - 1)) \<le> x" using log_bounds(1) [OF x0] by simp
    then have "2 powi (fp_prec ?F - 1) * 2 powi ?e \<le> x" by (simp only: powi_split mult.commute)
    then have "of_int (2 ^ nat (fp_prec ?F - 1)) \<le> x / 2 powi ?e"
      using fp_prec_pos [where 'e = 'e and 'f = 'f] powi_nat [of "fp_prec ?F - 1"]
      by (simp add: pos_le_divide_eq)
    then show ?thesis using rne_real_mono rne_real_of_int by metis
  qed simp
  show ?thesis
    unfolding f(1) by (rule fp_pack_ok [OF f(2,3) e half])
qed

lemma fp_round_rounds_to:
  assumes "good_format TYPE(('e::len, 'f::len) fp)" "0 \<le> n" "0 < d"
    and v: "v = signed s (real_of_int n / of_int d * 2 powi k)"
  shows "rounds_to (fp_round s n d k :: ('e, 'f) fp) v"
proof -
  let ?F = "TYPE(('e, 'f) fp)" and ?x = "real_of_int n / of_int d * 2 powi k"
  have E: "fp_emin ?F \<le> fp_emax ?F" using assms(1) by (simp add: good_format_def)
  have "0 \<le> ?x" using assms(2,3) by simp
  then have "0 \<le> fp_rnd ?F ?x" using rpos_nonneg by (auto simp: rnd_def)
  moreover have "fp_rnd ?F v = signed s (fp_rnd ?F ?x)" by (simp add: v signed_def)
  ultimately show ?thesis
    using fp_round_val [OF E refl assms(2,3) refl, where s = s and k = k] fp_round_ok [OF assms(2,3,1), of s k]
    by (auto simp: rounds_to_def signed_def)
qed

lemma scale2_min:
  "real_of_int (sgn_int s (scale2 m (e - min e e'))) * 2 powi (min e e') = of_int (sgn_int s m) * 2 powi e"
  by (auto simp: sgn_int_def scale2_real max_def min_def powi_split [symmetric])

lemma scale2_min': "real_of_int (sgn_int s (scale2 m (e - min e' e))) * 2 powi (min e' e) = of_int (sgn_int s m) * 2 powi e"
  using scale2_min [of s m e e'] by (simp add: min.commute)

lemma add_rounds_to:
  fixes x y :: "('e::len, 'f::len) fp"
  assumes "good_format TYPE(('e, 'f) fp)" "isfinite x" "isfinite y"
  shows "rounds_to (x + y) (fp_val x + fp_val y)"
proof -
  obtain s1 m1 e1 s2 m2 e2 where xy: "x = Fin s1 m1 e1" "y = Fin s2 m2 e2"
    using assms(2,3) by (metis isfinite_cases)
  let ?e = "min e1 e2"
  let ?a = "sgn_int s1 (scale2 m1 (e1 - ?e)) + sgn_int s2 (scale2 m2 (e2 - ?e))"
  have v: "fp_val x + fp_val y = of_int ?a * 2 powi ?e"
    by (simp add: xy scale2_min scale2_min' distrib_right)
  show ?thesis
  proof (cases "?a = 0")
    case True
    then show ?thesis using assms(1) v
      by (simp add: xy plus_fp_def Let_def rounds_to_def sgn_int_def good_format_def)
  next
    case False
    have "rounds_to (fp_round (?a < 0) \<bar>?a\<bar> 1 ?e :: ('e, 'f) fp) (fp_val x + fp_val y)"
      by (rule fp_round_rounds_to [OF assms(1)]) (auto simp: v signed_def algebra_simps)
    then show ?thesis using False by (simp add: xy plus_fp_def Let_def)
  qed
qed

lemma fp_val_neg [simp]: "fp_val (- x) = - fp_val x"
  by (cases x) (simp_all add: uminus_fp_def sgn_int_def)

lemma isfinite_neg [simp]: "isfinite (- x) = isfinite x"
  by (cases x) (simp_all add: uminus_fp_def)

lemma fp_ok_neg [simp]: "fp_ok (- x) = fp_ok x"
  by (cases x) (simp_all add: uminus_fp_def)

lemma fp_val_abs: "fp_ok x \<Longrightarrow> fp_val \<bar>x\<bar> = \<bar>fp_val x\<bar>"
  by (cases x) (simp_all add: abs_fp_def sgn_int_def abs_mult)

lemma isfinite_abs [simp]: "isfinite \<bar>x\<bar> = isfinite x"
  by (cases x) (simp_all add: abs_fp_def)

lemma minus_fp_eq: "x - y = x + (- y :: ('e::len, 'f::len) fp)"
  by (simp add: fp_class_defs)

lemma diff_rounds_to:
  fixes x y :: "('e::len, 'f::len) fp"
  assumes "good_format TYPE(('e, 'f) fp)" "isfinite x" "isfinite y"
  shows "rounds_to (x - y) (fp_val x - fp_val y)"
  using add_rounds_to [OF assms(1,2), of "- y"] assms(3) by (simp add: minus_fp_eq)

lemma mult_rounds_to:
  fixes x y :: "('e::len, 'f::len) fp"
  assumes "good_format TYPE(('e, 'f) fp)" "isfinite x" "isfinite y" "fp_ok x" "fp_ok y"
  shows "rounds_to (x * y) (fp_val x * fp_val y)"
proof -
  obtain s1 m1 e1 s2 m2 e2 where xy: "x = Fin s1 m1 e1" "y = Fin s2 m2 e2"
    using assms(2,3) by (metis isfinite_cases)
  have "rounds_to (fp_round (s1 \<noteq> s2) (m1 * m2) 1 (e1 + e2) :: ('e, 'f) fp) (fp_val x * fp_val y)"
    using assms(4,5) by (intro fp_round_rounds_to [OF assms(1)]) (auto simp: xy signed_def sgn_int_def powi_split)
  then show ?thesis by (simp add: xy times_fp_def)
qed

lemma divide_rounds_to:
  fixes x y :: "('e::len, 'f::len) fp"
  assumes "good_format TYPE(('e, 'f) fp)" "isfinite x" "isfinite y" "fp_ok x" "fp_ok y" "fp_val y \<noteq> 0"
  shows "rounds_to (x / y) (fp_val x / fp_val y)"
proof -
  obtain s1 m1 e1 s2 m2 e2 where xy: "x = Fin s1 m1 e1" "y = Fin s2 m2 e2"
    using assms(2,3) by (metis isfinite_cases)
  have m2: "0 < m2" using assms(5,6) by (auto simp: xy sgn_int_def split: if_splits)
  have "rounds_to (fp_round (s1 \<noteq> s2) m1 m2 (e1 - e2) :: ('e, 'f) fp) (fp_val x / fp_val y)"
    using assms(4) m2 by (intro fp_round_rounds_to [OF assms(1)]) (auto simp: xy signed_def sgn_int_def power_int_diff)
  then show ?thesis using m2 by (simp add: xy divide_fp_def)
qed

lemma fp_less_val: "isfinite x \<Longrightarrow> isfinite y \<Longrightarrow> x < y \<longleftrightarrow> fp_val x < fp_val y"
  and fp_le_val: "isfinite x \<Longrightarrow> isfinite y \<Longrightarrow> x \<le> y \<longleftrightarrow> fp_val x \<le> fp_val y"
proof -
  assume "isfinite x" "isfinite y"
  then obtain s1 m1 e1 s2 m2 e2 where xy: "x = Fin s1 m1 e1" "y = Fin s2 m2 e2" by (metis isfinite_cases)
  let ?e = "min e1 e2"
  let ?a = "sgn_int s1 (scale2 m1 (e1 - ?e))" and ?b = "sgn_int s2 (scale2 m2 (e2 - ?e))"
  have v: "fp_val x = of_int ?a * 2 powi ?e" "fp_val y = of_int ?b * 2 powi ?e"
    by (simp_all add: xy scale2_min scale2_min')
  show "x < y \<longleftrightarrow> fp_val x < fp_val y" "x \<le> y \<longleftrightarrow> fp_val x \<le> fp_val y"
    unfolding v by (simp_all add: xy less_fp_def less_eq_fp_def Let_def)
qed

text \<open>Rounding keeps a result between representable bounds.\<close>

lemma rounds_to_range:
  fixes r :: "('e::len, 'f::len) fp"
  assumes r: "rounds_to r v" and b: "lo \<le> v" "v \<le> hi"
    and rep: "representable (fp_prec TYPE(('e, 'f) fp)) (fp_emin TYPE(('e, 'f) fp)) lo"
      "representable (fp_prec TYPE(('e, 'f) fp)) (fp_emin TYPE(('e, 'f) fp)) hi"
    and m: "- lo < fp_max TYPE(('e, 'f) fp)" "hi < fp_max TYPE(('e, 'f) fp)"
  shows "isfinite r \<and> fp_ok r \<and> lo \<le> fp_val r \<and> fp_val r \<le> hi"
proof -
  let ?F = "TYPE(('e, 'f) fp)"
  have p: "1 \<le> fp_prec ?F" using fp_prec_pos [where 'e = 'e and 'f = 'f] by linarith
  have "lo \<le> fp_rnd ?F v" "fp_rnd ?F v \<le> hi"
    using rnd_mono [OF b(1) p, of "fp_emin ?F"] rnd_mono [OF b(2) p, of "fp_emin ?F"] rnd_exact [OF rep(1) p] rnd_exact [OF rep(2) p] by auto
  then show ?thesis using r m by (auto simp: rounds_to_def)
qed

lemma rounds_to_exact:
  fixes r :: "('e::len, 'f::len) fp"
  assumes "rounds_to r v" "representable (fp_prec TYPE(('e, 'f) fp)) (fp_emin TYPE(('e, 'f) fp)) v"
    "\<bar>v\<bar> < fp_max TYPE(('e, 'f) fp)"
  shows "isfinite r \<and> fp_ok r \<and> fp_val r = v"
  using rounds_to_range [OF assms(1) order_refl order_refl assms(2,2)] assms(3) by fastforce

lemma fp_of_int_rounds_to: "good_format TYPE(('e::len, 'f::len) fp) \<Longrightarrow> rounds_to (fp_of_int n :: ('e, 'f) fp) (of_int n)"
  unfolding fp_of_int_def by (rule fp_round_rounds_to) (auto simp: signed_def)

lemma representable_int: "\<bar>n\<bar> < 2 ^ nat p \<Longrightarrow> emin \<le> 0 \<Longrightarrow> representable p emin (of_int n)"
  unfolding representable_def by (rule exI [of _ n], rule exI [of _ 0]) simp

lemma representable_Fin: "fp_ok (x :: ('e::len, 'f::len) fp) \<Longrightarrow> isfinite x \<Longrightarrow>
  representable (fp_prec TYPE(('e, 'f) fp)) (fp_emin TYPE(('e, 'f) fp)) (fp_val x)"
  unfolding representable_def
proof (cases x)
  case (Fin s m e)
  assume "fp_ok x" "isfinite x"
  then have "fp_val x = of_int (sgn_int s m) * 2 powi e \<and> \<bar>sgn_int s m\<bar> < 2 ^ nat (fp_prec TYPE(('e, 'f) fp))
      \<and> fp_emin TYPE(('e, 'f) fp) \<le> e"
    by (auto simp: Fin sgn_int_def)
  then show "\<exists>m e. fp_val x = of_int m * 2 powi e \<and> \<bar>m\<bar> < 2 ^ nat (fp_prec TYPE(('e, 'f) fp))
      \<and> fp_emin TYPE(('e, 'f) fp) \<le> e" by blast
qed simp_all

text \<open>The two formats the code uses.\<close>

lemma fp_max_f64: "(2::real) ^ 1000 \<le> fp_max TYPE(f64)" and fp_max_f32: "(2::real) ^ 120 \<le> fp_max TYPE(f32)"
  using powi_mono [of 1000 1024] powi_mono [of 120 128] by (simp_all add: fp_max_def power_int_def)

lemma f64_of_int [simp]:
  assumes "\<bar>n\<bar> < 2 ^ 53"
  shows "isfinite (fp_of_int n :: f64)" "fp_ok (fp_of_int n :: f64)" "fp_val (fp_of_int n :: f64) = of_int n"
proof -
  have "\<bar>real_of_int n\<bar> < 2 ^ 53"
    using assms by (metis of_int_abs of_int_less_iff of_int_numeral of_int_power)
  also have "\<dots> \<le> fp_max TYPE(f64)" using fp_max_f64 by (rule order_trans [rotated]) simp
  finally have "\<bar>real_of_int n\<bar> < fp_max TYPE(f64)" .
  with rounds_to_exact [OF fp_of_int_rounds_to [OF good_f64], of n] representable_int [of n 53 "- 1074"] assms
  show "isfinite (fp_of_int n :: f64)" "fp_ok (fp_of_int n :: f64)" "fp_val (fp_of_int n :: f64) = of_int n"
    by simp_all
qed

lemma nan_compare [simp]:
  "\<not> FNaN < (x :: ('e::len, 'f::len) fp)" "\<not> (x :: ('e::len, 'f::len) fp) < FNaN"
  "\<not> FNaN \<le> (x :: ('e::len, 'f::len) fp)" "\<not> (x :: ('e::len, 'f::len) fp) \<le> FNaN"
  by (cases x; simp add: less_fp_def less_eq_fp_def)+

end
