(* ===== verification/Sky_Prelude.thy ===== *)
theory Sky_Prelude
  imports Ieee754_Rounding "HOL-Library.Char_ord" "HOL-Library.List_Lexorder"
begin

unbundle bit_operations_syntax

text \<open>
  What every component of the model shares: names for the C integer types, the error
  numbers, C string operations, the interface to the mathematics library, and generic
  facts on lists.  Times in milliseconds (\<open>int64_t\<close> from \<open>k_uptime_get\<close>) are \<open>int\<close>:
  64 bits hold 292 million years of uptime.  Counters and bit masks keep their width.
\<close>

named_theorems sky_eval \<open>definitions unfolded when a concrete input is evaluated\<close>

section \<open>Types and error numbers\<close>

type_synonym u8 = "8 word"
type_synonym u16 = "16 word"
type_synonym u32 = "32 word"
type_synonym s16 = "16 word"
type_synonym s32 = "32 word"
type_synonym ms = int

text \<open>Functions that return \<open>-errno\<close> return \<open>Inl\<close> of it, others \<open>Inr\<close> of their result.\<close>

datatype errno = EINVAL | ENOENT | ENOMEM | ENODEV | EALREADY | ENOTCONN | EAGAIN | EStack int

section \<open>C strings\<close>

text \<open>
  A NUL-terminated string is the list of its characters before the NUL.
  \<open>strncmp_eq n s t\<close> is \<open>strncmp(s, t, n) == 0\<close>; \<open>s \<le> t\<close> of the imported list order is
  \<open>strcmp(s, t) <= 0\<close> (bytes compared as unsigned, a prefix is smaller).
  \<open>strncpy0 n s\<close> is \<open>strncpy(d, s, n); d[n] = 0\<close>.
\<close>

definition strncmp_eq :: "nat \<Rightarrow> string \<Rightarrow> string \<Rightarrow> bool" where
  [sky_eval]: "strncmp_eq n s t \<longleftrightarrow> take n s = take n t"

definition strncpy0 :: "nat \<Rightarrow> string \<Rightarrow> string" where
  [sky_eval]: "strncpy0 n s = take n s"

lemma strncmp_eq_refl [simp]: "strncmp_eq n s s"
  by (simp add: strncmp_eq_def)

lemma strncmp_eq_sym: "strncmp_eq n s t \<Longrightarrow> strncmp_eq n t s"
  by (simp add: strncmp_eq_def)

lemma strncmp_eq_short: "length s < n \<Longrightarrow> length t < n \<Longrightarrow> strncmp_eq n s t \<longleftrightarrow> s = t"
  by (simp add: strncmp_eq_def)

lemma strncmp_eq_short_left:
  assumes "length s < n" shows "strncmp_eq n s t \<longleftrightarrow> s = t"
proof
  assume "strncmp_eq n s t"
  then have e: "s = take n t" using assms by (simp add: strncmp_eq_def)
  then have "length s = min (length t) n" by (metis length_take)
  then have "length t < n" using assms by linarith
  then show "s = t" using e by simp
qed (simp add: strncmp_eq_def)

lemma length_strncpy0 [simp]: "length (strncpy0 n s) \<le> n"
  by (simp add: strncpy0_def)

lemma strncpy0_id: "length s \<le> n \<Longrightarrow> strncpy0 n s = s"
  by (simp add: strncpy0_def)

section \<open>Numbers\<close>

text \<open>
  \<open>n_lit p q\<close> is the decimal constant \<open>p/q\<close> of the source, correctly rounded.  The
  trigonometric functions of the C library have implementation-defined accuracy, so they are
  parameters (\<open>libm\<close>); \<open>sqrt\<close> is correctly rounded by IEEE 754 and \<open>fmod\<close> exact.
  Numeric code is written over \<open>'a num\<close>, so the same definition runs on doubles
  (\<open>f64_num\<close>), which is the program, and on reals (\<open>real_num\<close>), where the algorithm's
  mathematics is stated.  \<open>n_inf\<close> has no real counterpart; no theorem on the reals uses it.
\<close>

record 'a num =
  n_lit :: "int \<Rightarrow> int \<Rightarrow> 'a"
  n_cos :: "'a \<Rightarrow> 'a"
  n_sin :: "'a \<Rightarrow> 'a"
  n_atan2 :: "'a \<Rightarrow> 'a \<Rightarrow> 'a"
  n_sqrt :: "'a \<Rightarrow> 'a"
  n_inf :: "'a"
  n_isfinite :: "'a \<Rightarrow> bool"

record libm =
  m_cos :: "f64 \<Rightarrow> f64"
  m_sin :: "f64 \<Rightarrow> f64"
  m_atan2 :: "f64 \<Rightarrow> f64 \<Rightarrow> f64"

definition fp_lit :: "int \<Rightarrow> int \<Rightarrow> ('e::len, 'f::len) fp" where
  [sky_eval]: "fp_lit p q = fp_round (p < 0) \<bar>p\<bar> q 0"

definition f64_num :: "libm \<Rightarrow> f64 num" where
  "f64_num lm = \<lparr>n_lit = fp_lit, n_cos = m_cos lm, n_sin = m_sin lm, n_atan2 = m_atan2 lm,
     n_sqrt = fp_sqrt, n_inf = FInf False, n_isfinite = isfinite\<rparr>"

definition real_atan2 :: "real \<Rightarrow> real \<Rightarrow> real" where
  "real_atan2 y x = (if 0 < x then arctan (y / x)
     else if x < 0 then (if 0 \<le> y then arctan (y / x) + pi else arctan (y / x) - pi)
     else if 0 < y then pi / 2 else if y < 0 then - (pi / 2) else 0)"

definition real_num :: "real num" where
  "real_num = \<lparr>n_lit = (\<lambda>p q. of_int p / of_int q), n_cos = cos, n_sin = sin, n_atan2 = real_atan2,
     n_sqrt = sqrt, n_inf = 0, n_isfinite = (\<lambda>_. True)\<rparr>"

lemma f64_num_simps [simp, sky_eval]:
  "n_lit (f64_num lm) = fp_lit" "n_cos (f64_num lm) = m_cos lm" "n_sin (f64_num lm) = m_sin lm"
  "n_atan2 (f64_num lm) = m_atan2 lm" "n_sqrt (f64_num lm) = fp_sqrt"
  "n_inf (f64_num lm) = FInf False" "n_isfinite (f64_num lm) = isfinite"
  by (simp_all add: f64_num_def)

lemma real_num_simps [simp]:
  "n_lit real_num p q = of_int p / of_int q" "n_cos real_num = cos" "n_sin real_num = sin"
  "n_atan2 real_num = real_atan2" "n_sqrt real_num = sqrt" "n_isfinite real_num x = True"
  by (simp_all add: real_num_def)

lemma c_eq_real [simp]: "c_eq (x :: real) y \<longleftrightarrow> x = y"
  by (auto simp: c_eq_def)

lemma fp_lit_int: "fp_lit p 1 = fp_of_int p"
  by (simp add: fp_lit_def fp_of_int_def)

text \<open>A C cast of a double to a signed integer of \<open>w\<close> bits: \<open>None\<close> where it is undefined.\<close>

definition fp_to_sint :: "nat \<Rightarrow> ('e, 'f) fp \<Rightarrow> int option" where
  [sky_eval]: "fp_to_sint w x = (case fp_trunc x of None \<Rightarrow> None
     | Some n \<Rightarrow> if - (2 ^ (w - 1)) \<le> n \<and> n < 2 ^ (w - 1) then Some n else None)"

text \<open>32-bit signed arithmetic where nothing overflows.\<close>

lemma sint32_of_int: "- (2 ^ 31) \<le> n \<Longrightarrow> n < 2 ^ 31 \<Longrightarrow> sint (word_of_int n :: s32) = n"
  by (simp add: signed_of_int signed_take_bit_int_eq_self_iff)

lemma sint32_bounds: "- (2 ^ 31) \<le> sint (w :: s32)" "sint (w :: s32) < 2 ^ 31"
  using sint_greater_eq [of w] sint_less [of w] by simp_all

lemma sint32_add: "- (2 ^ 31) \<le> sint a + sint b \<Longrightarrow> sint a + sint b < 2 ^ 31 \<Longrightarrow> sint (a + b :: s32) = sint a + sint b"
  and sint32_sub: "- (2 ^ 31) \<le> sint a - sint b \<Longrightarrow> sint a - sint b < 2 ^ 31 \<Longrightarrow> sint (a - b :: s32) = sint a - sint b"
proof -
  have "a + b = word_of_int (sint a + sint b)" "a - b = word_of_int (sint a - sint b)" by simp_all
  then show "- (2 ^ 31) \<le> sint a + sint b \<Longrightarrow> sint a + sint b < 2 ^ 31 \<Longrightarrow> sint (a + b :: s32) = sint a + sint b"
    and "- (2 ^ 31) \<le> sint a - sint b \<Longrightarrow> sint a - sint b < 2 ^ 31 \<Longrightarrow> sint (a - b :: s32) = sint a - sint b"
    by (metis sint32_of_int)+
qed

text \<open>The absolute difference as the code computes it: \<open>dz = a - b; if (dz < 0) dz = -dz\<close>.\<close>

definition abs_diff32 :: "s32 \<Rightarrow> s32 \<Rightarrow> s32" where
  [sky_eval]: "abs_diff32 a b = (let dz = a - b in if dz <s 0 then - dz else dz)"

lemma sint_abs_diff32:
  assumes "\<bar>sint a\<bar> < 2 ^ 30" "\<bar>sint b\<bar> < 2 ^ 30"
  shows "sint (abs_diff32 a b) = \<bar>sint a - sint b\<bar>"
proof -
  have d: "sint (a - b) = sint a - sint b" using assms by (intro sint32_sub) (auto simp: abs_less_iff)
  have "- (a - b) = b - a" by simp
  moreover have "sint (b - a) = sint b - sint a" using assms by (intro sint32_sub) (auto simp: abs_less_iff)
  ultimately show ?thesis using d by (simp add: abs_diff32_def Let_def word_sless_alt)
qed

section \<open>Lists\<close>

text \<open>The first index that satisfies a predicate, as the array scans of the code compute it.\<close>

fun find_index :: "('a \<Rightarrow> bool) \<Rightarrow> 'a list \<Rightarrow> nat option" where
  "find_index P [] = None"
| "find_index P (x # xs) = (if P x then Some 0 else map_option Suc (find_index P xs))"

lemma find_index_Some:
  "find_index P xs = Some i \<Longrightarrow> i < length xs \<and> P (xs ! i) \<and> (\<forall>j < i. \<not> P (xs ! j))"
proof (induction xs arbitrary: i)
  case (Cons x xs)
  show ?case
  proof (cases "P x")
    case True
    with Cons.prems show ?thesis by simp
  next
    case False
    with Cons.prems obtain k where k: "find_index P xs = Some k" "i = Suc k" by auto
    have "\<not> P ((x # xs) ! j)" if "j < i" for j
      using that False Cons.IH [OF k(1)] k(2) by (cases j) auto
    with k Cons.IH [OF k(1)] show ?thesis by simp
  qed
qed simp

lemma find_index_None: "find_index P xs = None \<longleftrightarrow> (\<forall>x \<in> set xs. \<not> P x)"
  by (induction xs) auto

lemma find_index_unique:
  assumes "i < length xs" "P (xs ! i)" "\<And>j. j < length xs \<Longrightarrow> P (xs ! j) \<Longrightarrow> j = i"
  shows "find_index P xs = Some i"
proof (cases "find_index P xs")
  case None
  then show ?thesis using assms(1,2) by (auto simp: find_index_None)
next
  case (Some j)
  then show ?thesis using find_index_Some [OF Some] assms(3) by blast
qed

text \<open>The array entry \<open>xs[i]\<close> removed and the rest moved down, as the code's shift loops do.\<close>

definition delete_at :: "nat \<Rightarrow> 'a list \<Rightarrow> 'a list" where
  [sky_eval]: "delete_at i xs = take i xs @ drop (Suc i) xs"

lemma length_delete_at: "i < length xs \<Longrightarrow> length (delete_at i xs) = length xs - 1"
  by (simp add: delete_at_def)

lemma set_delete_at: "set (delete_at i xs) \<subseteq> set xs"
  unfolding delete_at_def by (auto dest: in_set_takeD in_set_dropD)

lemma delete_at_id: "length xs \<le> i \<Longrightarrow> delete_at i xs = xs"
  by (simp add: delete_at_def)

lemma nth_delete_at:
  "i < length xs \<Longrightarrow> j < length xs - 1 \<Longrightarrow> delete_at i xs ! j = (if j < i then xs ! j else xs ! Suc j)"
  by (simp add: delete_at_def nth_append)

lemma distinct_map_delete_at: "distinct (map f xs) \<Longrightarrow> distinct (map f (delete_at i xs))"
proof (cases "i < length xs")
  case True
  assume d: "distinct (map f xs)"
  have "map f xs = map f (take i xs) @ f (xs ! i) # map f (drop (Suc i) xs)"
    using True by (metis id_take_nth_drop list.simps(9) map_append)
  with d show ?thesis by (auto simp: delete_at_def)
qed (simp add: delete_at_id)

section \<open>Systems of operations and their runs\<close>

text \<open>
  A component is a start state and a step per operation.  Whatever the start state satisfies
  and every legal operation keeps holds after any sequence of legal operations.
\<close>

fun run :: "('op \<Rightarrow> 's \<Rightarrow> 's) \<Rightarrow> 's \<Rightarrow> 'op list \<Rightarrow> 's" where
  "run step s [] = s"
| "run step s (x # xs) = run step (step x s) xs"

lemma run_append [simp]: "run step s (xs @ ys) = run step (run step s xs) ys"
  by (induction xs arbitrary: s) simp_all

locale op_system =
  fixes init :: "'s"
    and step :: "'op \<Rightarrow> 's \<Rightarrow> 's"
    and legal :: "'op \<Rightarrow> bool"
    and inv :: "'s \<Rightarrow> bool"
  assumes inv_init: "inv init"
    and inv_step: "inv s \<Longrightarrow> legal x \<Longrightarrow> inv (step x s)"
begin

lemma inv_run_from: "inv s \<Longrightarrow> \<forall>x \<in> set xs. legal x \<Longrightarrow> inv (run step s xs)"
  by (induction xs arbitrary: s) (auto intro: inv_step)

lemma inv_run: "\<forall>x \<in> set xs. legal x \<Longrightarrow> inv (run step init xs)"
  by (rule inv_run_from [OF inv_init])

end

end
