(* ===== verification/Kalman.thy ===== *)
theory Kalman
  imports Sky_Prelude
begin

text \<open>
  \<open>kalman.c\<close>: the constant-velocity Kalman filter kept per aircraft, with the matrix helpers
  it is built from (row-major arrays as lists, sums in the order of the C loops), over any
  number type.  On doubles it is the program; what the algorithm computes on the reals is proved in
  \<open>Kalman_Exact\<close>.
\<close>

section \<open>Geographic constants\<close>

definition DEG_PER_M_LAT :: "('a::{times,inverse}) num \<Rightarrow> 'a" where
  "DEG_PER_M_LAT nm = n_lit nm 1 1 / n_lit nm 111000 1"

text \<open>\<open>3.14159265358979323846\<close>\<close>

definition KF_PI :: "'a num \<Rightarrow> 'a" where
  "KF_PI nm = n_lit nm 314159265358979323846 100000000000000000000"

definition deg_per_m_lon_at :: "('a::{times,inverse}) num \<Rightarrow> 'a \<Rightarrow> 'a" where
  "deg_per_m_lon_at nm lat_deg =
     n_lit nm 1 1 / (n_lit nm 111000 1 * n_cos nm (lat_deg * (KF_PI nm / n_lit nm 180 1)))"

section \<open>Matrix helpers\<close>

definition mat4_mul :: "('a::{zero,plus,times}) list \<Rightarrow> 'a list \<Rightarrow> 'a list" where
  "mat4_mul a b = concat (map (\<lambda>i. map (\<lambda>j.
     foldl (\<lambda>s k. s + a ! (i * 4 + k) * b ! (k * 4 + j)) 0 [0, 1, 2, 3]) [0, 1, 2, 3]) [0, 1, 2, 3])"

definition mat4_transpose :: "'a list \<Rightarrow> 'a list" where
  "mat4_transpose m = concat (map (\<lambda>j. map (\<lambda>i. m ! (i * 4 + j)) [0, 1, 2, 3]) [0, 1, 2, 3])"

definition mat4_add :: "('a::plus) list \<Rightarrow> 'a list \<Rightarrow> 'a list" where
  "mat4_add a b = map (\<lambda>i. a ! i + b ! i) [0..<16]"

definition mat_vec4 :: "('a::{zero,plus,times}) list \<Rightarrow> 'a list \<Rightarrow> 'a list" where
  "mat_vec4 m v = map (\<lambda>i. foldl (\<lambda>s j. s + m ! (i * 4 + j) * v ! j) 0 [0, 1, 2, 3]) [0, 1, 2, 3]"

section \<open>The filter\<close>

record 'a kalman_state =
  kf_x :: "'a list"
  kf_P :: "'a list"
  update_count :: u32
  initialised :: bool

text \<open>The tunable globals \<open>g_kalman_q_accel_mps2\<close> and \<open>g_kalman_r_meas_m\<close>.\<close>

record 'a kalman_tuning =
  q_accel_mps2 :: 'a
  r_meas_m :: 'a

definition kalman_tuning_init :: "'a num \<Rightarrow> 'a kalman_tuning" where
  "kalman_tuning_init nm = \<lparr>q_accel_mps2 = n_lit nm 5 10, r_meas_m = n_lit nm 10 1\<rparr>"

text \<open>A zeroed state, as \<open>memset\<close> leaves it.\<close>

definition kalman_zero :: "('a::zero) kalman_state" where
  "kalman_zero = \<lparr>kf_x = replicate 4 0, kf_P = replicate 16 0, update_count = 0, initialised = False\<rparr>"

definition kalman_init :: "('a::{zero,times,inverse}) num \<Rightarrow> 'a \<Rightarrow> 'a \<Rightarrow> 'a kalman_state" where
  "kalman_init nm lat0 lon0 =
     (let sigma_pos_deg = n_lit nm 100 1 * DEG_PER_M_LAT nm;
          sigma_vel_deg = n_lit nm 50 1 * DEG_PER_M_LAT nm
      in \<lparr>kf_x = [lat0, lon0, 0, 0],
          kf_P = [sigma_pos_deg * sigma_pos_deg, 0, 0, 0,
                  0, sigma_pos_deg * sigma_pos_deg, 0, 0,
                  0, 0, sigma_vel_deg * sigma_vel_deg, 0,
                  0, 0, 0, sigma_vel_deg * sigma_vel_deg],
          update_count = 0, initialised = True\<rparr>)"

definition kalman_predict ::
  "('a::{zero,plus,times,inverse}) num \<Rightarrow> 'a kalman_tuning \<Rightarrow> 'a \<Rightarrow> 'a kalman_state \<Rightarrow> 'a kalman_state" where
  "kalman_predict nm g dt_s s =
     (if \<not> initialised s then s
      else let F = [n_lit nm 1 1, 0, dt_s, 0,
                    0, n_lit nm 1 1, 0, dt_s,
                    0, 0, n_lit nm 1 1, 0,
                    0, 0, 0, n_lit nm 1 1];
               x_new = mat_vec4 F (kf_x s);
               FP = mat4_mul F (kf_P s);
               FPFt = mat4_mul FP (mat4_transpose F);
               q_lat = q_accel_mps2 g * DEG_PER_M_LAT nm;
               q_lon = q_accel_mps2 g * deg_per_m_lon_at nm (x_new ! 0);
               q_lat2 = q_lat * q_lat;
               q_lon2 = q_lon * q_lon;
               dt2 = dt_s * dt_s;
               dt3 = dt2 * dt_s;
               dt4 = dt3 * dt_s;
               Q = [(dt4 / n_lit nm 4 1) * q_lat2, 0, (dt3 / n_lit nm 2 1) * q_lat2, 0,
                    0, (dt4 / n_lit nm 4 1) * q_lon2, 0, (dt3 / n_lit nm 2 1) * q_lon2,
                    (dt3 / n_lit nm 2 1) * q_lat2, 0, dt2 * q_lat2, 0,
                    0, (dt3 / n_lit nm 2 1) * q_lon2, 0, dt2 * q_lon2]
           in s\<lparr>kf_x := x_new, kf_P := mat4_add FPFt Q\<rparr>)"

definition kalman_update ::
  "('a::{zero,plus,minus,uminus,times,inverse,ord}) num \<Rightarrow> 'a kalman_tuning \<Rightarrow> 'a \<Rightarrow> 'a
     \<Rightarrow> 'a kalman_state \<Rightarrow> 'a kalman_state" where
  "kalman_update nm g meas_lat meas_lon s =
     (if \<not> initialised s then s
      else let x = kf_x s; P = kf_P s;
               r_lat = r_meas_m g * DEG_PER_M_LAT nm;
               r_lon = r_meas_m g * deg_per_m_lon_at nm (x ! 0);
               R00 = r_lat * r_lat;
               R11 = r_lon * r_lon;
               y0 = meas_lat - x ! 0;
               y1 = meas_lon - x ! 1;
               S00 = P ! 0 + R00;
               S01 = P ! 1;
               S10 = P ! 4;
               S11 = P ! 5 + R11;
               det = S00 * S11 - S01 * S10
           in if c_eq det 0 \<or> \<not> n_isfinite nm det then s
              else let inv_det = n_lit nm 1 1 / det;
                       Si00 = S11 * inv_det;
                       Si01 = - S01 * inv_det;
                       Si10 = - S10 * inv_det;
                       Si11 = S00 * inv_det;
                       K0 = map (\<lambda>i. P ! (i * 4) * Si00 + P ! (i * 4 + 1) * Si10) [0, 1, 2, 3];
                       K1 = map (\<lambda>i. P ! (i * 4) * Si01 + P ! (i * 4 + 1) * Si11) [0, 1, 2, 3];
                       x_new = map (\<lambda>i. x ! i + (K0 ! i * y0 + K1 ! i * y1)) [0, 1, 2, 3];
                       IKH = [n_lit nm 1 1 - K0 ! 0, 0 - K1 ! 0, 0, 0,
                              0 - K0 ! 1, n_lit nm 1 1 - K1 ! 1, 0, 0,
                              0 - K0 ! 2, 0 - K1 ! 2, n_lit nm 1 1, 0,
                              0 - K0 ! 3, 0 - K1 ! 3, 0, n_lit nm 1 1]
                   in s\<lparr>kf_x := x_new, kf_P := mat4_mul IKH P, update_count := update_count s + 1\<rparr>)"

definition kalman_predict_ahead ::
  "('a::{zero,plus,times}) kalman_state \<Rightarrow> 'a \<Rightarrow> 'a \<times> 'a" where
  "kalman_predict_ahead s dt_s =
     (if \<not> initialised s then (0, 0)
      else (kf_x s ! 0 + kf_x s ! 2 * dt_s, kf_x s ! 1 + kf_x s ! 3 * dt_s))"

lemmas kalman_defs [sky_eval] = DEG_PER_M_LAT_def KF_PI_def deg_per_m_lon_at_def mat4_mul_def
  mat4_transpose_def mat4_add_def mat_vec4_def kalman_zero_def kalman_init_def kalman_predict_def
  kalman_update_def kalman_predict_ahead_def kalman_tuning_init_def

section \<open>What holds for any number type\<close>

lemma kalman_update_initialised [simp]: "initialised (kalman_update nm g a b s) = initialised s"
  by (simp add: kalman_update_def Let_def)

lemma kalman_predict_initialised [simp]: "initialised (kalman_predict nm g dt s) = initialised s"
  by (simp add: kalman_predict_def Let_def)

lemma kalman_predict_count [simp]: "update_count (kalman_predict nm g dt s) = update_count s"
  by (simp add: kalman_predict_def Let_def)

lemma kalman_init_simps [simp]:
  "initialised (kalman_init nm a b)" "update_count (kalman_init nm a b) = 0"
  by (simp_all add: kalman_init_def Let_def)

lemma kalman_update_count_cases:
  "update_count (kalman_update nm g a b s) = update_count s + 1 \<or> kalman_update nm g a b s = s"
  by (auto simp: kalman_update_def Let_def)

text \<open>The arrays keep their C dimensions.\<close>

definition kalman_wf :: "'a kalman_state \<Rightarrow> bool" where
  "kalman_wf s \<longleftrightarrow> length (kf_x s) = 4 \<and> length (kf_P s) = 16"

lemma kalman_wf_init [simp]: "kalman_wf (kalman_init nm a b)" and kalman_wf_zero [simp]: "kalman_wf kalman_zero"
  by (simp_all add: kalman_wf_def kalman_init_def kalman_zero_def Let_def)

lemma kalman_wf_predict [simp]: "kalman_wf s \<Longrightarrow> kalman_wf (kalman_predict nm g dt s)"
  by (simp add: kalman_wf_def kalman_predict_def Let_def mat_vec4_def mat4_add_def)

lemma kalman_wf_update [simp]: "kalman_wf s \<Longrightarrow> kalman_wf (kalman_update nm g a b s)"
  by (simp add: kalman_wf_def kalman_update_def Let_def mat4_mul_def)

end
