(* ===== verification/Kalman_Exact.thy ===== *)
theory Kalman_Exact
  imports Kalman
begin

text \<open>
  The Kalman filter of \<open>kalman.c\<close> over the reals (\<open>real_num\<close>): the same definitions
  as the program's, with exact arithmetic.  \<open>quad P\<close> is the quadratic form of a covariance;
  a covariance is good when it is symmetric and its quadratic form never negative.
\<close>

section \<open>Quadratic forms of 4x4 matrices\<close>

definition quad :: "real list \<Rightarrow> real \<Rightarrow> real \<Rightarrow> real \<Rightarrow> real \<Rightarrow> real" where
  "quad P a b c d =
     a * (P ! 0 * a + P ! 1 * b + P ! 2 * c + P ! 3 * d)
   + b * (P ! 4 * a + P ! 5 * b + P ! 6 * c + P ! 7 * d)
   + c * (P ! 8 * a + P ! 9 * b + P ! 10 * c + P ! 11 * d)
   + d * (P ! 12 * a + P ! 13 * b + P ! 14 * c + P ! 15 * d)"

definition symmetric4 :: "real list \<Rightarrow> bool" where
  "symmetric4 P \<longleftrightarrow> P ! 4 = P ! 1 \<and> P ! 8 = P ! 2 \<and> P ! 12 = P ! 3
     \<and> P ! 9 = P ! 6 \<and> P ! 13 = P ! 7 \<and> P ! 14 = P ! 11"

definition good_cov :: "real list \<Rightarrow> bool" where
  "good_cov P \<longleftrightarrow> length P = 16 \<and> symmetric4 P \<and> (\<forall>a b c d. 0 \<le> quad P a b c d)"

lemma good_covD:
  assumes "good_cov P"
  shows "symmetric4 P" "0 \<le> quad P a b c d" "0 \<le> P ! 0" "0 \<le> P ! 5" "P ! 1 * P ! 1 \<le> P ! 0 * P ! 5"
proof -
  show s: "symmetric4 P" and q: "0 \<le> quad P a b c d" for a b c d
    using assms by (auto simp: good_cov_def)
  show p0: "0 \<le> P ! 0" using q [of 1 0 0 0] by (simp add: quad_def)
  show p5: "0 \<le> P ! 5" using q [of 0 1 0 0] by (simp add: quad_def)
  show "P ! 1 * P ! 1 \<le> P ! 0 * P ! 5"
  proof (cases "P ! 0 = 0")
    case True
    have "P ! 1 = 0"
    proof (rule ccontr)
      assume n: "P ! 1 \<noteq> 0"
      have "0 \<le> 2 * (z * P ! 1) + P ! 5" for z
        using q [of z 1 0 0] s True by (simp add: quad_def symmetric4_def algebra_simps)
      then have "0 \<le> 2 * (- (P ! 5 + 1) / (2 * P ! 1) * P ! 1) + P ! 5" .
      moreover have "2 * (- (P ! 5 + 1) / (2 * P ! 1) * P ! 1) = - (P ! 5 + 1)"
        using n by (simp add: field_simps)
      ultimately show False by linarith
    qed
    then show ?thesis using True by simp
  next
    case False
    then have pos: "0 < P ! 0" using p0 by simp
    have "0 \<le> P ! 0 * (P ! 0 * P ! 5 - P ! 1 * P ! 1)"
      using q [of "- P ! 1" "P ! 0" 0 0] s by (simp add: quad_def symmetric4_def algebra_simps)
    then show ?thesis using pos by (simp add: zero_le_mult_iff)
  qed
qed

lemma list16_cases:
  assumes "length P = 16"
  obtains p0 p1 p2 p3 p4 p5 p6 p7 p8 p9 pa pb pc pd pe pf
  where "P = [p0, p1, p2, p3, p4, p5, p6, p7, p8, p9, pa, pb, pc, pd, pe, pf]"
  using assms by (auto simp: length_Suc_conv numeral_eq_Suc)

lemma list4_cases:
  assumes "length x = 4" obtains a b c d where "x = [a, b, c, d]"
  using assms by (auto simp: length_Suc_conv numeral_eq_Suc)

section \<open>Initial state, prediction\<close>

lemma good_cov_init: "good_cov (kf_P (kalman_init real_num a b))"
proof -
  have "0 \<le> x * (k * (z * z) * x)" if "0 \<le> k" for x z k :: real
    using that by (metis mult.assoc mult.left_commute mult_nonneg_nonneg zero_le_square)
  then show ?thesis
    by (auto simp: good_cov_def kalman_init_def Let_def quad_def symmetric4_def intro!: add_nonneg_nonneg)
qed

lemma upt16: "[0..<16] = [0, 1, 2, 3, 4, 5, 6, 7, 8, 9, 10, 11, 12, 13, 14, 15 :: nat]"
  by (simp add: upt_rec numeral_eq_Suc)

lemmas matrix_eval = mat4_mul_def mat4_transpose_def mat4_add_def mat_vec4_def upt16

definition F_mat :: "real \<Rightarrow> real list" where
  "F_mat t = [1, 0, t, 0,  0, 1, 0, t,  0, 0, 1, 0,  0, 0, 0, 1]"

definition Q_mat :: "real \<Rightarrow> real \<Rightarrow> real \<Rightarrow> real list" where
  "Q_mat t u w = [t ^ 4 / 4 * u, 0, t ^ 3 / 2 * u, 0,  0, t ^ 4 / 4 * w, 0, t ^ 3 / 2 * w,
                  t ^ 3 / 2 * u, 0, t ^ 2 * u, 0,  0, t ^ 3 / 2 * w, 0, t ^ 2 * w]"

lemma kalman_predict_real:
  fixes g :: "real kalman_tuning" and t :: real and s :: "real kalman_state"
  assumes "initialised s" "kalman_wf s"
  defines "q \<equiv> q_accel_mps2 g"
  defines "x' \<equiv> [kf_x s ! 0 + kf_x s ! 2 * t, kf_x s ! 1 + kf_x s ! 3 * t, kf_x s ! 2, kf_x s ! 3]"
  shows "kf_x (kalman_predict real_num g t s) = x'"
    and "kf_P (kalman_predict real_num g t s) =
      mat4_add (mat4_mul (mat4_mul (F_mat t) (kf_P s)) (mat4_transpose (F_mat t)))
        (Q_mat t ((q * DEG_PER_M_LAT real_num)\<^sup>2) ((q * deg_per_m_lon_at real_num (x' ! 0))\<^sup>2))"
proof -
  obtain a b c d where x: "kf_x s = [a, b, c, d]" using assms by (auto simp: kalman_wf_def elim: list4_cases)
  show "kf_x (kalman_predict real_num g t s) = x'"
    using assms(1) by (simp add: kalman_predict_def Let_def mat_vec4_def x x'_def)
  show "kf_P (kalman_predict real_num g t s) =
      mat4_add (mat4_mul (mat4_mul (F_mat t) (kf_P s)) (mat4_transpose (F_mat t)))
        (Q_mat t ((q * DEG_PER_M_LAT real_num)\<^sup>2) ((q * deg_per_m_lon_at real_num (x' ! 0))\<^sup>2))"
    using assms(1)
    by (simp add: kalman_predict_def Let_def mat_vec4_def x x'_def F_mat_def Q_mat_def q_def
      power2_eq_square power3_eq_cube power4_eq_xxxx ac_simps)
qed

lemma predict_FPFt:
  assumes "length P = 16"
  shows "mat4_mul (mat4_mul (F_mat t) P) (mat4_transpose (F_mat t)) =
    [P!0 + t*P!8 + t*(P!2 + t*P!10), P!1 + t*P!9 + t*(P!3 + t*P!11), P!2 + t*P!10, P!3 + t*P!11,
     P!4 + t*P!12 + t*(P!6 + t*P!14), P!5 + t*P!13 + t*(P!7 + t*P!15), P!6 + t*P!14, P!7 + t*P!15,
     P!8 + t*P!10, P!9 + t*P!11, P!10, P!11,
     P!12 + t*P!14, P!13 + t*P!15, P!14, P!15]"
  using assms by (elim list16_cases) (simp add: matrix_eval F_mat_def mult.commute)

lemma good_cov_predict_mat:
  assumes P: "good_cov P" and u: "0 \<le> u" "0 \<le> w"
  shows "good_cov (mat4_add (mat4_mul (mat4_mul (F_mat t) P) (mat4_transpose (F_mat t))) (Q_mat t u w))"
    (is "good_cov ?P'")
proof -
  have len: "length P = 16" and sym: "symmetric4 P" using P by (simp_all add: good_cov_def)
  have q: "quad ?P' a b c d = quad P a b (c + t * a) (d + t * b)
      + (t ^ 4 / 4 * u * (a * a) + t ^ 3 / 2 * u * (2 * a * c) + t ^ 2 * u * (c * c))
      + (t ^ 4 / 4 * w * (b * b) + t ^ 3 / 2 * w * (2 * b * d) + t ^ 2 * w * (d * d))" for a b c d
    using sym unfolding predict_FPFt [OF len]
    by (simp add: upt16 mat4_add_def Q_mat_def quad_def symmetric4_def algebra_simps)
  have sq: "t ^ 4 / 4 * z * (x * x) + t ^ 3 / 2 * z * (2 * x * y) + t ^ 2 * z * (y * y)
      = z * (t * (t * x / 2 + y))\<^sup>2" for x y z :: real
    by (simp add: field_simps power2_eq_square power3_eq_cube power4_eq_xxxx)
  have "0 \<le> quad ?P' a b c d" for a b c d
    unfolding q sq using good_covD(2) [OF P] u by (intro add_nonneg_nonneg mult_nonneg_nonneg) simp_all
  moreover have "symmetric4 ?P'"
    using sym unfolding predict_FPFt [OF len] by (simp add: upt16 mat4_add_def Q_mat_def symmetric4_def algebra_simps)
  ultimately show ?thesis by (simp add: good_cov_def mat4_add_def)
qed

lemma good_cov_predict:
  assumes "good_cov (kf_P s)" "kalman_wf s"
  shows "good_cov (kf_P (kalman_predict real_num g t s))"
proof (cases "initialised s")
  case True
  then show ?thesis using assms by (simp add: kalman_predict_real good_cov_predict_mat)
next
  case False
  then show ?thesis using assms by (simp add: kalman_predict_def)
qed

section \<open>Measurement update\<close>

text \<open>The covariance after an update, with the entries of the inverse innovation matrix as arguments.\<close>

definition updated_cov :: "real list \<Rightarrow> real \<Rightarrow> real \<Rightarrow> real \<Rightarrow> real list" where
  "updated_cov P i00 i01 i11 =
     (let k0 = (\<lambda>i. P ! (i * 4) * i00 + P ! (i * 4 + 1) * i01);
          k1 = (\<lambda>i. P ! (i * 4) * i01 + P ! (i * 4 + 1) * i11)
      in mat4_mul [1 - k0 0, 0 - k1 0, 0, 0,  0 - k0 1, 1 - k1 1, 0, 0,
                   0 - k0 2, 0 - k1 2, 1, 0,  0 - k0 3, 0 - k1 3, 0, 1] P)"

lemma length_updated_cov [simp]: "length (updated_cov P i00 i01 i11) = 16"
  by (simp add: updated_cov_def Let_def mat4_mul_def)

lemma updated_cov_symmetric:
  assumes "length P = 16" "symmetric4 P" shows "symmetric4 (updated_cov P i00 i01 i11)"
  using assms by (elim list16_cases) (simp add: updated_cov_def Let_def matrix_eval symmetric4_def algebra_simps)

text \<open>The first two rows of \<open>P v\<close>.\<close>

definition row0 :: "real list \<Rightarrow> real \<Rightarrow> real \<Rightarrow> real \<Rightarrow> real \<Rightarrow> real" where
  "row0 P a b c d = P ! 0 * a + P ! 1 * b + P ! 2 * c + P ! 3 * d"

definition row1 :: "real list \<Rightarrow> real \<Rightarrow> real \<Rightarrow> real \<Rightarrow> real \<Rightarrow> real" where
  "row1 P a b c d = P ! 4 * a + P ! 5 * b + P ! 6 * c + P ! 7 * d"

lemma quad_updated_cov:
  assumes "length P = 16" "symmetric4 P"
  shows "quad (updated_cov P i00 i01 i11) a b c d = quad P a b c d
    - ((i00 * row0 P a b c d + i01 * row1 P a b c d) * row0 P a b c d
     + (i01 * row0 P a b c d + i11 * row1 P a b c d) * row1 P a b c d)"
  using assms
  by (elim list16_cases) (simp add: updated_cov_def Let_def matrix_eval symmetric4_def quad_def row0_def row1_def algebra_simps)

lemma quad_shift:
  assumes "symmetric4 P"
  shows "quad P (a - u) (b - w) c d = quad P a b c d
    - 2 * (u * row0 P a b c d + w * row1 P a b c d) + u * row0 P u w 0 0 + w * row1 P u w 0 0"
  using assms by (simp add: symmetric4_def quad_def row0_def row1_def algebra_simps)

lemma inverse_2x2:
  fixes s00 s01 s11 :: real
  assumes "s00 * s11 - s01 * s01 \<noteq> 0"
  defines "e \<equiv> 1 / (s00 * s11 - s01 * s01)"
  shows "s00 * (s11 * e * x - s01 * e * y) + s01 * (s00 * e * y - s01 * e * x) = x"
    and "s01 * (s11 * e * x - s01 * e * y) + s11 * (s00 * e * y - s01 * e * x) = y"
proof -
  have "s00 * (s11 * e * x - s01 * e * y) + s01 * (s00 * e * y - s01 * e * x) = (s00 * s11 - s01 * s01) * e * x"
    and "s01 * (s11 * e * x - s01 * e * y) + s11 * (s00 * e * y - s01 * e * x) = (s00 * s11 - s01 * s01) * e * y"
    by (simp_all add: algebra_simps)
  then show "s00 * (s11 * e * x - s01 * e * y) + s01 * (s00 * e * y - s01 * e * x) = x"
    and "s01 * (s11 * e * x - s01 * e * y) + s11 * (s00 * e * y - s01 * e * x) = y"
    using assms(1) by (simp_all add: e_def)
qed

lemma innovation_det_nonneg:
  assumes "good_cov P" "0 \<le> r0" "0 \<le> r1"
  shows "0 \<le> (P ! 0 + r0) * (P ! 5 + r1) - P ! 1 * P ! 1"
proof -
  have "0 \<le> r0 * r1" "0 \<le> P ! 0 * r1" "0 \<le> r0 * P ! 5"
    using good_covD [OF assms(1)] assms(2,3) by simp_all
  with good_covD(5) [OF assms(1)] show ?thesis by (simp add: algebra_simps)
qed

lemma updated_cov_quad:
  assumes P: "good_cov P" and r: "0 \<le> r0" "0 \<le> r1"
    and det: "(P ! 0 + r0) * (P ! 5 + r1) - P ! 1 * P ! 1 \<noteq> 0"
  defines "e \<equiv> 1 / ((P ! 0 + r0) * (P ! 5 + r1) - P ! 1 * P ! 1)"
  defines "P' \<equiv> updated_cov P ((P ! 5 + r1) * e) (- P ! 1 * e) ((P ! 0 + r0) * e)"
  shows "0 \<le> quad P' a b c d" "quad P' a b c d \<le> quad P a b c d"
proof -
  have len: "length P = 16" and sym: "symmetric4 P" using P by (simp_all add: good_cov_def)
  let ?x = "row0 P a b c d" and ?y = "row1 P a b c d"
  define u where "u = (P ! 5 + r1) * e * ?x - P ! 1 * e * ?y"
  define w where "w = (P ! 0 + r0) * e * ?y - P ! 1 * e * ?x"
  have Su: "(P ! 0 + r0) * u + P ! 1 * w = ?x" "P ! 1 * u + (P ! 5 + r1) * w = ?y"
    using inverse_2x2 [OF det] unfolding u_def w_def e_def by blast+
  have "quad P' a b c d = quad P a b c d - (((P ! 5 + r1) * e * ?x + - P ! 1 * e * ?y) * ?x
      + (- P ! 1 * e * ?x + (P ! 0 + r0) * e * ?y) * ?y)"
    unfolding P'_def by (rule quad_updated_cov [OF len sym])
  also have "\<dots> = quad P a b c d - (u * ?x + w * ?y)" by (simp add: u_def w_def algebra_simps)
  finally have 1: "quad P' a b c d = quad P a b c d - (u * ?x + w * ?y)" .
  have rows: "row0 P u w 0 0 = ?x - r0 * u" "row1 P u w 0 0 = ?y - r1 * w"
    using Su sym by (simp_all add: row0_def row1_def symmetric4_def algebra_simps)
  have "quad P (a - u) (b - w) c d = quad P' a b c d - r0 * (u * u) - r1 * (w * w)"
    unfolding quad_shift [OF sym] rows 1 by (simp add: algebra_simps)
  moreover have "0 \<le> quad P (a - u) (b - w) c d" by (rule good_covD(2) [OF P])
  moreover have "0 \<le> r0 * (u * u)" "0 \<le> r1 * (w * w)" using r by simp_all
  ultimately show "0 \<le> quad P' a b c d" by linarith
  have "quad P u w 0 0 = u * row0 P u w 0 0 + w * row1 P u w 0 0"
    by (simp add: quad_def row0_def row1_def algebra_simps)
  then have "quad P u w 0 0 = u * ?x + w * ?y - r0 * (u * u) - r1 * (w * w)"
    unfolding rows by (simp add: algebra_simps)
  moreover have "0 \<le> quad P u w 0 0" by (rule good_covD(2) [OF P])
  ultimately show "quad P' a b c d \<le> quad P a b c d"
    using 1 \<open>0 \<le> r0 * (u * u)\<close> \<open>0 \<le> r1 * (w * w)\<close> by linarith
qed

text \<open>
  The measurement update: it is skipped when the innovation determinant is zero, and otherwise
  the covariance is the updated one.
\<close>

lemma kalman_update_real:
  fixes g :: "real kalman_tuning" and s :: "real kalman_state"
  assumes s: "initialised s" "good_cov (kf_P s)"
  defines "P \<equiv> kf_P s" and "r0 \<equiv> (r_meas_m g * DEG_PER_M_LAT real_num)\<^sup>2"
    and "r1 \<equiv> (r_meas_m g * deg_per_m_lon_at real_num (kf_x s ! 0))\<^sup>2"
  defines "d \<equiv> (P ! 0 + r0) * (P ! 5 + r1) - P ! 1 * P ! 1"
  shows "d = 0 \<Longrightarrow> kalman_update real_num g a b s = s"
    and "d \<noteq> 0 \<Longrightarrow> kf_P (kalman_update real_num g a b s) =
      updated_cov P ((P ! 5 + r1) * (1 / d)) (- P ! 1 * (1 / d)) ((P ! 0 + r0) * (1 / d))"
    and "d \<noteq> 0 \<Longrightarrow> update_count (kalman_update real_num g a b s) = update_count s + 1"
proof -
  have sym: "P ! 4 = P ! 1" using s(2) by (simp add: P_def good_cov_def symmetric4_def)
  let ?det = "(P ! 0 + r_meas_m g * DEG_PER_M_LAT real_num * (r_meas_m g * DEG_PER_M_LAT real_num))
    * (P ! 5 + r_meas_m g * deg_per_m_lon_at real_num (kf_x s ! 0) * (r_meas_m g * deg_per_m_lon_at real_num (kf_x s ! 0)))
    - P ! 1 * P ! 4"
  have det: "?det = d" using sym by (simp add: d_def r0_def r1_def power2_eq_square)
  show "d = 0 \<Longrightarrow> kalman_update real_num g a b s = s"
    and "d \<noteq> 0 \<Longrightarrow> update_count (kalman_update real_num g a b s) = update_count s + 1"
    using s(1) det by (auto simp add: kalman_update_def Let_def P_def)
  show "d \<noteq> 0 \<Longrightarrow> kf_P (kalman_update real_num g a b s) =
      updated_cov P ((P ! 5 + r1) * (1 / d)) (- P ! 1 * (1 / d)) ((P ! 0 + r0) * (1 / d))"
    using s(1) det sym
    by (simp add: kalman_update_def Let_def P_def updated_cov_def r0_def r1_def d_def power2_eq_square)
qed

lemma good_cov_update:
  assumes "initialised s" "good_cov (kf_P s)"
  shows "good_cov (kf_P (kalman_update real_num g a b s))"
    and "quad (kf_P (kalman_update real_num g a b s)) p q r t \<le> quad (kf_P s) p q r t"
proof -
  define P where "P = kf_P s"
  define r0 where "r0 = (r_meas_m g * DEG_PER_M_LAT real_num)\<^sup>2"
  define r1 where "r1 = (r_meas_m g * deg_per_m_lon_at real_num (kf_x s ! 0))\<^sup>2"
  define d where "d = (P ! 0 + r0) * (P ! 5 + r1) - P ! 1 * P ! 1"
  note u = kalman_update_real [OF assms, of g, folded r0_def r1_def P_def, folded d_def]
  have P: "good_cov P" using assms(2) by (simp add: P_def)
  have r: "0 \<le> r0" "0 \<le> r1" by (simp_all add: r0_def r1_def)
  have "good_cov (kf_P (kalman_update real_num g a b s)) \<and>
      quad (kf_P (kalman_update real_num g a b s)) p q r t \<le> quad P p q r t"
  proof (cases "d = 0")
    case True
    then show ?thesis using u(1) P by (simp add: P_def)
  next
    case False
    note w = updated_cov_quad [OF P r, folded d_def, OF False]
    show ?thesis
      unfolding u(2) [OF False] good_cov_def
      using w updated_cov_symmetric P by (simp add: good_cov_def)
  qed
  then show "good_cov (kf_P (kalman_update real_num g a b s))"
    and "quad (kf_P (kalman_update real_num g a b s)) p q r t \<le> quad (kf_P s) p q r t"
    by (simp_all add: P_def)
qed

section \<open>The filter as a system\<close>

datatype kf_op = KfPredict real | KfUpdate real real

fun kf_step :: "real kalman_tuning \<Rightarrow> kf_op \<Rightarrow> real kalman_state \<Rightarrow> real kalman_state" where
  "kf_step g (KfPredict dt) s = kalman_predict real_num g dt s"
| "kf_step g (KfUpdate lat lon) s = kalman_update real_num g lat lon s"

definition kf_sound :: "real kalman_state \<Rightarrow> bool" where
  "kf_sound s \<longleftrightarrow> initialised s \<and> kalman_wf s \<and> good_cov (kf_P s)"

interpretation kf_sys: op_system "kalman_init real_num lat0 lon0" "kf_step g" "\<lambda>_. True" kf_sound for lat0 lon0 g
proof
  show "kf_sound (kalman_init real_num lat0 lon0)" by (simp add: kf_sound_def good_cov_init)
  show "kf_sound (kf_step g x s)" if "kf_sound s" for s x
    using that good_cov_predict good_cov_update(1) by (cases x) (auto simp: kf_sound_def)
qed

text \<open>The extrapolation is the mean the filter itself predicts.\<close>

lemma predict_ahead_real:
  assumes "kf_sound s"
  shows "kalman_predict_ahead s t = (kf_x (kalman_predict real_num g t s) ! 0, kf_x (kalman_predict real_num g t s) ! 1)"
  using assms kalman_predict_real(1) [of s g t] by (simp add: kf_sound_def kalman_predict_ahead_def)

end
