(* ===== verification/Aircraft.thy ===== *)
theory Aircraft
  imports Sky_Prelude
begin

text \<open>
  \<open>aircraft_t.h\<close>: the record every producer fills and the database stores.  The \<open>icao\<close>
  buffer of 7 bytes is the string it holds; \<open>alt_ft\<close> is a 32-bit word read as signed.
\<close>

datatype aircraft_source = SRC_UNKNOWN | SRC_ADS_B | SRC_BLE_SIM | SRC_FICT

definition AIRCRAFT_ICAO_BUF_LEN :: nat where
  [sky_eval]: "AIRCRAFT_ICAO_BUF_LEN = 7"

definition AIRCRAFT_VALID_ALT :: u8 where [sky_eval]: "AIRCRAFT_VALID_ALT = 1"
definition AIRCRAFT_VALID_VEL :: u8 where [sky_eval]: "AIRCRAFT_VALID_VEL = 2"
definition AIRCRAFT_VALID_HDG :: u8 where [sky_eval]: "AIRCRAFT_VALID_HDG = 4"
definition AIRCRAFT_VALID_PRED :: u8 where [sky_eval]: "AIRCRAFT_VALID_PRED = 8"

lemmas valid_bits = AIRCRAFT_VALID_ALT_def AIRCRAFT_VALID_VEL_def AIRCRAFT_VALID_HDG_def
  AIRCRAFT_VALID_PRED_def

record aircraft_t =
  ac_icao :: string
  ac_lat :: f64
  ac_lon :: f64
  ac_ts :: f64
  ac_source :: aircraft_source
  ac_valid_mask :: u8
  ac_alt_ft :: s32
  ac_vel_kt :: f64
  ac_hdg_deg :: f64
  ac_pred_lat :: f64
  ac_pred_lon :: f64

text \<open>A record of zero bytes, as \<open>memset\<close> and \<open>= {0}\<close> leave it.\<close>

definition aircraft_zero :: aircraft_t where
  [sky_eval]: "aircraft_zero = \<lparr>ac_icao = [], ac_lat = 0, ac_lon = 0, ac_ts = 0, ac_source = SRC_UNKNOWN,
     ac_valid_mask = 0, ac_alt_ft = 0, ac_vel_kt = 0, ac_hdg_deg = 0, ac_pred_lat = 0, ac_pred_lon = 0\<rparr>"

text \<open>\<open>ac.valid_mask & bit\<close> used as a condition.\<close>

definition ac_has :: "aircraft_t \<Rightarrow> u8 \<Rightarrow> bool" where
  [sky_eval]: "ac_has a b \<longleftrightarrow> ac_valid_mask a AND b \<noteq> 0"

fun aircraft_source_str :: "aircraft_source \<Rightarrow> string" where
  "aircraft_source_str SRC_ADS_B = ''ADS_B''"
| "aircraft_source_str SRC_BLE_SIM = ''BLE_SIM''"
| "aircraft_source_str SRC_FICT = ''FICT''"
| "aircraft_source_str SRC_UNKNOWN = ''UNKNOWN''"

lemma word_and_neq_0_iff: "(m :: 'a::len word) AND push_bit n 1 \<noteq> 0 \<longleftrightarrow> bit m n"
  by (simp add: and_exp_eq_0_iff_not_bit push_bit_eq_mult)

lemma ac_has_bits:
  "ac_has a AIRCRAFT_VALID_ALT \<longleftrightarrow> bit (ac_valid_mask a) 0"
  "ac_has a AIRCRAFT_VALID_VEL \<longleftrightarrow> bit (ac_valid_mask a) 1"
  "ac_has a AIRCRAFT_VALID_HDG \<longleftrightarrow> bit (ac_valid_mask a) 2"
  "ac_has a AIRCRAFT_VALID_PRED \<longleftrightarrow> bit (ac_valid_mask a) 3"
  using word_and_neq_0_iff [of "ac_valid_mask a" 0] word_and_neq_0_iff [of "ac_valid_mask a" 1]
    word_and_neq_0_iff [of "ac_valid_mask a" 2] word_and_neq_0_iff [of "ac_valid_mask a" 3]
  by (simp_all add: ac_has_def valid_bits push_bit_eq_mult)

text \<open>
  What an observation says, without the prediction the database adds: two records with the
  same observation differ only in \<open>pred_lat\<close>, \<open>pred_lon\<close> and the prediction bit.
\<close>

definition same_observation :: "aircraft_t \<Rightarrow> aircraft_t \<Rightarrow> bool" where
  "same_observation a b \<longleftrightarrow> ac_icao a = ac_icao b \<and> ac_lat a = ac_lat b \<and> ac_lon a = ac_lon b
     \<and> ac_ts a = ac_ts b \<and> ac_source a = ac_source b \<and> ac_alt_ft a = ac_alt_ft b
     \<and> ac_vel_kt a = ac_vel_kt b \<and> ac_hdg_deg a = ac_hdg_deg b
     \<and> ac_valid_mask a OR AIRCRAFT_VALID_PRED = ac_valid_mask b OR AIRCRAFT_VALID_PRED"

lemma same_observation_refl [simp]: "same_observation a a"
  by (simp add: same_observation_def)

lemma same_observation_trans: "same_observation a b \<Longrightarrow> same_observation b c \<Longrightarrow> same_observation a c"
  by (simp add: same_observation_def)

lemma same_observation_has:
  assumes "same_observation a b" and "v \<in> {AIRCRAFT_VALID_ALT, AIRCRAFT_VALID_VEL, AIRCRAFT_VALID_HDG}"
  shows "ac_has a v = ac_has b v"
proof -
  have "bit (ac_valid_mask a OR 8) n = bit (ac_valid_mask b OR 8) n" for n
    using assms(1) by (simp add: same_observation_def valid_bits)
  from this [of 0] this [of 1] this [of 2] show ?thesis
    using assms(2) by (auto simp: ac_has_bits bit_or_iff)
qed

end
