(* ===== verification/Aircraft_Db.thy ===== *)
theory Aircraft_Db
  imports Aircraft Kalman
begin

text \<open>
  \<open>aircraft_db.c\<close>: a static pool of 32 entries, the flags of the slots in use, the singly
  linked list of used slots in insertion order, and the counters.  A node of the intrusive
  list is the index of its pool slot, the list itself the sequence of its nodes.  Every public
  function runs under one mutex, so each is one step on this state; \<open>k_uptime_get\<close> is the
  argument \<open>now\<close>.  Pointer arguments are the callers' own objects and never NULL.
\<close>

section \<open>State\<close>

definition AIRCRAFT_DB_MAX_ENTRIES :: nat where [sky_eval]: "AIRCRAFT_DB_MAX_ENTRIES = 32"
definition AIRCRAFT_DB_STALE_MS :: ms where [sky_eval]: "AIRCRAFT_DB_STALE_MS = 10000"
definition AIRCRAFT_PRED_MIN_UPDATES :: u32 where [sky_eval]: "AIRCRAFT_PRED_MIN_UPDATES = 3"
definition AIRCRAFT_PRED_HORIZON_S :: f64 where [sky_eval]: "AIRCRAFT_PRED_HORIZON_S = fp_lit 60 1"

record aircraft_db_entry =
  de_ac :: aircraft_t
  de_last_seen_ms :: ms
  de_kf :: "f64 kalman_state"

record aircraft_db_stats =
  ds_inserts :: u32
  ds_updates :: u32
  ds_stale_evicts :: u32
  ds_pool_full :: u32

record aircraft_db =
  s_pool :: "aircraft_db_entry list"
  s_pool_used :: "bool list"
  s_list :: "nat list"
  s_stats :: aircraft_db_stats

definition entry_zero :: aircraft_db_entry where
  [sky_eval]: "entry_zero = \<lparr>de_ac = aircraft_zero, de_last_seen_ms = 0, de_kf = kalman_zero\<rparr>"

definition db_stats_zero :: aircraft_db_stats where
  [sky_eval]: "db_stats_zero = \<lparr>ds_inserts = 0, ds_updates = 0, ds_stale_evicts = 0, ds_pool_full = 0\<rparr>"

definition aircraft_db_init :: aircraft_db where
  [sky_eval]: "aircraft_db_init =
     \<lparr>s_pool = replicate AIRCRAFT_DB_MAX_ENTRIES entry_zero,
      s_pool_used = replicate AIRCRAFT_DB_MAX_ENTRIES False,
      s_list = [], s_stats = db_stats_zero\<rparr>"

definition db_entry :: "aircraft_db \<Rightarrow> nat \<Rightarrow> aircraft_db_entry" where
  [sky_eval]: "db_entry db i = s_pool db ! i"

section \<open>Pool and list helpers\<close>

definition pool_alloc :: "aircraft_db \<Rightarrow> (nat \<times> aircraft_db) option" where
  "pool_alloc db = (case find_index Not (s_pool_used db) of None \<Rightarrow> None
     | Some i \<Rightarrow> Some (i, db\<lparr>s_pool_used := (s_pool_used db)[i := True],
                             s_pool := (s_pool db)[i := entry_zero]\<rparr>))"

definition pool_free :: "nat \<Rightarrow> aircraft_db \<Rightarrow> aircraft_db" where
  "pool_free i db = db\<lparr>s_pool_used := (s_pool_used db)[i := False]\<rparr>"

definition find_locked :: "string \<Rightarrow> aircraft_db \<Rightarrow> nat option" where
  "find_locked icao db =
     List.find (\<lambda>i. strncmp_eq AIRCRAFT_ICAO_BUF_LEN (ac_icao (de_ac (db_entry db i))) icao) (s_list db)"

text \<open>
  \<open>sys_slist_remove(list, prev, node)\<close> unlinks the node that follows \<open>prev\<close>, or the head
  when \<open>prev\<close> is NULL; the caller has to pass the right predecessor.
\<close>

fun sl_remove_after :: "nat \<Rightarrow> nat \<Rightarrow> nat list \<Rightarrow> nat list" where
  "sl_remove_after p c (x # y # ys) =
     (if x = p \<and> y = c then x # ys else x # sl_remove_after p c (y # ys))"
| "sl_remove_after p c xs = xs"

fun sl_remove :: "nat option \<Rightarrow> nat \<Rightarrow> nat list \<Rightarrow> nat list" where
  "sl_remove None c (x # xs) = (if x = c then xs else x # xs)"
| "sl_remove (Some p) c xs = sl_remove_after p c xs"
| "sl_remove None c [] = []"

section \<open>Operations\<close>

definition publish_prediction :: "aircraft_db_entry \<Rightarrow> aircraft_db_entry" where
  "publish_prediction e =
     (if AIRCRAFT_PRED_MIN_UPDATES \<le> update_count (de_kf e)
      then let (plat, plon) = kalman_predict_ahead (de_kf e) AIRCRAFT_PRED_HORIZON_S
           in e\<lparr>de_ac := (de_ac e)\<lparr>ac_pred_lat := plat, ac_pred_lon := plon,
                 ac_valid_mask := ac_valid_mask (de_ac e) OR AIRCRAFT_VALID_PRED\<rparr>\<rparr>
      else e)"

definition upsert_dt :: "ms \<Rightarrow> ms \<Rightarrow> f64" where
  "upsert_dt now_ms prev_ms =
     (let dt = fp_of_int (now_ms - prev_ms) / fp_lit 1000 1 in if dt \<le> 0 then fp_lit 1 1000 else dt)"

definition aircraft_db_upsert ::
  "libm \<Rightarrow> f64 kalman_tuning \<Rightarrow> ms \<Rightarrow> aircraft_t \<Rightarrow> aircraft_db \<Rightarrow> (errno + int) \<times> aircraft_db" where
  "aircraft_db_upsert lm g now src db =
     (if ac_icao src = [] then (Inl EINVAL, db)
      else case find_locked (ac_icao src) db of
        Some i \<Rightarrow>
          (let e = db_entry db i;
               kf1 = kalman_predict (f64_num lm) g (upsert_dt now (de_last_seen_ms e)) (de_kf e);
               kf2 = kalman_update (f64_num lm) g (ac_lat src) (ac_lon src) kf1;
               e' = e\<lparr>de_ac := src, de_last_seen_ms := now, de_kf := kf2\<rparr>
           in (Inr 0, db\<lparr>s_stats := (s_stats db)\<lparr>ds_updates := ds_updates (s_stats db) + 1\<rparr>,
                         s_pool := (s_pool db)[i := publish_prediction e']\<rparr>))
      | None \<Rightarrow>
          (case pool_alloc db of
             None \<Rightarrow> (Inl ENOMEM, db\<lparr>s_stats := (s_stats db)\<lparr>ds_pool_full := ds_pool_full (s_stats db) + 1\<rparr>\<rparr>)
           | Some (i, db1) \<Rightarrow>
               (let kf1 = kalman_init (f64_num lm) (ac_lat src) (ac_lon src);
                    kf2 = kalman_update (f64_num lm) g (ac_lat src) (ac_lon src) kf1;
                    e' = (db_entry db1 i)\<lparr>de_ac := src, de_last_seen_ms := now, de_kf := kf2\<rparr>
                in (Inr 1, db1\<lparr>s_list := s_list db1 @ [i],
                              s_stats := (s_stats db1)\<lparr>ds_inserts := ds_inserts (s_stats db1) + 1\<rparr>,
                              s_pool := (s_pool db1)[i := publish_prediction e']\<rparr>))))"

definition aircraft_db_lookup :: "string \<Rightarrow> aircraft_db \<Rightarrow> errno + aircraft_t" where
  "aircraft_db_lookup icao db = (case find_locked icao db of
     Some i \<Rightarrow> Inr (de_ac (db_entry db i)) | None \<Rightarrow> Inl ENOENT)"

definition aircraft_db_clear :: "aircraft_db \<Rightarrow> aircraft_db" where
  "aircraft_db_clear db =
     (foldl (\<lambda>d i. pool_free i (d\<lparr>s_list := remove1 i (s_list d)\<rparr>)) db (s_list db))\<lparr>s_stats := db_stats_zero\<rparr>"

definition aircraft_db_count :: "aircraft_db \<Rightarrow> int" where
  "aircraft_db_count db = foldl (\<lambda>n _. n + 1) 0 (s_list db)"

text \<open>The callback returns whether to go on, and the caller's state.\<close>

fun for_each_from :: "(aircraft_db_entry \<Rightarrow> 'u \<Rightarrow> bool \<times> 'u) \<Rightarrow> aircraft_db \<Rightarrow> nat list \<Rightarrow> 'u \<Rightarrow> 'u" where
  "for_each_from cb db [] u = u"
| "for_each_from cb db (i # is) u =
     (let (go, u') = cb (db_entry db i) u in if go then for_each_from cb db is u' else u')"

definition aircraft_db_for_each :: "(aircraft_db_entry \<Rightarrow> 'u \<Rightarrow> bool \<times> 'u) \<Rightarrow> aircraft_db \<Rightarrow> 'u \<Rightarrow> 'u" where
  "aircraft_db_for_each cb db u = for_each_from cb db (s_list db) u"

definition aircraft_db_get_stats :: "aircraft_db \<Rightarrow> aircraft_db_stats" where
  "aircraft_db_get_stats db = s_stats db"

text \<open>The loop of \<open>reap_locked\<close>: \<open>prev\<close> is the last node kept.\<close>

fun reap_from :: "ms \<Rightarrow> nat option \<Rightarrow> nat list \<Rightarrow> aircraft_db \<Rightarrow> aircraft_db" where
  "reap_from now prev [] db = db"
| "reap_from now prev (cur # rest) db =
     (if now - de_last_seen_ms (db_entry db cur) > AIRCRAFT_DB_STALE_MS
      then let db1 = pool_free cur (db\<lparr>s_list := sl_remove prev cur (s_list db)\<rparr>)
           in reap_from now prev rest
                (db1\<lparr>s_stats := (s_stats db1)\<lparr>ds_stale_evicts := ds_stale_evicts (s_stats db1) + 1\<rparr>\<rparr>)
      else reap_from now (Some cur) rest db)"

definition reap_locked :: "ms \<Rightarrow> aircraft_db \<Rightarrow> aircraft_db" where
  "reap_locked now db = reap_from now None (s_list db) db"

section \<open>The reaper's thread\<close>

definition REAPER_TICK_MS :: ms where [sky_eval]: "REAPER_TICK_MS = 2000"

text \<open>One round of the thread's loop, and when it wakes up next; \<open>reaper_spawn\<close> starts it asleep.\<close>

definition reaper_thread_fn :: "ms \<Rightarrow> aircraft_db \<Rightarrow> aircraft_db \<times> ms" where
  [sky_eval, simp]: "reaper_thread_fn now db = (reap_locked now db, now + REAPER_TICK_MS)"

definition reaper_spawn :: "ms \<Rightarrow> ms" where
  [sky_eval]: "reaper_spawn now = now + REAPER_TICK_MS"

lemmas db_op_defs [sky_eval] = pool_alloc_def pool_free_def find_locked_def publish_prediction_def
  upsert_dt_def aircraft_db_upsert_def aircraft_db_lookup_def aircraft_db_clear_def aircraft_db_count_def
  aircraft_db_for_each_def aircraft_db_get_stats_def reap_locked_def

end
