(* ===== verification/Aircraft_Db_Correct.thy ===== *)
theory Aircraft_Db_Correct
  imports Aircraft_Db
begin

text \<open>
  The database against its specification.  \<open>db_rows\<close> reads a state as the sequence of its
  entries; \<open>db_inv\<close> says that list, flags and keys agree.  Every operation keeps the
  invariant, and acts on the rows as the \<open>spec_\<close> functions say.  The locale
  \<open>observation_store\<close> is the interface the producers and consumers of aircraft use.
\<close>

section \<open>Rows, keys and the invariant\<close>

definition ac_key :: "aircraft_t \<Rightarrow> string" where
  "ac_key a = take AIRCRAFT_ICAO_BUF_LEN (ac_icao a)"

definition db_rows :: "aircraft_db \<Rightarrow> aircraft_db_entry list" where
  "db_rows db = map (db_entry db) (s_list db)"

definition row_keys :: "aircraft_db_entry list \<Rightarrow> string list" where
  "row_keys rows = map (ac_key \<circ> de_ac) rows"

definition rows_ok :: "aircraft_db_entry list \<Rightarrow> bool" where
  "rows_ok rows \<longleftrightarrow> distinct (row_keys rows) \<and> [] \<notin> set (row_keys rows)
     \<and> length rows \<le> AIRCRAFT_DB_MAX_ENTRIES"

definition db_inv :: "aircraft_db \<Rightarrow> bool" where
  "db_inv db \<longleftrightarrow> length (s_pool db) = AIRCRAFT_DB_MAX_ENTRIES
     \<and> length (s_pool_used db) = AIRCRAFT_DB_MAX_ENTRIES
     \<and> distinct (s_list db)
     \<and> (\<forall>i. i \<in> set (s_list db) \<longleftrightarrow> i < AIRCRAFT_DB_MAX_ENTRIES \<and> s_pool_used db ! i)
     \<and> rows_ok (db_rows db)"

lemma ac_key_Nil [simp]: "ac_key a = [] \<longleftrightarrow> ac_icao a = []" "[] = ac_key a \<longleftrightarrow> ac_icao a = []"
  by (auto simp: ac_key_def AIRCRAFT_ICAO_BUF_LEN_def)

lemma length_db_rows [simp]: "length (db_rows db) = length (s_list db)"
  by (simp add: db_rows_def)

lemma find_find_index: "List.find P xs = map_option (nth xs) (find_index P xs)"
  by (induction xs) (auto simp: option.map_comp comp_def)

lemma find_index_map: "find_index P (map f xs) = find_index (P \<circ> f) xs"
  by (induction xs) auto

definition same_key :: "string \<Rightarrow> aircraft_db_entry \<Rightarrow> bool" where
  "same_key k e \<longleftrightarrow> strncmp_eq AIRCRAFT_ICAO_BUF_LEN (ac_icao (de_ac e)) k"

lemma same_key_iff: "same_key k e \<longleftrightarrow> ac_key (de_ac e) = take 7 k"
  by (simp add: same_key_def strncmp_eq_def ac_key_def AIRCRAFT_ICAO_BUF_LEN_def)

lemma entry_overwrite [simp]:
  "e\<lparr>de_ac := a, de_last_seen_ms := t, de_kf := k\<rparr> = \<lparr>de_ac = a, de_last_seen_ms = t, de_kf = k\<rparr>"
  by (cases e) simp

lemma find_locked_rows:
  "find_locked k db = map_option (nth (s_list db)) (find_index (same_key k) (db_rows db))"
  by (simp add: find_locked_def find_find_index db_rows_def find_index_map comp_def same_key_def)

lemma rows_full:
  assumes "db_inv db"
  shows "length (s_list db) \<le> AIRCRAFT_DB_MAX_ENTRIES"
    and "find_index Not (s_pool_used db) = None \<longleftrightarrow> length (s_list db) = AIRCRAFT_DB_MAX_ENTRIES"
proof -
  let ?N = AIRCRAFT_DB_MAX_ENTRIES
  have sub: "set (s_list db) \<subseteq> {..<?N}" and d: "distinct (s_list db)"
    using assms by (auto simp: db_inv_def)
  have card: "card (set (s_list db)) = length (s_list db)" using d by (rule distinct_card)
  show "length (s_list db) \<le> ?N" using card_mono [OF _ sub] card by simp
  have "find_index Not (s_pool_used db) = None \<longleftrightarrow> (\<forall>i < ?N. s_pool_used db ! i)"
    using assms by (simp add: find_index_None db_inv_def all_set_conv_all_nth)
  also have "\<dots> \<longleftrightarrow> {..<?N} \<subseteq> set (s_list db)"
    using assms by (auto simp: db_inv_def)
  also have "\<dots> \<longleftrightarrow> length (s_list db) = ?N"
  proof
    assume "{..<?N} \<subseteq> set (s_list db)"
    with sub have "set (s_list db) = {..<?N}" by blast
    then show "length (s_list db) = ?N" using card by simp
  next
    assume "length (s_list db) = ?N"
    then have "set (s_list db) = {..<?N}" using card_subset_eq [OF _ sub] card by simp
    then show "{..<?N} \<subseteq> set (s_list db)" by simp
  qed
  finally show "find_index Not (s_pool_used db) = None \<longleftrightarrow> length (s_list db) = ?N" .
qed

lemma publish_prediction_simps [simp]:
  "ac_icao (de_ac (publish_prediction e)) = ac_icao (de_ac e)"
  "de_last_seen_ms (publish_prediction e) = de_last_seen_ms e"
  "de_kf (publish_prediction e) = de_kf e"
  by (simp_all add: publish_prediction_def split: prod.splits)

lemma publish_prediction_observation [simp]:
  "same_observation (de_ac (publish_prediction e)) (de_ac e)"
  by (simp add: publish_prediction_def same_observation_def or.assoc split: prod.splits)

section \<open>Specification\<close>

text \<open>The entry of a new aircraft, and of a known one after one more observation.\<close>

definition fresh_entry :: "libm \<Rightarrow> f64 kalman_tuning \<Rightarrow> ms \<Rightarrow> aircraft_t \<Rightarrow> aircraft_db_entry" where
  "fresh_entry lm g now src = publish_prediction
     \<lparr>de_ac = src, de_last_seen_ms = now,
      de_kf = kalman_update (f64_num lm) g (ac_lat src) (ac_lon src)
                (kalman_init (f64_num lm) (ac_lat src) (ac_lon src))\<rparr>"

definition refreshed_entry ::
  "libm \<Rightarrow> f64 kalman_tuning \<Rightarrow> ms \<Rightarrow> aircraft_t \<Rightarrow> aircraft_db_entry \<Rightarrow> aircraft_db_entry" where
  "refreshed_entry lm g now src e = publish_prediction
     \<lparr>de_ac = src, de_last_seen_ms = now,
      de_kf = kalman_update (f64_num lm) g (ac_lat src) (ac_lon src)
                (kalman_predict (f64_num lm) g (upsert_dt now (de_last_seen_ms e)) (de_kf e))\<rparr>"

definition spec_upsert ::
  "libm \<Rightarrow> f64 kalman_tuning \<Rightarrow> ms \<Rightarrow> aircraft_t \<Rightarrow> aircraft_db_entry list
     \<Rightarrow> (errno + int) \<times> aircraft_db_entry list" where
  "spec_upsert lm g now src rows =
     (if ac_icao src = [] then (Inl EINVAL, rows)
      else case find_index (same_key (ac_icao src)) rows of
        Some k \<Rightarrow> (Inr 0, rows[k := refreshed_entry lm g now src (rows ! k)])
      | None \<Rightarrow> if length rows < AIRCRAFT_DB_MAX_ENTRIES
                then (Inr 1, rows @ [fresh_entry lm g now src]) else (Inl ENOMEM, rows))"

definition fresh_enough :: "ms \<Rightarrow> aircraft_db_entry \<Rightarrow> bool" where
  "fresh_enough now e \<longleftrightarrow> now - de_last_seen_ms e \<le> AIRCRAFT_DB_STALE_MS"

section \<open>Upsert\<close>

lemma row_keys_update:
  assumes "k < length rows" "ac_key (de_ac e) = ac_key (de_ac (rows ! k))"
  shows "row_keys (rows[k := e]) = row_keys rows"
  using assms by (simp add: row_keys_def map_update list_update_same_conv)

lemma db_rows_update:
  assumes "distinct (s_list db)" "k < length (s_list db)" "s_list db ! k < length (s_pool db)"
  shows "db_rows (db\<lparr>s_stats := st, s_pool := (s_pool db)[s_list db ! k := e]\<rparr>) = (db_rows db)[k := e]"
proof (rule nth_equalityI)
  fix j assume "j < length (db_rows (db\<lparr>s_stats := st, s_pool := (s_pool db)[s_list db ! k := e]\<rparr>))"
  then show "db_rows (db\<lparr>s_stats := st, s_pool := (s_pool db)[s_list db ! k := e]\<rparr>) ! j = (db_rows db)[k := e] ! j"
    using assms by (cases "j = k") (auto simp: db_rows_def db_entry_def nth_eq_iff_index_eq)
qed simp

lemma find_locked_Some:
  assumes "db_inv db" "find_index (same_key k) (db_rows db) = Some j"
  shows "j < length (s_list db)" "s_list db ! j < AIRCRAFT_DB_MAX_ENTRIES"
    and "find_locked k db = Some (s_list db ! j)" "ac_key (de_ac (db_rows db ! j)) = take 7 k"
    and "db_rows db ! j = db_entry db (s_list db ! j)"
proof -
  note f = find_index_Some [OF assms(2)]
  show l: "j < length (s_list db)" using f by simp
  then have "s_list db ! j \<in> set (s_list db)" by (rule nth_mem)
  then show "s_list db ! j < AIRCRAFT_DB_MAX_ENTRIES" using assms(1) unfolding db_inv_def by blast
  show "find_locked k db = Some (s_list db ! j)" by (simp add: find_locked_rows assms(2))
  show "ac_key (de_ac (db_rows db ! j)) = take 7 k"
    using f by (simp add: same_key_iff)
  show "db_rows db ! j = db_entry db (s_list db ! j)" using l by (simp add: db_rows_def)
qed

lemma upsert_known:
  assumes inv: "db_inv db" and n: "ac_icao src \<noteq> []"
    and f: "find_index (same_key (ac_icao src)) (db_rows db) = Some k"
  obtains db' where "aircraft_db_upsert lm g now src db = (Inr 0, db')" "db_inv db'"
    "db_rows db' = (db_rows db)[k := refreshed_entry lm g now src (db_rows db ! k)]"
proof
  note fl = find_locked_Some [OF inv f]
  let ?e = "refreshed_entry lm g now src (db_rows db ! k)"
  let ?db = "db\<lparr>s_stats := (s_stats db)\<lparr>ds_updates := ds_updates (s_stats db) + 1\<rparr>,
     s_pool := (s_pool db)[s_list db ! k := ?e]\<rparr>"
  show "aircraft_db_upsert lm g now src db = (Inr 0, ?db)"
    using n fl by (simp add: aircraft_db_upsert_def Let_def refreshed_entry_def)
  have d: "distinct (s_list db)" "length (s_pool db) = AIRCRAFT_DB_MAX_ENTRIES" "rows_ok (db_rows db)"
    using inv by (simp_all add: db_inv_def)
  show rows: "db_rows ?db = (db_rows db)[k := ?e]"
    using d fl by (intro db_rows_update) simp_all
  have "ac_key (de_ac ?e) = ac_key (de_ac (db_rows db ! k))"
    using fl(4) by (simp add: refreshed_entry_def ac_key_def AIRCRAFT_ICAO_BUF_LEN_def)
  then have "row_keys (db_rows ?db) = row_keys (db_rows db)"
    unfolding rows using fl(1) by (intro row_keys_update) simp_all
  then have "rows_ok (db_rows ?db)" using d(3) unfolding rows_ok_def rows by simp
  then show "db_inv ?db" using inv by (simp add: db_inv_def)
qed

lemma upsert_new:
  assumes inv: "db_inv db" and n: "ac_icao src \<noteq> []"
    and f: "find_index (same_key (ac_icao src)) (db_rows db) = None"
    and room: "length (s_list db) < AIRCRAFT_DB_MAX_ENTRIES"
  obtains db' where "aircraft_db_upsert lm g now src db = (Inr 1, db')" "db_inv db'"
    "db_rows db' = db_rows db @ [fresh_entry lm g now src]"
proof -
  obtain i where i: "find_index Not (s_pool_used db) = Some i" using rows_full [OF inv] room by auto
  have len: "length (s_pool db) = AIRCRAFT_DB_MAX_ENTRIES" "length (s_pool_used db) = AIRCRAFT_DB_MAX_ENTRIES"
    and mem: "\<And>j. j \<in> set (s_list db) \<longleftrightarrow> j < AIRCRAFT_DB_MAX_ENTRIES \<and> s_pool_used db ! j"
    and d: "distinct (s_list db)" and ok: "rows_ok (db_rows db)"
    using inv by (simp_all add: db_inv_def)
  have free: "i < AIRCRAFT_DB_MAX_ENTRIES" "\<not> s_pool_used db ! i"
    using find_index_Some [OF i] len by auto
  then have new: "i \<notin> set (s_list db)" by (simp add: mem)
  let ?e = "fresh_entry lm g now src"
  let ?db = "db\<lparr>s_pool_used := (s_pool_used db)[i := True],
     s_pool := (s_pool db)[i := entry_zero, i := ?e], s_list := s_list db @ [i],
     s_stats := (s_stats db)\<lparr>ds_inserts := ds_inserts (s_stats db) + 1\<rparr>\<rparr>"
  show thesis
  proof (rule that)
    show "aircraft_db_upsert lm g now src db = (Inr 1, ?db)"
      using n f i free len
      by (simp add: aircraft_db_upsert_def find_locked_rows pool_alloc_def Let_def fresh_entry_def
        db_entry_def entry_zero_def)
    show rows: "db_rows ?db = db_rows db @ [?e]"
    proof -
      have "(s_pool db)[i := ?e] ! x = s_pool db ! x" if "x \<in> set (s_list db)" for x
        using that new by (metis nth_list_update_neq)
      then show ?thesis using free len by (simp add: db_rows_def db_entry_def)
    qed
    have key: "ac_key (de_ac ?e) = ac_key src"
      by (simp add: fresh_entry_def ac_key_def)
    have "ac_key src \<notin> set (row_keys (db_rows db))"
      using f by (auto simp: find_index_None row_keys_def same_key_iff ac_key_def AIRCRAFT_ICAO_BUF_LEN_def)
    then have "rows_ok (db_rows ?db)"
      using ok room n key unfolding rows rows_ok_def row_keys_def by simp
    moreover have "j \<in> set (s_list db @ [i]) \<longleftrightarrow> j < AIRCRAFT_DB_MAX_ENTRIES \<and> (s_pool_used db)[i := True] ! j" for j
      using free len mem [of j] by (cases "j = i") auto
    ultimately show "db_inv ?db" using new d len by (simp add: db_inv_def)
  qed
qed

lemma upsert_full:
  assumes inv: "db_inv db" and n: "ac_icao src \<noteq> []"
    and f: "find_index (same_key (ac_icao src)) (db_rows db) = None"
    and full: "\<not> length (s_list db) < AIRCRAFT_DB_MAX_ENTRIES"
  obtains db' where "aircraft_db_upsert lm g now src db = (Inl ENOMEM, db')" "db_inv db'" "db_rows db' = db_rows db"
proof
  let ?db = "db\<lparr>s_stats := (s_stats db)\<lparr>ds_pool_full := ds_pool_full (s_stats db) + 1\<rparr>\<rparr>"
  have "find_index Not (s_pool_used db) = None" using rows_full [OF inv] full by simp
  then show "aircraft_db_upsert lm g now src db = (Inl ENOMEM, ?db)"
    using n f by (simp add: aircraft_db_upsert_def find_locked_rows pool_alloc_def)
  show r: "db_rows ?db = db_rows db" by (simp add: db_rows_def db_entry_def)
  show "db_inv ?db" using inv by (simp add: db_inv_def r)
qed

lemma upsert_refines:
  assumes inv: "db_inv db" and u: "aircraft_db_upsert lm g now src db = (rc, db')"
  shows "db_inv db' \<and> spec_upsert lm g now src (db_rows db) = (rc, db_rows db')"
proof (cases "ac_icao src = []")
  case True
  then show ?thesis using u inv by (simp add: aircraft_db_upsert_def spec_upsert_def)
next
  case False
  show ?thesis
  proof (cases "find_index (same_key (ac_icao src)) (db_rows db)")
    case (Some k)
    obtain d where "aircraft_db_upsert lm g now src db = (Inr 0, d)" "db_inv d"
      "db_rows d = (db_rows db)[k := refreshed_entry lm g now src (db_rows db ! k)]"
      using upsert_known [OF inv False Some] .
    then show ?thesis using u False Some by (simp add: spec_upsert_def)
  next
    case None
    note N = None
    show ?thesis
    proof (cases "length (s_list db) < AIRCRAFT_DB_MAX_ENTRIES")
      case True
      obtain d where "aircraft_db_upsert lm g now src db = (Inr 1, d)" "db_inv d"
        "db_rows d = db_rows db @ [fresh_entry lm g now src]"
        using upsert_new [OF inv False N True] .
      then show ?thesis using u False N True by (simp add: spec_upsert_def)
    next
      case nroom: False
      obtain d where "aircraft_db_upsert lm g now src db = (Inl ENOMEM, d)" "db_inv d" "db_rows d = db_rows db"
        using upsert_full [OF inv False N nroom] .
      then show ?thesis using u False N nroom by (simp add: spec_upsert_def)
    qed
  qed
qed

lemma db_inv_upsert: "db_inv db \<Longrightarrow> db_inv (snd (aircraft_db_upsert lm g now src db))"
  using upsert_refines by (metis prod.collapse)

lemma db_inv_init: "db_inv aircraft_db_init" and db_rows_init [simp]: "db_rows aircraft_db_init = []"
  by (simp_all add: db_inv_def aircraft_db_init_def db_rows_def rows_ok_def row_keys_def)

section \<open>Lookup, count, traversal, clear\<close>

definition spec_lookup :: "string \<Rightarrow> aircraft_db_entry list \<Rightarrow> errno + aircraft_t" where
  "spec_lookup k rows = (case find_index (same_key k) rows of
     Some j \<Rightarrow> Inr (de_ac (rows ! j)) | None \<Rightarrow> Inl ENOENT)"

lemma lookup_rows:
  assumes "db_inv db" shows "aircraft_db_lookup k db = spec_lookup k (db_rows db)"
proof (cases "find_index (same_key k) (db_rows db)")
  case None
  then show ?thesis by (simp add: aircraft_db_lookup_def find_locked_rows spec_lookup_def)
next
  case (Some j)
  then show ?thesis using find_locked_Some [OF assms Some] by (simp add: aircraft_db_lookup_def spec_lookup_def)
qed

lemma count_rows: "aircraft_db_count db = int (length (db_rows db))"
proof -
  have "foldl (\<lambda>n _. n + 1) m xs = m + int (length xs)" for m and xs :: "nat list"
    by (induction xs arbitrary: m) simp_all
  then show ?thesis by (simp add: aircraft_db_count_def)
qed

text \<open>The traversal on rows: the callback sees the entries in insertion order until it stops.\<close>

fun walk :: "('e \<Rightarrow> 'u \<Rightarrow> bool \<times> 'u) \<Rightarrow> 'e list \<Rightarrow> 'u \<Rightarrow> 'u" where
  "walk cb [] u = u"
| "walk cb (e # es) u = (case cb e u of (go, u') \<Rightarrow> if go then walk cb es u' else u')"

lemma for_each_rows: "aircraft_db_for_each cb db u = walk cb (db_rows db) u"
proof -
  have "for_each_from cb db is u = walk cb (map (db_entry db) is) u" for "is" u
    by (induction "is" arbitrary: u) (simp_all add: Let_def split: prod.splits)
  then show ?thesis by (simp add: aircraft_db_for_each_def db_rows_def)
qed

lemma clear_result:
  assumes "db_inv db"
  shows "db_rows (aircraft_db_clear db) = []" "db_inv (aircraft_db_clear db)"
    "s_stats (aircraft_db_clear db) = db_stats_zero"
proof -
  let ?f = "\<lambda>d i. pool_free i (d\<lparr>s_list := remove1 i (s_list d)\<rparr>)"
  have fold: "s_list d = xs \<Longrightarrow> s_list (foldl ?f d xs) = []
      \<and> s_pool (foldl ?f d xs) = s_pool d
      \<and> length (s_pool_used (foldl ?f d xs)) = length (s_pool_used d)
      \<and> (\<forall>i < length (s_pool_used d). s_pool_used (foldl ?f d xs) ! i \<longleftrightarrow> s_pool_used d ! i \<and> i \<notin> set xs)" for d xs
  proof (induction xs arbitrary: d)
    case (Cons x xs)
    have "s_list (?f d x) = xs" using Cons.prems by (simp add: pool_free_def)
    note IH = Cons.IH [OF this]
    have used: "s_pool_used (?f d x) = (s_pool_used d)[x := False]" "s_pool (?f d x) = s_pool d"
      by (simp_all add: pool_free_def)
    have "s_pool_used (foldl ?f d (x # xs)) ! i \<longleftrightarrow> s_pool_used d ! i \<and> i \<notin> set (x # xs)"
      if "i < length (s_pool_used d)" for i
      using IH that used by (cases "i = x") (simp_all del: foldl.simps add: foldl_Cons)
    then show ?case using IH used by simp
  qed simp
  note f = fold [OF refl, of db]
  let ?c = "aircraft_db_clear db"
  have c: "s_list ?c = []" "s_pool ?c = s_pool db" "length (s_pool_used ?c) = length (s_pool_used db)"
    "\<And>i. i < length (s_pool_used db) \<Longrightarrow> \<not> s_pool_used ?c ! i"
    using f assms by (auto simp: aircraft_db_clear_def db_inv_def)
  show r: "db_rows ?c = []" using c(1) by (simp add: db_rows_def)
  show "s_stats ?c = db_stats_zero" by (simp add: aircraft_db_clear_def)
  have "length (s_pool ?c) = AIRCRAFT_DB_MAX_ENTRIES" "length (s_pool_used ?c) = AIRCRAFT_DB_MAX_ENTRIES"
    using assms c by (simp_all add: db_inv_def)
  moreover have "\<not> s_pool_used ?c ! i" if "i < AIRCRAFT_DB_MAX_ENTRIES" for i
    using assms that c(4) by (simp add: db_inv_def)
  ultimately show "db_inv ?c"
    using c(1) unfolding db_inv_def r by (auto simp: rows_ok_def row_keys_def)
qed

section \<open>The stale reaper\<close>

lemma sl_remove_after_last:
  "distinct (xs @ c # ys) \<Longrightarrow> xs \<noteq> [] \<Longrightarrow> sl_remove_after (last xs) c (xs @ c # ys) = xs @ ys"
proof (induction xs)
  case (Cons x xs)
  show ?case
  proof (cases xs)
    case Nil
    then show ?thesis by simp
  next
    case (Cons y zs)
    have "x \<noteq> last (y # zs)" using Cons.prems Cons by (metis distinct.simps(2) append_Cons last_in_set list.discI Un_iff set_append)
    then show ?thesis using Cons Cons.IH Cons.prems by simp
  qed
qed simp

definition prev_of :: "nat list \<Rightarrow> nat option" where
  "prev_of xs = (if xs = [] then None else Some (last xs))"

lemma sl_remove_prev: "distinct (xs @ c # ys) \<Longrightarrow> sl_remove (prev_of xs) c (xs @ c # ys) = xs @ ys"
  using sl_remove_after_last by (cases "xs = []") (simp_all add: prev_of_def)

text \<open>What one pass over the list leaves: \<open>kept\<close> are the cells already passed, \<open>todo\<close> the ones still
  to be looked at when the database was \<open>db\<close>.\<close>

definition reaped :: "ms \<Rightarrow> nat list \<Rightarrow> nat list \<Rightarrow> aircraft_db \<Rightarrow> aircraft_db \<Rightarrow> bool" where
  "reaped now kept todo db db' =
     (let live = filter (\<lambda>i. fresh_enough now (db_entry db i)) todo
      in s_list db' = kept @ live \<and> s_pool db' = s_pool db
       \<and> length (s_pool_used db') = length (s_pool_used db)
       \<and> (\<forall>i < length (s_pool_used db). s_pool_used db' ! i \<longleftrightarrow> s_pool_used db ! i \<and> i \<notin> set todo - set live)
       \<and> s_stats db' = (s_stats db)\<lparr>ds_stale_evicts :=
            ds_stale_evicts (s_stats db) + of_nat (length todo - length live)\<rparr>)"

lemma reaped_keep:
  assumes "reaped now (kept @ [c]) rest db db'" "fresh_enough now (db_entry db c)"
    and "distinct (kept @ c # rest)"
  shows "reaped now kept (c # rest) db db'"
  using assms by (auto simp: reaped_def Let_def)

lemma reaped_drop:
  assumes r: "reaped now kept rest ((pool_free c (db\<lparr>s_list := kept @ rest\<rparr>))\<lparr>s_stats :=
      (s_stats db)\<lparr>ds_stale_evicts := ds_stale_evicts (s_stats db) + 1\<rparr>\<rparr>) db'"
    and old: "\<not> fresh_enough now (db_entry db c)"
    and c: "distinct (kept @ c # rest)" "c < length (s_pool_used db)"
  shows "reaped now kept (c # rest) db db'"
proof -
  have e: "db_entry ((pool_free c (db\<lparr>s_list := kept @ rest\<rparr>))\<lparr>s_stats := x\<rparr>) = db_entry db" for x
    by (rule ext) (simp add: db_entry_def pool_free_def)
  have len: "length (filter P rest) \<le> length rest" for P by simp
  show ?thesis
    using r old c len [of "\<lambda>i. fresh_enough now (db_entry db i)"] unfolding reaped_def e Let_def
    by (auto simp: pool_free_def nth_list_update Suc_diff_le add.assoc)
qed

lemma reap_from_result:
  "distinct (kept @ todo) \<Longrightarrow> s_list db = kept @ todo \<Longrightarrow>
   (\<forall>i \<in> set todo. i < length (s_pool_used db)) \<Longrightarrow>
   reaped now kept todo db (reap_from now (prev_of kept) todo db)"
proof (induction todo arbitrary: kept db)
  case Nil
  then show ?case by (simp add: reaped_def)
next
  case (Cons c rest)
  show ?case
  proof (cases "fresh_enough now (db_entry db c)")
    case True
    have "reaped now (kept @ [c]) rest db (reap_from now (prev_of (kept @ [c])) rest db)"
      using Cons.prems by (intro Cons.IH) simp_all
    moreover have "reap_from now (prev_of kept) (c # rest) db = reap_from now (prev_of (kept @ [c])) rest db"
      using True by (simp add: fresh_enough_def prev_of_def)
    ultimately show ?thesis using True Cons.prems(1) by (simp only: reaped_keep)
  next
    case False
    let ?d = "(pool_free c (db\<lparr>s_list := kept @ rest\<rparr>))\<lparr>s_stats :=
      (s_stats db)\<lparr>ds_stale_evicts := ds_stale_evicts (s_stats db) + 1\<rparr>\<rparr>"
    have "reaped now kept rest ?d (reap_from now (prev_of kept) rest ?d)"
      using Cons.prems by (intro Cons.IH) (simp_all add: pool_free_def)
    moreover have "reap_from now (prev_of kept) (c # rest) db = reap_from now (prev_of kept) rest ?d"
      using False Cons.prems(1,2) by (simp add: fresh_enough_def sl_remove_prev pool_free_def Let_def)
    ultimately show ?thesis using False Cons.prems(1,3) by (simp add: reaped_drop)
  qed
qed

lemma reap_result:
  assumes inv: "db_inv db"
  shows "db_rows (reap_locked now db) = filter (fresh_enough now) (db_rows db)"
    and "db_inv (reap_locked now db)"
    and "ds_stale_evicts (s_stats (reap_locked now db)) = ds_stale_evicts (s_stats db)
      + of_nat (length (db_rows db) - length (db_rows (reap_locked now db)))"
proof -
  let ?d = "reap_locked now db" and ?live = "filter (\<lambda>i. fresh_enough now (db_entry db i)) (s_list db)"
  have pre: "distinct ([] @ s_list db)" "s_list db = [] @ s_list db"
    "\<forall>i \<in> set (s_list db). i < length (s_pool_used db)"
    using inv by (auto simp: db_inv_def)
  have r: "s_list ?d = ?live" "s_pool ?d = s_pool db" "length (s_pool_used ?d) = length (s_pool_used db)"
    "\<forall>i < length (s_pool_used db). s_pool_used ?d ! i \<longleftrightarrow> s_pool_used db ! i \<and> i \<notin> set (s_list db) - set ?live"
    "s_stats ?d = (s_stats db)\<lparr>ds_stale_evicts := ds_stale_evicts (s_stats db) + of_nat (length (s_list db) - length ?live)\<rparr>"
    using reap_from_result [OF pre, of now] by (auto simp: reaped_def Let_def reap_locked_def prev_of_def)
  have e: "db_entry ?d = db_entry db" by (rule ext) (simp add: db_entry_def r)
  show rows: "db_rows ?d = filter (fresh_enough now) (db_rows db)"
    by (simp add: db_rows_def e r(1) filter_map comp_def)
  show "ds_stale_evicts (s_stats ?d) = ds_stale_evicts (s_stats db)
      + of_nat (length (db_rows db) - length (db_rows ?d))"
    by (simp add: r)
  have "rows_ok (filter (fresh_enough now) (db_rows db))"
    using inv by (auto simp: db_inv_def rows_ok_def row_keys_def distinct_map_filter intro: le_trans [OF length_filter_le])
  moreover have "i \<in> set ?live \<longleftrightarrow> i < AIRCRAFT_DB_MAX_ENTRIES \<and> s_pool_used ?d ! i" for i
    using inv r(4) by (auto simp: db_inv_def)
  ultimately show "db_inv ?d" using inv rows r by (simp add: db_inv_def)
qed

section \<open>Sequences of operations\<close>

datatype db_op = DbInit | DbUpsert ms aircraft_t | DbReap ms | DbClear

fun db_step :: "libm \<Rightarrow> f64 kalman_tuning \<Rightarrow> db_op \<Rightarrow> aircraft_db \<Rightarrow> aircraft_db" where
  "db_step lm g DbInit db = aircraft_db_init"
| "db_step lm g (DbUpsert now a) db = snd (aircraft_db_upsert lm g now a db)"
| "db_step lm g (DbReap now) db = reap_locked now db"
| "db_step lm g DbClear db = aircraft_db_clear db"

interpretation db_sys: op_system aircraft_db_init "db_step lm g" "\<lambda>_. True" db_inv for lm g
proof
  show "db_inv aircraft_db_init" by (rule db_inv_init)
  show "db_inv s \<Longrightarrow> db_inv (db_step lm g x s)" for s x
    by (cases x) (simp_all add: db_inv_init db_inv_upsert reap_result clear_result)
qed

section \<open>The store as its clients see it\<close>

text \<open>
  \<open>put c a s\<close> offers the observation \<open>a\<close> in context \<open>c\<close>; \<open>get\<close> looks an aircraft up.
  The laws: an accepted observation is what a lookup returns, other aircraft are untouched,
  and a known aircraft is never refused.
\<close>

locale observation_store =
  fixes put :: "'c \<Rightarrow> aircraft_t \<Rightarrow> 's \<Rightarrow> (errno + int) \<times> 's"
    and get :: "string \<Rightarrow> 's \<Rightarrow> errno + aircraft_t"
    and ok :: "'s \<Rightarrow> bool"
  assumes put_ok: "ok s \<Longrightarrow> ok (snd (put c a s))"
    and get_put: "ok s \<Longrightarrow> put c a s = (Inr r, s') \<Longrightarrow>
      \<exists>b. get (ac_icao a) s' = Inr b \<and> same_observation b a"
    and get_put_other: "ok s \<Longrightarrow> take AIRCRAFT_ICAO_BUF_LEN k \<noteq> ac_key a \<Longrightarrow> get k (snd (put c a s)) = get k s"
    and put_known: "ok s \<Longrightarrow> get (ac_icao a) s = Inr b \<Longrightarrow> fst (put c a s) = Inr 0"
    and get_cong: "take AIRCRAFT_ICAO_BUF_LEN k = take AIRCRAFT_ICAO_BUF_LEN k' \<Longrightarrow> get k s = get k' s"
begin

definition feed :: "'s \<Rightarrow> ('c \<times> aircraft_t) list \<Rightarrow> 's" where
  "feed s xs = foldl (\<lambda>s (c, a). snd (put c a s)) s xs"

lemma get_put_known:
  assumes "ok s" "get k s = Inr b" "ac_key a = take AIRCRAFT_ICAO_BUF_LEN k"
  shows "\<exists>b'. get k (snd (put c a s)) = Inr b' \<and> same_observation b' a"
proof -
  have k: "get k t = get (ac_icao a) t" for t using assms(3) by (intro get_cong) (simp add: ac_key_def)
  have "fst (put c a s) = Inr 0" using put_known assms(1,2) k by simp
  then have "put c a s = (Inr 0, snd (put c a s))" by (metis prod.collapse)
  from get_put [OF assms(1) this] show ?thesis by (simp add: k)
qed

lemma feed_latest:
  assumes "ok s" "get k s = Inr b"
  shows "\<exists>b'. get k (feed s xs) = Inr b' \<and>
    (case filter (\<lambda>(c, a). ac_key a = take AIRCRAFT_ICAO_BUF_LEN k) xs of
       [] \<Rightarrow> b' = b | ys \<Rightarrow> same_observation b' (snd (last ys)))"
  using assms
proof (induction xs arbitrary: s b)
  case Nil
  then show ?case by (simp add: feed_def)
next
  case (Cons x xs)
  obtain c a where x: "x = (c, a)" by (cases x)
  have f: "feed s ((c, a) # xs) = feed (snd (put c a s)) xs" by (simp add: feed_def)
  show ?case
  proof (cases "ac_key a = take AIRCRAFT_ICAO_BUF_LEN k")
    case True
    obtain b1 where b1: "get k (snd (put c a s)) = Inr b1" "same_observation b1 a"
      using get_put_known [OF Cons.prems True] by blast
    obtain b' where "get k (feed (snd (put c a s)) xs) = Inr b'" "case filter (\<lambda>(c, a). ac_key a = take AIRCRAFT_ICAO_BUF_LEN k) xs of
       [] \<Rightarrow> b' = b1 | ys \<Rightarrow> same_observation b' (snd (last ys))"
      using Cons.IH [OF put_ok [OF Cons.prems(1)] b1(1)] by blast
    then show ?thesis using b1(2) True unfolding x f
      by (cases "filter (\<lambda>(c, a). ac_key a = take AIRCRAFT_ICAO_BUF_LEN k) xs") simp_all
  next
    case False
    have "get k (snd (put c a s)) = Inr b" using get_put_other [OF Cons.prems(1)] False Cons.prems(2) by simp
    from Cons.IH [OF put_ok [OF Cons.prems(1)] this] show ?thesis using False unfolding x f by simp
  qed
qed

end

lemma find_index_append_None:
  "find_index P xs = None \<Longrightarrow> find_index P (xs @ ys) = map_option ((+) (length xs)) (find_index P ys)"
proof (induction xs)
  case Nil
  then show ?case by (cases "find_index P ys") simp_all
next
  case (Cons x xs)
  then show ?case by (cases "find_index P ys") (auto split: if_splits)
qed

lemma find_index_append_Some: "find_index P xs = Some i \<Longrightarrow> find_index P (xs @ ys) = Some i"
  by (induction xs arbitrary: i) (auto split: if_splits)

lemma find_index_update: "(i < length xs \<Longrightarrow> P y = P (xs ! i)) \<Longrightarrow> find_index P (xs[i := y]) = find_index P xs"
  by (induction xs arbitrary: i) (auto split: nat.splits)

lemma same_key_refreshed [simp]:
  "same_key k (refreshed_entry lm g now src e) \<longleftrightarrow> ac_key src = take AIRCRAFT_ICAO_BUF_LEN k"
  "same_key k (fresh_entry lm g now src) \<longleftrightarrow> ac_key src = take AIRCRAFT_ICAO_BUF_LEN k"
  by (simp_all add: same_key_iff refreshed_entry_def fresh_entry_def ac_key_def AIRCRAFT_ICAO_BUF_LEN_def)

lemma entry_observation [simp]:
  "same_observation (de_ac (refreshed_entry lm g now src e)) src"
  "same_observation (de_ac (fresh_entry lm g now src)) src"
  unfolding refreshed_entry_def fresh_entry_def
  by (rule publish_prediction_observation [THEN same_observation_trans]; simp)+

lemma spec_upsert_get:
  assumes "spec_upsert lm g now src rows = (Inr r, rows')"
  shows "\<exists>b. spec_lookup (ac_icao src) rows' = Inr b \<and> same_observation b src"
proof (cases "find_index (same_key (ac_icao src)) rows")
  case (Some k)
  have k: "k < length rows" "same_key (ac_icao src) (rows ! k)" using find_index_Some [OF Some] by auto
  have r': "rows' = rows[k := refreshed_entry lm g now src (rows ! k)]"
    using assms Some by (auto simp: spec_upsert_def split: if_splits)
  have "find_index (same_key (ac_icao src)) rows' = Some k"
    unfolding r' using k Some by (subst find_index_update) (simp_all add: ac_key_def)
  then show ?thesis using k r' by (simp add: spec_lookup_def)
next
  case None
  have r': "rows' = rows @ [fresh_entry lm g now src]"
    using assms None by (auto simp: spec_upsert_def split: if_splits)
  have "find_index (same_key (ac_icao src)) rows' = Some (length rows)"
    unfolding r' using find_index_append_None [OF None] by (simp add: ac_key_def)
  then show ?thesis by (simp add: spec_lookup_def r')
qed

lemma spec_upsert_other:
  assumes "spec_upsert lm g now src rows = (rc, rows')" "take AIRCRAFT_ICAO_BUF_LEN k \<noteq> ac_key src"
  shows "spec_lookup k rows' = spec_lookup k rows"
proof (cases "find_index (same_key (ac_icao src)) rows")
  case (Some j)
  have j: "j < length rows" "ac_key (de_ac (rows ! j)) = ac_key src"
    using find_index_Some [OF Some] by (auto simp: same_key_iff ac_key_def AIRCRAFT_ICAO_BUF_LEN_def)
  have ne: "\<not> same_key k (rows ! j)" using assms(2) j(2) by (simp add: same_key_iff AIRCRAFT_ICAO_BUF_LEN_def)
  have r': "rows' = rows \<or> rows' = rows[j := refreshed_entry lm g now src (rows ! j)]"
    using assms(1) Some by (auto simp: spec_upsert_def split: if_splits)
  moreover have f: "find_index (same_key k) (rows[j := refreshed_entry lm g now src (rows ! j)]) = find_index (same_key k) rows"
    using ne assms(2) by (intro find_index_update) simp
  moreover have "i \<noteq> j" if "find_index (same_key k) rows = Some i" for i
    using find_index_Some [OF that] ne by auto
  ultimately show ?thesis
    by (cases "find_index (same_key k) rows") (auto simp: spec_lookup_def)
next
  case None
  have r': "rows' = rows \<or> rows' = rows @ [fresh_entry lm g now src]"
    using assms(1) None by (auto simp: spec_upsert_def split: if_splits)
  show ?thesis
  proof (cases "find_index (same_key k) rows")
    case N: None
    then show ?thesis using r' find_index_append_None [OF N] assms(2) by (auto simp: spec_lookup_def)
  next
    case (Some i)
    then have "i < length rows" using find_index_Some by blast
    then show ?thesis using r' find_index_append_Some [OF Some] Some by (auto simp: spec_lookup_def nth_append)
  qed
qed

interpretation db_store: observation_store "aircraft_db_upsert lm g" aircraft_db_lookup db_inv for lm g
proof
  show "db_inv s \<Longrightarrow> db_inv (snd (aircraft_db_upsert lm g c a s))" for s c a by (rule db_inv_upsert)
  show "\<exists>b. aircraft_db_lookup (ac_icao a) s' = Inr b \<and> same_observation b a"
    if "db_inv s" "aircraft_db_upsert lm g c a s = (Inr r, s')" for s c a r s'
    using upsert_refines [OF that] spec_upsert_get lookup_rows by metis
  show "aircraft_db_lookup k (snd (aircraft_db_upsert lm g c a s)) = aircraft_db_lookup k s"
    if "db_inv s" "take AIRCRAFT_ICAO_BUF_LEN k \<noteq> ac_key a" for s k a c
    using upsert_refines [OF that(1)] spec_upsert_other [OF _ that(2)] lookup_rows that(1)
    by (metis prod.collapse)
  show "fst (aircraft_db_upsert lm g c a s) = Inr 0"
    if "db_inv s" "aircraft_db_lookup (ac_icao a) s = Inr b" for s a b c
  proof -
    have "find_index (same_key (ac_icao a)) (db_rows s) \<noteq> None"
      using that lookup_rows by (auto simp: spec_lookup_def split: option.splits)
    then obtain j where j: "find_index (same_key (ac_icao a)) (db_rows s) = Some j" by blast
    have "db_rows s ! j \<in> set (db_rows s)" "same_key (ac_icao a) (db_rows s ! j)"
      using find_index_Some [OF j] by auto
    then have "ac_icao a \<noteq> []"
      using that(1) by (auto simp: db_inv_def rows_ok_def row_keys_def same_key_iff)
    then show ?thesis using upsert_known [OF that(1) _ j] by (metis fst_conv)
  qed
  show "take AIRCRAFT_ICAO_BUF_LEN k = take AIRCRAFT_ICAO_BUF_LEN k' \<Longrightarrow> aircraft_db_lookup k s = aircraft_db_lookup k' s"
    for k k' s by (simp add: aircraft_db_lookup_def find_locked_def strncmp_eq_def)
qed

section \<open>Published predictions\<close>

text \<open>
  From the third filter update on the record carries the position the filter extrapolates 60
  seconds ahead, with its bit set.
\<close>

definition prediction_current :: "aircraft_db_entry \<Rightarrow> bool" where
  "prediction_current e \<longleftrightarrow> (AIRCRAFT_PRED_MIN_UPDATES \<le> update_count (de_kf e) \<longrightarrow>
     ac_has (de_ac e) AIRCRAFT_VALID_PRED
     \<and> (ac_pred_lat (de_ac e), ac_pred_lon (de_ac e)) = kalman_predict_ahead (de_kf e) AIRCRAFT_PRED_HORIZON_S)"

lemma prediction_current_published: "prediction_current (publish_prediction e)"
  by (auto simp: prediction_current_def publish_prediction_def ac_has_bits bit_or_iff split: prod.splits)
     (simp_all add: valid_bits)

lemma prediction_current_upsert:
  assumes "spec_upsert lm g now src rows = (rc, rows')" "list_all prediction_current rows"
  shows "list_all prediction_current rows'"
  using assms prediction_current_published
  by (auto simp: spec_upsert_def refreshed_entry_def fresh_entry_def list_all_iff
      split: if_splits option.splits dest!: set_update_subset_insert [THEN subsetD])

definition db_sound :: "aircraft_db \<Rightarrow> bool" where
  "db_sound db \<longleftrightarrow> db_inv db \<and> list_all prediction_current (db_rows db)"

interpretation db_pred_sys: op_system aircraft_db_init "db_step lm g" "\<lambda>_. True" db_sound for lm g
proof
  show "db_sound aircraft_db_init" using db_inv_init by (simp add: db_sound_def)
  show "db_sound (db_step lm g x s)" if s: "db_sound s" for s x
  proof (cases x)
    case (DbUpsert now a)
    obtain rc s' where u: "aircraft_db_upsert lm g now a s = (rc, s')" by fastforce
    show ?thesis
      using upsert_refines [OF _ u] prediction_current_upsert s by (auto simp: DbUpsert u db_sound_def)
  next
    case (DbReap now)
    then show ?thesis using s reap_result by (auto simp: db_sound_def list_all_iff)
  qed (use db_inv_init clear_result s in \<open>auto simp: db_sound_def\<close>)
qed

text \<open>
  In every reachable state every entry whose filter has seen enough updates is published
  with a prediction, and it is what the filter extrapolates from its current state.
\<close>

lemma db_prediction_current: "list_all prediction_current (db_rows (run (db_step lm g) aircraft_db_init ops))"
proof -
  have "db_sound (run (db_step lm g) aircraft_db_init ops)" by (rule db_pred_sys.inv_run) simp
  then show ?thesis by (simp add: db_sound_def)
qed

end
