(* ===== verification/Geo.thy ===== *)
theory Geo
  imports Aircraft_Db_Correct "HOL-Library.While_Combinator"
begin

text \<open>
  Angles, headings and flat-earth geometry shared by \<open>collision.c\<close> and \<open>missile.c\<close>: the loops
  that wrap an angle, the bearing from one point to another, dead reckoning, and the database
  scan for the first aircraft of the BLE simulator.  The loops are \<open>while\<close> combinators: that
  they end is a theorem (\<open>wrap_180_range\<close>, \<open>wrap_rel_range\<close>), on doubles up to \<open>2 ^ 40\<close> degrees; far beyond that
  subtracting 360 no longer changes a double.
\<close>

definition KT_TO_MPS :: "'a num \<Rightarrow> 'a" where
  [sky_eval]: "KT_TO_MPS nm = n_lit nm 514444 1000000"

definition deg2rad :: "('a::{times,inverse}) num \<Rightarrow> 'a" where
  [sky_eval]: "deg2rad nm = KF_PI nm / n_lit nm 180 1"

definition rad2deg :: "('a::{times,inverse}) num \<Rightarrow> 'a" where
  [sky_eval]: "rad2deg nm = n_lit nm 180 1 / KF_PI nm"

section \<open>Wrapping an angle\<close>

definition above_half :: "('a::ord) num \<Rightarrow> 'a \<Rightarrow> bool" where
  [sky_eval]: "above_half nm a \<longleftrightarrow> n_lit nm 180 1 < a"

definition turn_down :: "('a::minus) num \<Rightarrow> 'a \<Rightarrow> 'a" where
  [sky_eval]: "turn_down nm a = a - n_lit nm 360 1"

definition turn_up :: "('a::plus) num \<Rightarrow> 'a \<Rightarrow> 'a" where
  [sky_eval]: "turn_up nm a = a + n_lit nm 360 1"

text \<open>\<open>wrap_180\<close> of \<open>missile.c\<close>, and the two loops of \<open>pick_diversion\<close>, whose second test is strict.\<close>

definition wrap_180 :: "('a::{plus,minus,ord}) num \<Rightarrow> 'a \<Rightarrow> 'a" where
  [sky_eval]: "wrap_180 nm a =
     while (\<lambda>a. a \<le> n_lit nm (- 180) 1) (turn_up nm) (while (above_half nm) (turn_down nm) a)"

definition wrap_rel :: "('a::{plus,minus,ord}) num \<Rightarrow> 'a \<Rightarrow> 'a" where
  [sky_eval]: "wrap_rel nm a =
     while (\<lambda>a. a < n_lit nm (- 180) 1) (turn_up nm) (while (above_half nm) (turn_down nm) a)"

definition f64_deg :: "f64 \<Rightarrow> real \<Rightarrow> real \<Rightarrow> bool" where
  "f64_deg x lo hi \<longleftrightarrow> isfinite x \<and> fp_ok x \<and> lo \<le> fp_val x \<and> fp_val x \<le> hi"

lemma f64_degD: "f64_deg x lo hi \<Longrightarrow> isfinite x" "f64_deg x lo hi \<Longrightarrow> fp_ok x"
  "f64_deg x lo hi \<Longrightarrow> lo \<le> fp_val x" "f64_deg x lo hi \<Longrightarrow> fp_val x \<le> hi"
  by (simp_all add: f64_deg_def)

lemma f64_deg_int: "\<bar>n\<bar> < 2 ^ 53 \<Longrightarrow> f64_deg (fp_lit n 1) (of_int n) (of_int n)"
  by (simp add: f64_deg_def fp_lit_int)

lemma f64_deg_less_lit: "f64_deg x lo hi \<Longrightarrow> \<bar>n\<bar> < 2 ^ 53 \<Longrightarrow>
  (x < fp_lit n 1 \<longleftrightarrow> fp_val x < of_int n) \<and> (fp_lit n 1 < x \<longleftrightarrow> of_int n < fp_val x)
  \<and> (x \<le> fp_lit n 1 \<longleftrightarrow> fp_val x \<le> of_int n)"
  by (simp add: f64_deg_def fp_lit_int fp_less_val fp_le_val)

lemma rounds_to_int_range:
  assumes "rounds_to (r :: f64) v" "of_int lo \<le> v" "v \<le> of_int hi" "\<bar>lo\<bar> < 2 ^ 53" "\<bar>hi\<bar> < 2 ^ 53"
  shows "f64_deg r (of_int lo) (of_int hi)"
proof -
  have big: "of_int n < fp_max TYPE(f64)" if "\<bar>n\<bar> < 2 ^ 53" for n :: int
  proof -
    have "real_of_int n < 2 ^ 53" using that by (metis abs_less_iff of_int_less_iff of_int_numeral of_int_power)
    then show ?thesis using fp_max_f64 by (simp add: order_less_le_trans)
  qed
  show ?thesis
    using rounds_to_range [OF assms(1-3)] representable_int [OF assms(4) [folded nat_numeral], of "- 1074"]
      representable_int [of lo 53 "- 1074"] representable_int [of hi 53 "- 1074"] assms(4,5) big [of "- lo"] big [of hi]
    by (simp add: f64_deg_def)
qed

lemma down_loop:
  assumes "f64_deg x lo (360 * real k + 180)" "- 180 \<le> lo" "k < 2 ^ 40"
  shows "\<exists>y. while_option (above_half (f64_num lm)) (turn_down (f64_num lm)) x = Some y
    \<and> f64_deg y (- 180) 180 \<and> (fp_val x \<le> 180 \<longrightarrow> y = x)"
  using assms
proof (induction k arbitrary: x lo)
  case 0
  then have "fp_val x \<le> 180" by (auto dest: f64_degD(4))
  then have "\<not> above_half (f64_num lm) x" using 0(1) by (simp add: above_half_def f64_deg_less_lit)
  moreover have "f64_deg x (- 180) 180" using 0 by (auto simp: f64_deg_def)
  ultimately show ?case by (simp add: while_option_unfold [of _ _ x])
next
  case (Suc k)
  show ?case
  proof (cases "fp_val x \<le> 180")
    case True
    then have "\<not> above_half (f64_num lm) x" using Suc.prems(1) by (simp add: above_half_def f64_deg_less_lit)
    moreover have "f64_deg x (- 180) 180" using Suc.prems True by (auto simp: f64_deg_def)
    ultimately show ?thesis by (simp add: while_option_unfold [of _ _ x])
  next
    case False
    let ?y = "x - fp_lit 360 1 :: f64"
    have up: "above_half (f64_num lm) x" using False Suc.prems(1) by (simp add: above_half_def f64_deg_less_lit)
    have "rounds_to ?y (fp_val x - fp_val (fp_lit 360 1 :: f64))"
      using Suc.prems(1) f64_deg_int [of 360] by (intro diff_rounds_to) (auto simp: f64_deg_def)
    then have "rounds_to ?y (fp_val x - 360)" by (simp add: fp_lit_int)
    then have "f64_deg ?y (of_int (- 180)) (of_int (360 * int k + 180))"
      using False Suc.prems by (rule_tac rounds_to_int_range [where v = "fp_val x - 360"]) (auto simp: f64_deg_def)
    then have "f64_deg ?y (- 180) (360 * real k + 180)" by simp
    then obtain y where "while_option (above_half (f64_num lm)) (turn_down (f64_num lm)) ?y = Some y"
        "f64_deg y (- 180) 180"
      using Suc.IH [of ?y "- 180"] Suc.prems(3) by auto
    moreover have "turn_down (f64_num lm) x = ?y" by (simp add: turn_down_def)
    ultimately show ?thesis using up False by (simp add: while_option_unfold [of _ _ x])
  qed
qed

lemma up_loop:
  assumes low: "\<And>z lo hi. f64_deg z lo hi \<Longrightarrow> P z \<Longrightarrow> fp_val z \<le> - 180"
    and high: "\<And>z lo hi. f64_deg z lo hi \<Longrightarrow> - 179 \<le> fp_val z \<Longrightarrow> \<not> P z"
    and x: "f64_deg x (- 360 * real k - 179) 180" "k < 2 ^ 40"
  shows "\<exists>y. while_option P (turn_up (f64_num lm)) x = Some y \<and> \<not> P y
    \<and> isfinite y \<and> fp_ok y \<and> fp_val y \<le> 180 \<and> (\<not> P x \<longrightarrow> y = x)"
  using x
proof (induction k arbitrary: x)
  case 0
  then have "\<not> P x" using high by (auto dest: f64_degD(3))
  then show ?case using 0 by (auto simp: while_option_unfold [of _ _ x] dest: f64_degD)
next
  case (Suc k)
  show ?case
  proof (cases "P x")
    case False
    then show ?thesis using Suc.prems by (auto simp: while_option_unfold [of _ _ x] dest: f64_degD)
  next
    case True
    let ?y = "x + fp_lit 360 1 :: f64"
    have "rounds_to ?y (fp_val x + fp_val (fp_lit 360 1 :: f64))"
      using Suc.prems(1) f64_deg_int [of 360] by (intro add_rounds_to) (auto simp: f64_deg_def)
    then have "rounds_to ?y (fp_val x + 360)" by (simp add: fp_lit_int)
    then have "f64_deg ?y (of_int (- 360 * int k - 179)) (of_int 180)"
      using low [OF Suc.prems(1) True] Suc.prems
      by (rule_tac rounds_to_int_range [where v = "fp_val x + 360"]) (auto simp: f64_deg_def)
    then have "f64_deg ?y (- 360 * real k - 179) 180" by simp
    then obtain y where "while_option P (turn_up (f64_num lm)) ?y = Some y" "\<not> P y"
        "isfinite y \<and> fp_ok y \<and> fp_val y \<le> 180"
      using Suc.IH [of ?y] Suc.prems(2) by auto
    moreover have "turn_up (f64_num lm) x = ?y" by (simp add: turn_up_def)
    ultimately show ?thesis using True by (simp add: while_option_unfold [of _ _ x])
  qed
qed

lemma turns_bound:
  assumes "\<bar>v\<bar> \<le> 2 ^ 40" obtains k where "v \<le> 360 * real k + 180" "- 360 * real k - 179 \<le> v" "k < 2 ^ 40"
proof
  show "v \<le> 360 * real (2 ^ 33) + 180" "- 360 * real (2 ^ 33) - 179 \<le> v" "(2::nat) ^ 33 < 2 ^ 40"
    using assms by (simp_all add: abs_le_iff)
qed

text \<open>Both loops of each wrapper end, in the range the code relies on.\<close>

definition wrap_180_returns :: "libm \<Rightarrow> f64 \<Rightarrow> bool" where
  "wrap_180_returns lm a \<longleftrightarrow> (\<exists>y. while_option (above_half (f64_num lm)) (turn_down (f64_num lm)) a = Some y
     \<and> while_option (\<lambda>a. a \<le> n_lit (f64_num lm) (- 180) 1) (turn_up (f64_num lm)) y \<noteq> None)"

definition wrap_rel_returns :: "libm \<Rightarrow> f64 \<Rightarrow> bool" where
  "wrap_rel_returns lm a \<longleftrightarrow> (\<exists>y. while_option (above_half (f64_num lm)) (turn_down (f64_num lm)) a = Some y
     \<and> while_option (\<lambda>a. a < n_lit (f64_num lm) (- 180) 1) (turn_up (f64_num lm)) y \<noteq> None)"

lemma both_loops:
  assumes low: "\<And>z lo hi. f64_deg z lo hi \<Longrightarrow> P z \<Longrightarrow> fp_val z \<le> - 180"
    and high: "\<And>z lo hi. f64_deg z lo hi \<Longrightarrow> - 179 \<le> fp_val z \<Longrightarrow> \<not> P z"
    and a: "isfinite a" "fp_ok a" "\<bar>fp_val a\<bar> \<le> 2 ^ 40"
  obtains y z where "while_option (above_half (f64_num lm)) (turn_down (f64_num lm)) a = Some y"
    "while_option P (turn_up (f64_num lm)) y = Some z" "\<not> P z" "isfinite z" "fp_ok z" "fp_val z \<le> 180"
proof -
  obtain k where k: "fp_val a \<le> 360 * real k + 180" "- 360 * real k - 179 \<le> fp_val a" "k < 2 ^ 40"
    using turns_bound [OF a(3)] by blast
  have "\<exists>y. while_option (above_half (f64_num lm)) (turn_down (f64_num lm)) a = Some y
      \<and> f64_deg y (- 360 * real k - 179) 180"
  proof (cases "fp_val a \<le> 180")
    case True
    then have d: "f64_deg a (- 360 * real k - 179) 180" using a k by (simp add: f64_deg_def)
    then have "\<not> above_half (f64_num lm) a" using True by (simp add: above_half_def f64_deg_less_lit)
    then show ?thesis using d by (simp add: while_option_unfold [of _ _ a])
  next
    case False
    then have "f64_deg a (- 180) (360 * real k + 180)" using a k by (simp add: f64_deg_def)
    then obtain y where y: "while_option (above_half (f64_num lm)) (turn_down (f64_num lm)) a = Some y"
        "f64_deg y (- 180) 180"
      using down_loop [of a "- 180" k lm] k(3) by auto
    have "1 \<le> k" using False k(1) by (cases k) simp_all
    then have "- 360 * real k - 179 \<le> - 180" by simp
    then have "f64_deg y (- 360 * real k - 179) 180" using y(2) unfolding f64_deg_def by linarith
    then show ?thesis using y(1) by blast
  qed
  then obtain y where y: "while_option (above_half (f64_num lm)) (turn_down (f64_num lm)) a = Some y"
      "f64_deg y (- 360 * real k - 179) 180" by blast
  have "\<exists>z. while_option P (turn_up (f64_num lm)) y = Some z \<and> \<not> P z
      \<and> isfinite z \<and> fp_ok z \<and> fp_val z \<le> 180 \<and> (\<not> P y \<longrightarrow> z = y)"
    by (rule up_loop [OF _ _ y(2) k(3)]) (fact low, fact high)
  then show thesis using y(1) that by blast
qed

lemma le_m180: "f64_deg z lo hi \<Longrightarrow> z \<le> fp_lit (- 180) 1 \<longleftrightarrow> fp_val z \<le> - 180"
  and lt_m180: "f64_deg z lo hi \<Longrightarrow> z < fp_lit (- 180) 1 \<longleftrightarrow> fp_val z < - 180"
  using f64_deg_less_lit [of z lo hi "- 180"] by simp_all

lemma wrap_180_range:
  assumes "isfinite a" "fp_ok a" "\<bar>fp_val a\<bar> \<le> 2 ^ 40"
  shows "wrap_180_returns lm a" "isfinite (wrap_180 (f64_num lm) a)" "fp_ok (wrap_180 (f64_num lm) a)"
    "- 180 < fp_val (wrap_180 (f64_num lm) a)" "fp_val (wrap_180 (f64_num lm) a) \<le> 180"
proof -
  obtain y z where yz: "while_option (above_half (f64_num lm)) (turn_down (f64_num lm)) a = Some y"
      "while_option (\<lambda>a. a \<le> n_lit (f64_num lm) (- 180) 1) (turn_up (f64_num lm)) y = Some z"
      "\<not> z \<le> n_lit (f64_num lm) (- 180) 1" "isfinite z" "fp_ok z" "fp_val z \<le> 180"
    by (rule both_loops [OF _ _ assms, of "\<lambda>a. a \<le> n_lit (f64_num lm) (- 180) 1" lm]) (auto simp: le_m180)
  have w: "wrap_180 (f64_num lm) a = z"
    unfolding wrap_180_def while_def yz(1) option.sel yz(2) ..
  have "f64_deg z (fp_val z) 180" using yz(4-6) by (simp add: f64_deg_def)
  then show "- 180 < fp_val (wrap_180 (f64_num lm) a)" using yz(3) by (simp add: w le_m180)
  show "wrap_180_returns lm a" using yz by (auto simp: wrap_180_returns_def)
  show "isfinite (wrap_180 (f64_num lm) a)" "fp_ok (wrap_180 (f64_num lm) a)"
    "fp_val (wrap_180 (f64_num lm) a) \<le> 180" using yz by (simp_all add: w)
qed

lemma wrap_rel_range:
  assumes "isfinite a" "fp_ok a" "\<bar>fp_val a\<bar> \<le> 2 ^ 40"
  shows "wrap_rel_returns lm a" "f64_deg (wrap_rel (f64_num lm) a) (- 180) 180"
proof -
  obtain y z where yz: "while_option (above_half (f64_num lm)) (turn_down (f64_num lm)) a = Some y"
      "while_option (\<lambda>a. a < n_lit (f64_num lm) (- 180) 1) (turn_up (f64_num lm)) y = Some z"
      "\<not> z < n_lit (f64_num lm) (- 180) 1" "isfinite z" "fp_ok z" "fp_val z \<le> 180"
    by (rule both_loops [OF _ _ assms, of "\<lambda>a. a < n_lit (f64_num lm) (- 180) 1" lm]) (auto simp: lt_m180)
  have w: "wrap_rel (f64_num lm) a = z"
    unfolding wrap_rel_def while_def yz(1) option.sel yz(2) ..
  have "f64_deg z (fp_val z) 180" using yz(4-6) by (simp add: f64_deg_def)
  then show "f64_deg (wrap_rel (f64_num lm) a) (- 180) 180" using yz lt_m180 [OF \<open>f64_deg z (fp_val z) 180\<close>]
    by (simp add: w f64_deg_def)
  show "wrap_rel_returns lm a" using yz by (auto simp: wrap_rel_returns_def)
qed

section \<open>The mathematics library\<close>

text \<open>
  What the code relies on of \<open>cos\<close>, \<open>sin\<close> and \<open>atan2\<close>: the documented ranges.  A result
  is NaN or in the range, whatever the arguments; \<open>pi\<close> is the double next to it.
\<close>

definition M_PI :: real where
  "M_PI = 7074237752028440 / 2 ^ 51"

definition f64_in :: "f64 \<Rightarrow> real \<Rightarrow> real \<Rightarrow> bool" where
  "f64_in x lo hi \<longleftrightarrow> x = FNaN \<or> f64_deg x lo hi"

definition libm_ok :: "libm \<Rightarrow> bool" where
  "libm_ok lm \<longleftrightarrow> (\<forall>x. f64_in (m_cos lm x) (- 1) 1) \<and> (\<forall>x. f64_in (m_sin lm x) (- 1) 1)
     \<and> (\<forall>y x. f64_in (m_atan2 lm y x) (- M_PI) M_PI)"

text \<open>A library with these ranges, for the evaluation of examples.\<close>

definition libm_flat :: libm where
  [sky_eval]: "libm_flat = \<lparr>m_cos = (\<lambda>_. fp_lit 1 1), m_sin = (\<lambda>_. fp_lit 1 1),
     m_atan2 = (\<lambda>y x. if x < fp_lit 0 1 then fp_lit 2 1 else fp_lit 0 1)\<rparr>"

lemma libm_flat_ok: "libm_ok libm_flat"
proof -
  have "f64_deg (fp_lit 2 1) (- M_PI) M_PI" "f64_deg (fp_lit 0 1) (- M_PI) M_PI"
    using f64_deg_int [of 2] f64_deg_int [of 0] by (simp_all add: f64_deg_def M_PI_def)
  moreover have "f64_deg (fp_lit 0 1) (- 1) 1" "f64_deg (fp_lit 1 1) (- 1) 1"
    using f64_deg_int [of 0] f64_deg_int [of 1] by (simp_all add: f64_deg_def)
  ultimately show ?thesis by (simp add: libm_ok_def libm_flat_def f64_in_def)
qed

section \<open>Bearing, time steps, target search\<close>

text \<open>\<open>bearing nm lat0 lon0 lat1 lon1\<close>: the direction from the first point to the second.\<close>

definition to_compass :: "('a::{zero,plus,times,inverse,ord}) num \<Rightarrow> 'a \<Rightarrow> 'a" where
  [sky_eval]: "to_compass nm a = (let b = a * rad2deg nm in if b < 0 then b + n_lit nm 360 1 else b)"

definition bearing :: "('a::{zero,plus,minus,times,inverse,ord}) num \<Rightarrow> 'a \<Rightarrow> 'a \<Rightarrow> 'a \<Rightarrow> 'a \<Rightarrow> 'a" where
  [sky_eval]: "bearing nm lat0 lon0 lat1 lon1 =
     (let dn = (lat1 - lat0) / DEG_PER_M_LAT nm; de = (lon1 - lon0) / deg_per_m_lon_at nm lat0
      in to_compass nm (n_atan2 nm de dn))"

lemma rad2deg_f64: "rad2deg (f64_num lm) = Fin False 8063664102031864 (- 47)"
proof -
  have "rad2deg (f64_num libm_flat) = Fin False 8063664102031864 (- 47)" by code_simp
  then show ?thesis by (simp add: rad2deg_def KF_PI_def)
qed

lemma nan_ops [simp]:
  "FNaN + x = FNaN" "x + FNaN = FNaN" "FNaN - x = FNaN" "x - FNaN = FNaN"
  "FNaN * x = FNaN" "x * FNaN = FNaN" "fp_fmod FNaN x = FNaN" "fp_neg FNaN = FNaN"
  for x :: "('e::len, 'f::len) fp"
  by (cases x; simp add: fp_class_defs)+

lemma f64_in_add:
  assumes "f64_in x (of_int a) (of_int b)" "f64_in y (of_int c) (of_int d)"
    "\<bar>a + c\<bar> < 2 ^ 53" "\<bar>b + d\<bar> < 2 ^ 53"
  shows "f64_in (x + y) (of_int (a + c)) (of_int (b + d))"
proof (cases "x = FNaN \<or> y = FNaN")
  case False
  then have x: "f64_deg x (of_int a) (of_int b)" and y: "f64_deg y (of_int c) (of_int d)"
    using assms by (auto simp: f64_in_def)
  have "rounds_to (x + y) (fp_val x + fp_val y)" using x y by (intro add_rounds_to) (auto dest: f64_degD)
  then have "f64_deg (x + y) (of_int (a + c)) (of_int (b + d))"
    using x y assms(3,4) by (rule_tac rounds_to_int_range) (auto simp: f64_deg_def)
  then show ?thesis by (simp add: f64_in_def)
qed (auto simp: f64_in_def)

lemma f64_in_neg: "f64_in x a b \<Longrightarrow> f64_in (- x) (- b) (- a)"
  by (auto simp: f64_in_def f64_deg_def uminus_fp_def) (simp_all flip: uminus_fp_def)

lemma to_compass_in:
  assumes "f64_in a (- M_PI) M_PI" shows "f64_in (to_compass (f64_num lm) a) 0 360"
proof (cases "a = FNaN")
  case False
  then have a: "f64_deg a (- M_PI) M_PI" using assms by (simp add: f64_in_def)
  let ?r = "rad2deg (f64_num lm)" and ?b = "a * rad2deg (f64_num lm)"
  have r: "isfinite ?r" "fp_ok ?r" "fp_val ?r = 8063664102031864 / 2 ^ 47"
    by (simp_all add: rad2deg_f64 sgn_int_def power_int_minus_divide)
  have rt: "rounds_to ?b (fp_val a * fp_val ?r)" using a r by (intro mult_rounds_to) (auto dest: f64_degD)
  have "\<bar>fp_val a\<bar> \<le> M_PI" using f64_degD(3,4) [OF a] by (simp add: abs_le_iff)
  then have "\<bar>fp_val a\<bar> * fp_val ?r \<le> M_PI * fp_val ?r" using r(3) by (intro mult_right_mono) simp_all
  also have "M_PI * fp_val ?r \<le> 180" unfolding r(3) M_PI_def by simp
  finally have le: "\<bar>fp_val a\<bar> * fp_val ?r \<le> 180" .
  have nn: "0 \<le> fp_val ?r" by (simp add: r(3))
  have "\<bar>fp_val a * fp_val ?r\<bar> \<le> 180" unfolding abs_mult abs_of_nonneg [OF nn] by (rule le)
  then have b: "f64_deg ?b (of_int (- 180)) (of_int 180)"
    using rt by (intro rounds_to_int_range) (auto simp: abs_le_iff)
  show ?thesis
  proof (cases "?b < 0")
    case True
    have "fp_val ?b < 0" using True b f64_deg_less_lit [OF b, of 0] by (simp add: zero_fp_def fp_lit_def fp_round_def)
    then have "f64_in ?b (of_int (- 180)) (of_int 0)" using b by (simp add: f64_in_def f64_deg_def)
    moreover have "f64_in (fp_lit 360 1) (of_int 360) (of_int 360)" using f64_deg_int [of 360] by (simp add: f64_in_def)
    ultimately have "f64_in (?b + fp_lit 360 1) (of_int (- 180 + 360)) (of_int (0 + 360))"
      by (intro f64_in_add) simp_all
    then show ?thesis using True by (auto simp: to_compass_def Let_def f64_in_def f64_deg_def)
  next
    case False
    then have "0 \<le> fp_val ?b" using b f64_deg_less_lit [OF b, of 0] by (simp add: zero_fp_def fp_lit_def fp_round_def)
    then show ?thesis using False b by (auto simp: to_compass_def Let_def f64_in_def f64_deg_def)
  qed
qed (simp add: to_compass_def f64_in_def)

lemma bearing_in: "libm_ok lm \<Longrightarrow> f64_in (bearing (f64_num lm) a b c d) 0 360"
  unfolding bearing_def Let_def by (rule to_compass_in) (simp add: libm_ok_def)

text \<open>Seconds since the last step, one tick when the clock reading is implausible.\<close>

definition step_dt :: "ms \<Rightarrow> ms \<Rightarrow> ms \<Rightarrow> f64" where
  [sky_eval]: "step_dt tick now prev = (let dt = fp_of_int (now - prev) / fp_lit 1000 1
     in if dt < 0 \<or> fp_lit 30 1 < dt then fp_of_int tick / fp_lit 1000 1 else dt)"

text \<open>\<open>find_ble_sim_cb\<close> and the scan with it.\<close>

definition find_ble_sim_cb :: "aircraft_db_entry \<Rightarrow> aircraft_t option \<Rightarrow> bool \<times> aircraft_t option" where
  [sky_eval]: "find_ble_sim_cb e c = (if ac_source (de_ac e) = SRC_BLE_SIM then (False, Some (de_ac e)) else (True, c))"

definition find_ble_sim :: "aircraft_db \<Rightarrow> aircraft_t option" where
  [sky_eval]: "find_ble_sim db = aircraft_db_for_each find_ble_sim_cb db None"

lemma find_ble_sim_rows:
  "find_ble_sim db = map_option de_ac (List.find (\<lambda>e. ac_source (de_ac e) = SRC_BLE_SIM) (db_rows db))"
proof -
  have "walk find_ble_sim_cb rows None = map_option de_ac (List.find (\<lambda>e. ac_source (de_ac e) = SRC_BLE_SIM) rows)" for rows
    by (induction rows) (simp_all add: find_ble_sim_cb_def)
  then show ?thesis by (simp add: find_ble_sim_def for_each_rows)
qed

end
