(* ===== verification/Collision_Geometry.thy ===== *)
theory Collision_Geometry
  imports Geo
begin

text \<open>
  The pairwise mathematics of \<open>collision.c\<close>: the snapshot rows, velocity, the closest approach
  of two aircraft, the classification with its vertical gate and CRASH upgrade, and the
  diversion picker.  Rows and approaches are over any number type: on doubles they are the
  program, on reals the theorems say what the formulas mean.
\<close>

section \<open>Levels, diversions, thresholds\<close>

datatype collision_level = COLLISION_CLEAR | COLLISION_ADVISORY | COLLISION_WARNING | COLLISION_CRASH

datatype collision_diversion = DIVERSION_LEFT | DIVERSION_RIGHT | DIVERSION_CLIMB | DIVERSION_DESCEND
  | DIVERSION_RTB | DIVERSION_HOLD

fun collision_level_str :: "collision_level \<Rightarrow> string" where
  "collision_level_str COLLISION_CRASH = ''CRASH''"
| "collision_level_str COLLISION_WARNING = ''WARNING''"
| "collision_level_str COLLISION_ADVISORY = ''ADVISORY''"
| "collision_level_str COLLISION_CLEAR = ''CLEAR''"

fun collision_diversion_str :: "collision_diversion \<Rightarrow> string" where
  "collision_diversion_str DIVERSION_LEFT = ''LEFT''"
| "collision_diversion_str DIVERSION_RIGHT = ''RIGHT''"
| "collision_diversion_str DIVERSION_CLIMB = ''CLIMB''"
| "collision_diversion_str DIVERSION_DESCEND = ''DESCEND''"
| "collision_diversion_str DIVERSION_RTB = ''RTB''"
| "collision_diversion_str DIVERSION_HOLD = ''HOLD''"

definition COLLISION_WARNING_SEP_M :: "'a num \<Rightarrow> 'a" where "COLLISION_WARNING_SEP_M nm = n_lit nm 500 1"
definition COLLISION_WARNING_TCA_S :: "'a num \<Rightarrow> 'a" where "COLLISION_WARNING_TCA_S nm = n_lit nm 30 1"
definition COLLISION_ADVISORY_SEP_M :: "'a num \<Rightarrow> 'a" where "COLLISION_ADVISORY_SEP_M nm = n_lit nm 1000 1"
definition COLLISION_ADVISORY_TCA_S :: "'a num \<Rightarrow> 'a" where "COLLISION_ADVISORY_TCA_S nm = n_lit nm 60 1"
definition COLLISION_CRASH_SEP_M :: "'a num \<Rightarrow> 'a" where "COLLISION_CRASH_SEP_M nm = n_lit nm 100 1"
definition COLLISION_CRASH_VERT_FT :: s32 where "COLLISION_CRASH_VERT_FT = 328"
definition COLLISION_VERTICAL_SEP_FT :: s32 where "COLLISION_VERTICAL_SEP_FT = 1000"

lemmas thresholds [sky_eval] = COLLISION_WARNING_SEP_M_def COLLISION_WARNING_TCA_S_def
  COLLISION_ADVISORY_SEP_M_def COLLISION_ADVISORY_TCA_S_def COLLISION_CRASH_SEP_M_def
  COLLISION_CRASH_VERT_FT_def COLLISION_VERTICAL_SEP_FT_def

section \<open>Snapshot\<close>

record 'a snap_row =
  sr_icao :: string
  sr_lat :: 'a
  sr_lon :: 'a
  sr_v_north_mps :: 'a
  sr_v_east_mps :: 'a
  sr_alt_ft :: s32
  sr_v_valid :: bool
  sr_alt_valid :: bool

text \<open>The result, and the values left in \<open>*v_north\<close> and \<open>*v_east\<close>.\<close>

definition derive_velocity_mps :: "libm \<Rightarrow> aircraft_db_entry \<Rightarrow> bool \<times> f64 \<times> f64" where
  "derive_velocity_mps lm e = (let nm = f64_num lm in
     if ac_has (de_ac e) AIRCRAFT_VALID_VEL \<and> ac_has (de_ac e) AIRCRAFT_VALID_HDG
     then let speed_mps = ac_vel_kt (de_ac e) * KT_TO_MPS nm;
              hdg = ac_hdg_deg (de_ac e) * deg2rad nm
          in (True, speed_mps * m_cos lm hdg, speed_mps * m_sin lm hdg)
     else if initialised (de_kf e) \<and> 2 \<le> update_count (de_kf e)
     then (True, kf_x (de_kf e) ! 2 / DEG_PER_M_LAT nm, kf_x (de_kf e) ! 3 / deg_per_m_lon_at nm (ac_lat (de_ac e)))
     else (False, 0, 0))"

definition snap_cb :: "libm \<Rightarrow> aircraft_db_entry \<Rightarrow> f64 snap_row list \<Rightarrow> bool \<times> f64 snap_row list" where
  "snap_cb lm e rows =
     (if AIRCRAFT_DB_MAX_ENTRIES \<le> length rows then (False, rows)
      else let (vv, vn, ve) = derive_velocity_mps lm e; av = ac_has (de_ac e) AIRCRAFT_VALID_ALT
           in (True, rows @ [\<lparr>sr_icao = ac_icao (de_ac e), sr_lat = ac_lat (de_ac e), sr_lon = ac_lon (de_ac e),
                sr_v_north_mps = vn, sr_v_east_mps = ve, sr_alt_ft = (if av then ac_alt_ft (de_ac e) else 0),
                sr_v_valid = vv, sr_alt_valid = av\<rparr>]))"

definition snapshot :: "libm \<Rightarrow> aircraft_db \<Rightarrow> f64 snap_row list" where
  "snapshot lm db = aircraft_db_for_each (snap_cb lm) db []"

section \<open>Closest approach\<close>

record 'a approach =
  ap_tca_s :: 'a
  ap_min_sep_m :: 'a
  ap_cur_sep_m :: 'a
  ap_diverging :: bool
  ap_alt_diff_ft :: s32
  ap_alt_valid :: bool

text \<open>Relative position in metres (east, north) and relative velocity, of the second aircraft.\<close>

definition rel_pos :: "('a::{plus,minus,times,inverse}) num \<Rightarrow> 'a snap_row \<Rightarrow> 'a snap_row \<Rightarrow> 'a \<times> 'a" where
  "rel_pos nm a b =
     (let lat_mid = n_lit nm 5 10 * (sr_lat a + sr_lat b)
      in ((sr_lon b - sr_lon a) / deg_per_m_lon_at nm lat_mid, (sr_lat b - sr_lat a) / DEG_PER_M_LAT nm))"

definition rel_vel :: "('a::minus) snap_row \<Rightarrow> 'a snap_row \<Rightarrow> 'a \<times> 'a" where
  "rel_vel a b = (sr_v_east_mps b - sr_v_east_mps a, sr_v_north_mps b - sr_v_north_mps a)"

definition closest_approach ::
  "('a::{zero,plus,minus,uminus,times,inverse,ord}) num \<Rightarrow> 'a snap_row \<Rightarrow> 'a snap_row \<Rightarrow> 'a approach" where
  "closest_approach nm a b =
     (let (drx, dry) = rel_pos nm a b; (dvx, dvy) = rel_vel a b;
          dv_mag2 = dvx * dvx + dvy * dvy;
          cur_sep = n_sqrt nm (drx * drx + dry * dry);
          r = \<lparr>ap_tca_s = n_inf nm, ap_min_sep_m = cur_sep, ap_cur_sep_m = cur_sep, ap_diverging = False,
               ap_alt_diff_ft = (if sr_alt_valid a \<and> sr_alt_valid b then abs_diff32 (sr_alt_ft a) (sr_alt_ft b) else 0),
               ap_alt_valid = (sr_alt_valid a \<and> sr_alt_valid b)\<rparr>
      in if c_eq dv_mag2 0 then r
         else let t = - (drx * dvx + dry * dvy) / dv_mag2
              in if t \<le> 0 then r\<lparr>ap_tca_s := 0, ap_diverging := True\<rparr>
                 else let rx = drx + dvx * t; ry = dry + dvy * t
                      in r\<lparr>ap_tca_s := t, ap_min_sep_m := n_sqrt nm (rx * rx + ry * ry)\<rparr>)"

section \<open>Classification\<close>

definition classify :: "('a::ord) num \<Rightarrow> 'a approach \<Rightarrow> collision_level" where
  "classify nm a =
     (if ap_diverging a \<or> \<not> n_isfinite nm (ap_tca_s a) then COLLISION_CLEAR
      else if ap_min_sep_m a < COLLISION_WARNING_SEP_M nm \<and> ap_tca_s a < COLLISION_WARNING_TCA_S nm
      then COLLISION_WARNING
      else if ap_min_sep_m a < COLLISION_ADVISORY_SEP_M nm \<and> ap_tca_s a < COLLISION_ADVISORY_TCA_S nm
      then COLLISION_ADVISORY
      else COLLISION_CLEAR)"

text \<open>The vertical gate and the CRASH upgrade, in the order of \<open>work_handler\<close>.\<close>

definition vertical_gate :: "'a snap_row \<Rightarrow> 'a snap_row \<Rightarrow> collision_level \<Rightarrow> collision_level" where
  "vertical_gate a b lvl =
     (if lvl \<noteq> COLLISION_CLEAR \<and> sr_alt_valid a \<and> sr_alt_valid b
         \<and> COLLISION_VERTICAL_SEP_FT <s abs_diff32 (sr_alt_ft a) (sr_alt_ft b)
      then COLLISION_CLEAR else lvl)"

definition crash_upgrade ::
  "('a::{plus,minus,times,inverse,abs,ord}) num \<Rightarrow> 'a snap_row \<Rightarrow> 'a snap_row \<Rightarrow> 'a approach
     \<Rightarrow> collision_level \<Rightarrow> collision_level" where
  "crash_upgrade nm a b app lvl =
     (if lvl \<noteq> COLLISION_WARNING then lvl
      else let dn_m = (sr_lat b - sr_lat a) / DEG_PER_M_LAT nm;
               de_m = (sr_lon b - sr_lon a) / deg_per_m_lon_at nm (sr_lat a);
               current_horiz_m = n_sqrt nm (dn_m * dn_m + de_m * de_m);
               have_vert = (sr_alt_valid a \<and> sr_alt_valid b);
               current_vert_ft = (if have_vert then abs_diff32 (sr_alt_ft a) (sr_alt_ft b) else 0);
               vert_ok = (\<not> have_vert \<or> current_vert_ft <s COLLISION_CRASH_VERT_FT);
               current_hit = (current_horiz_m < COLLISION_CRASH_SEP_M nm);
               imminent_hit = (ap_min_sep_m app < COLLISION_CRASH_SEP_M nm \<and> \<bar>ap_tca_s app\<bar> < n_lit nm 5 10
                  \<and> \<not> ap_diverging app \<and> current_horiz_m < n_lit nm 300 1)
           in if (current_hit \<or> imminent_hit) \<and> vert_ok then COLLISION_CRASH else lvl)"

definition pair_level ::
  "('a::{zero,plus,minus,uminus,times,inverse,abs,ord}) num \<Rightarrow> 'a snap_row \<Rightarrow> 'a snap_row \<Rightarrow> collision_level" where
  "pair_level nm a b =
     (let app = closest_approach nm a b
      in crash_upgrade nm a b app (vertical_gate a b (classify nm app)))"

section \<open>Diversion\<close>

text \<open>The head-on test, the side and the vertical preference of \<open>pick_diversion\<close>.\<close>

definition rel_bearing :: "('a::{zero,plus,minus,times,inverse,ord}) num \<Rightarrow> 'a snap_row \<Rightarrow> 'a snap_row \<Rightarrow> 'a" where
  "rel_bearing nm sim thr =
     (let b = bearing nm (sr_lat sim) (sr_lon sim) (sr_lat thr) (sr_lon thr);
          sim_hdg = to_compass nm (n_atan2 nm (sr_v_east_mps sim) (sr_v_north_mps sim))
      in wrap_rel nm (b - sim_hdg))"

definition pick_by_bearing :: "('a::{zero,abs,ord}) num \<Rightarrow> 'a \<Rightarrow> collision_diversion" where
  "pick_by_bearing nm rel =
     (if n_lit nm 160 1 < \<bar>rel\<bar> then DIVERSION_CLIMB
      else if 0 < rel then DIVERSION_LEFT
      else if rel < 0 then DIVERSION_RIGHT
      else DIVERSION_CLIMB)"

definition pick_diversion ::
  "('a::{zero,plus,minus,times,inverse,abs,ord}) num \<Rightarrow> 'a snap_row \<Rightarrow> 'a snap_row \<Rightarrow> collision_diversion" where
  "pick_diversion nm sim thr =
     (let rel = rel_bearing nm sim thr; dz = sr_alt_ft thr - sr_alt_ft sim
      in if sr_alt_valid sim \<and> sr_alt_valid thr \<and> 300 <s dz then DIVERSION_DESCEND
         else if sr_alt_valid sim \<and> sr_alt_valid thr \<and> dz <s - 300 then DIVERSION_CLIMB
         else pick_by_bearing nm rel)"

lemmas collision_geometry_defs [sky_eval] = derive_velocity_mps_def snap_cb_def snapshot_def rel_pos_def
  rel_vel_def closest_approach_def classify_def vertical_gate_def crash_upgrade_def pair_level_def
  rel_bearing_def pick_by_bearing_def pick_diversion_def

end
