(* ===== verification/Missile.thy ===== *)
theory Missile
  imports Geo
begin

text \<open>
  \<open>missile.c\<close>: the guided missile of the demonstration.  \<open>missile_launch\<close> aims it at the BLE
  aircraft, \<open>worker_handler\<close> turns it towards the target by at most the turn rate, climbs,
  moves it and stores it in the database every 500 ms, until it is cancelled or its time is
  over.  \<open>ms_due\<close> is when the code asked the work queue to run the handler next.
\<close>

section \<open>State\<close>

definition MISSILE_ICAO :: string where [sky_eval]: "MISSILE_ICAO = ''m1s51l''"
definition MISSILE_CLIMB_RATE_FT_PER_S :: f64 where [sky_eval]: "MISSILE_CLIMB_RATE_FT_PER_S = fp_lit 2000 1"
definition MISSILE_LAUNCH_LAT :: f64 where [sky_eval]: "MISSILE_LAUNCH_LAT = fp_lit (- 274975) 10000"
definition MISSILE_LAUNCH_LON :: f64 where [sky_eval]: "MISSILE_LAUNCH_LON = fp_lit 1530137 10000"
definition MISSILE_LAUNCH_ALT_FT :: s32 where [sky_eval]: "MISSILE_LAUNCH_ALT_FT = 0"
definition MISSILE_DEFAULT_TTL_S :: f64 where [sky_eval]: "MISSILE_DEFAULT_TTL_S = fp_lit 60 1"
definition MISSILE_DEFAULT_TURN_RATE :: f64 where [sky_eval]: "MISSILE_DEFAULT_TURN_RATE = fp_lit 15 1"
definition MISSILE_DEFAULT_SPEED_KT :: f64 where [sky_eval]: "MISSILE_DEFAULT_SPEED_KT = fp_lit 500 1"
definition MISSILE_TICK_MS :: ms where [sky_eval]: "MISSILE_TICK_MS = 500"

record missile =
  ms_active :: bool
  ms_lat :: f64
  ms_lon :: f64
  ms_hdg_deg :: f64
  ms_speed_kt :: f64
  ms_turn_rate_dps :: f64
  ms_alt_ft :: s32
  ms_launch_ms :: ms
  ms_expire_ms :: ms
  ms_last_step_ms :: ms
  ms_due :: "ms option"

definition missile_zero :: missile where
  [sky_eval]: "missile_zero = \<lparr>ms_active = False, ms_lat = 0, ms_lon = 0, ms_hdg_deg = 0, ms_speed_kt = 0,
     ms_turn_rate_dps = 0, ms_alt_ft = 0, ms_launch_ms = 0, ms_expire_ms = 0, ms_last_step_ms = 0, ms_due = None\<rparr>"

section \<open>Operations\<close>

text \<open>
  The scan for the target, this file's own callback; it finds what \<open>find_ble_sim\<close> of
  \<open>collision.c\<close> finds.
\<close>

definition find_target_cb :: "aircraft_db_entry \<Rightarrow> aircraft_t option \<Rightarrow> bool \<times> aircraft_t option" where
  [sky_eval]: "find_target_cb e c = (if ac_source (de_ac e) = SRC_BLE_SIM then (False, Some (de_ac e)) else (True, c))"

definition find_target :: "aircraft_db \<Rightarrow> aircraft_t option" where
  [sky_eval]: "find_target db = aircraft_db_for_each find_target_cb db None"

lemma find_target_is_find_ble_sim [simp]: "find_target db = find_ble_sim db"
proof -
  have "find_target_cb = find_ble_sim_cb" by (intro ext) (simp add: find_target_cb_def find_ble_sim_cb_def)
  then show ?thesis by (simp add: find_target_def find_ble_sim_def)
qed

text \<open>The record of a synthetic aircraft, as missile, ghost and inject fill it.\<close>

definition fict_aircraft :: "string \<Rightarrow> ms \<Rightarrow> f64 \<Rightarrow> f64 \<Rightarrow> f64 \<Rightarrow> f64 \<Rightarrow> aircraft_t" where
  [sky_eval]: "fict_aircraft icao now lat lon vel hdg = aircraft_zero
     \<lparr>ac_icao := strncpy0 (AIRCRAFT_ICAO_BUF_LEN - 1) icao, ac_source := SRC_FICT, ac_lat := lat, ac_lon := lon,
      ac_ts := fp_of_int now / fp_lit 1000 1,
      ac_valid_mask := AIRCRAFT_VALID_VEL OR AIRCRAFT_VALID_HDG, ac_vel_kt := vel, ac_hdg_deg := hdg\<rparr>"

definition missile_aircraft :: "ms \<Rightarrow> missile \<Rightarrow> aircraft_t" where
  "missile_aircraft now m = (fict_aircraft MISSILE_ICAO now (ms_lat m) (ms_lon m) (ms_speed_kt m) (ms_hdg_deg m))
     \<lparr>ac_valid_mask := AIRCRAFT_VALID_ALT OR AIRCRAFT_VALID_VEL OR AIRCRAFT_VALID_HDG, ac_alt_ft := ms_alt_ft m\<rparr>"

definition missile_upsert :: "libm \<Rightarrow> f64 kalman_tuning \<Rightarrow> ms \<Rightarrow> missile \<Rightarrow> aircraft_db \<Rightarrow> aircraft_db" where
  "missile_upsert lm g now m db = snd (aircraft_db_upsert lm g now (missile_aircraft now m) db)"

text \<open>The heading after a turn of at most \<open>max_step\<close> towards \<open>desired\<close>.\<close>

definition clamp_turn :: "f64 \<Rightarrow> f64 \<Rightarrow> f64" where
  "clamp_turn max_step delta = (if max_step < delta then max_step else if delta < - max_step then - max_step else delta)"

definition steer :: "libm \<Rightarrow> f64 \<Rightarrow> f64 \<Rightarrow> f64 \<Rightarrow> f64" where
  "steer lm max_step desired hdg =
     (let delta = clamp_turn max_step (wrap_180 (f64_num lm) (desired - hdg))
      in fp_fmod (hdg + delta + fp_lit 360 1) (fp_lit 360 1))"

text \<open>One climb step: by the step's altitude, or onto the target when it is within reach.\<close>

definition climb :: "s32 \<Rightarrow> s32 \<Rightarrow> s32 \<Rightarrow> s32" where
  "climb alt_step target_alt alt =
     (if alt <s target_alt - alt_step then alt + alt_step
      else if target_alt + alt_step <s alt then alt - alt_step
      else target_alt)"

definition climb_step :: "f64 \<Rightarrow> s32" where
  "climb_step dt = word_of_int (the (fp_to_sint 32 (MISSILE_CLIMB_RATE_FT_PER_S * dt)))"

definition missile_pursue :: "libm \<Rightarrow> f64 \<Rightarrow> aircraft_t \<Rightarrow> missile \<Rightarrow> missile" where
  "missile_pursue lm dt tgt m =
     (let desired = bearing (f64_num lm) (ms_lat m) (ms_lon m) (ac_lat tgt) (ac_lon tgt);
          m1 = m\<lparr>ms_hdg_deg := steer lm (ms_turn_rate_dps m * dt) desired (ms_hdg_deg m)\<rparr>
      in if ac_has tgt AIRCRAFT_VALID_ALT
         then m1\<lparr>ms_alt_ft := climb (climb_step dt) (ac_alt_ft tgt) (ms_alt_ft m1)\<rparr>
         else m1)"

definition missile_advance :: "libm \<Rightarrow> f64 \<Rightarrow> missile \<Rightarrow> missile" where
  "missile_advance lm dt m =
     (let nm = f64_num lm;
          speed_mps = ms_speed_kt m * KT_TO_MPS nm;
          hdg_rad = ms_hdg_deg m * deg2rad nm;
          lat' = ms_lat m + speed_mps * m_cos lm hdg_rad * dt * DEG_PER_M_LAT nm;
          lon' = ms_lon m + speed_mps * m_sin lm hdg_rad * dt * deg_per_m_lon_at nm lat'
      in m\<lparr>ms_lat := lat', ms_lon := lon'\<rparr>)"

definition missile_worker ::
  "libm \<Rightarrow> f64 kalman_tuning \<Rightarrow> ms \<Rightarrow> missile \<times> aircraft_db \<Rightarrow> missile \<times> aircraft_db" where
  "missile_worker lm g now s = (case s of (m0, db) \<Rightarrow>
     let m = m0\<lparr>ms_due := None\<rparr> in
     if \<not> ms_active m then (m, db)
     else if ms_expire_ms m \<le> now then (m\<lparr>ms_active := False\<rparr>, db)
     else
       let dt = step_dt MISSILE_TICK_MS now (ms_last_step_ms m);
           m1 = m\<lparr>ms_last_step_ms := now\<rparr>;
           m2 = (case find_target db of None \<Rightarrow> m1 | Some tgt \<Rightarrow> missile_pursue lm dt tgt m1);
           m3 = missile_advance lm dt m2
       in (m3\<lparr>ms_due := Some (now + MISSILE_TICK_MS)\<rparr>, missile_upsert lm g now m3 db))"

text \<open>Arguments that are not positive stand for the defaults.\<close>

definition default_if_not_pos :: "f64 \<Rightarrow> f64 \<Rightarrow> f64" where
  [sky_eval]: "default_if_not_pos d x = (if x \<le> 0 then d else x)"

definition missile_launch ::
  "libm \<Rightarrow> f64 kalman_tuning \<Rightarrow> ms \<Rightarrow> f64 \<Rightarrow> f64 \<Rightarrow> f64 \<Rightarrow> missile \<times> aircraft_db
     \<Rightarrow> (errno + unit) \<times> missile \<times> aircraft_db" where
  "missile_launch lm g now ttl_s turn_rate_dps speed_kt s = (case s of (m0, db) \<Rightarrow>
     let m = (if ms_active m0 then m0\<lparr>ms_due := None, ms_active := False\<rparr> else m0);
         ttl = default_if_not_pos MISSILE_DEFAULT_TTL_S ttl_s;
         turn = default_if_not_pos MISSILE_DEFAULT_TURN_RATE turn_rate_dps;
         speed = default_if_not_pos MISSILE_DEFAULT_SPEED_KT speed_kt
     in case find_target db of
          None \<Rightarrow> (Inl ENOENT, m, db)
        | Some tgt \<Rightarrow>
            (let m1 = m\<lparr>ms_lat := MISSILE_LAUNCH_LAT, ms_lon := MISSILE_LAUNCH_LON,
                   ms_alt_ft := MISSILE_LAUNCH_ALT_FT, ms_speed_kt := speed, ms_turn_rate_dps := turn,
                   ms_hdg_deg := bearing (f64_num lm) MISSILE_LAUNCH_LAT MISSILE_LAUNCH_LON (ac_lat tgt) (ac_lon tgt),
                   ms_launch_ms := now, ms_last_step_ms := now,
                   ms_expire_ms := now + the (fp_to_sint 64 (ttl * fp_lit 1000 1)),
                   ms_active := True\<rparr>
             in (Inr (), m1\<lparr>ms_due := Some (now + MISSILE_TICK_MS)\<rparr>, missile_upsert lm g now m1 db)))"

definition missile_cancel :: "missile \<Rightarrow> (errno + unit) \<times> missile" where
  "missile_cancel m = (if \<not> ms_active m then (Inl EALREADY, m)
     else (Inr (), m\<lparr>ms_due := None, ms_active := False\<rparr>))"

lemmas missile_defs [sky_eval] = missile_aircraft_def missile_upsert_def clamp_turn_def steer_def climb_def
  climb_step_def missile_pursue_def missile_advance_def missile_worker_def missile_launch_def missile_cancel_def

section \<open>Climbing\<close>

lemma sint_climb:
  assumes "\<bar>sint alt\<bar> < 2 ^ 29" "\<bar>sint tgt\<bar> < 2 ^ 29" "0 \<le> sint k" "sint k < 2 ^ 29"
  shows "sint (climb k tgt alt) =
    (if sint alt < sint tgt - sint k then sint alt + sint k
     else if sint tgt + sint k < sint alt then sint alt - sint k else sint tgt)"
proof -
  have "sint (tgt - k) = sint tgt - sint k" "sint (tgt + k) = sint tgt + sint k"
    "sint (alt + k) = sint alt + sint k" "sint (alt - k) = sint alt - sint k"
    using assms by (intro sint32_add sint32_sub; auto simp: abs_less_iff)+
  then show ?thesis by (simp add: climb_def word_sless_alt)
qed

text \<open>\<open>n\<close> steps of size \<open>k\<close> bring the missile \<open>n * k\<close> feet closer, and then onto the target.\<close>

lemma climb_converges:
  assumes "\<bar>sint alt\<bar> < 2 ^ 29" "\<bar>sint tgt\<bar> < 2 ^ 29" "0 \<le> sint k" "sint k < 2 ^ 29"
  shows "\<bar>sint tgt - sint ((climb k tgt ^^ n) alt)\<bar> = max 0 (\<bar>sint tgt - sint alt\<bar> - int n * sint k)
    \<and> \<bar>sint ((climb k tgt ^^ n) alt)\<bar> < 2 ^ 29"
proof (induction n)
  case (Suc n)
  then show ?case
    using sint_climb [of "(climb k tgt ^^ n) alt" tgt k] assms
    by (auto simp: algebra_simps abs_less_iff split: if_splits)
qed (use assms in simp)

section \<open>Heading\<close>

lemma wrap_180_nan [simp]: "wrap_180 (f64_num lm) FNaN = FNaN"
  by (simp add: wrap_180_def above_half_def while_unfold [of _ _ FNaN])

lemma wrap_180_in:
  assumes "f64_in a (- (2 ^ 40)) (2 ^ 40)"
  shows "f64_in (wrap_180 (f64_num lm) a) (- 180) 180"
proof (cases "a = FNaN")
  case False
  then have "isfinite a" "fp_ok a" "\<bar>fp_val a\<bar> \<le> 2 ^ 40" using assms by (auto simp: f64_in_def f64_deg_def)
  from wrap_180_range [OF this, of lm] show ?thesis by (simp add: f64_in_def f64_deg_def)
qed (simp add: f64_in_def)

lemma fmod_360:
  assumes "f64_in x 0 hi" shows "f64_in (fp_fmod x (fp_lit 360 1)) 0 360"
proof (cases "x = FNaN")
  case False
  then have d: "f64_deg x 0 hi" using assms by (simp add: f64_in_def)
  obtain s m e where x: "x = Fin s m e" using d by (metis f64_degD(1) isfinite_cases)
  have d2: "f64_deg (fp_lit 360 1) 360 360" using f64_deg_int [of 360] by simp
  obtain s2 m2 e2 where y: "(fp_lit 360 1 :: f64) = Fin s2 m2 e2" using d2 isfinite_cases f64_degD(1) by blast
  define E where "E = min e e2"
  define A where "A = scale2 m (e - E)"
  define B where "B = scale2 m2 (e2 - E)"
  have m: "0 \<le> m" "0 \<le> m2" using f64_degD(2) [OF d] f64_degD(2) [OF d2] by (simp_all add: x y)
  have v2: "real_of_int (sgn_int s2 m2) * 2 powi e2 = 360" using f64_degD(3,4) [OF d2] by (simp add: y)
  have "0 < real_of_int (sgn_int s2 m2) * 2 powi e2" using v2 by simp
  then have "0 < sgn_int s2 m2" using powi_pos [of e2] by (simp add: zero_less_mult_iff not_less order.asym)
  then have m2: "0 < m2" "\<not> s2" using m(2) by (auto simp: sgn_int_def split: if_splits)
  have B: "0 < B" using m2(1) by (simp add: B_def)
  have BE: "real_of_int B * 2 powi E = 360"
    using scale2_min' [of False m2 e2 e] v2 m2(2) by (simp add: B_def E_def sgn_int_def)
  have n: "0 \<le> A mod B" "A mod B < B" using B by simp_all
  have "0 \<le> real_of_int (sgn_int s m) * 2 powi e" using f64_degD(3) [OF d] by (simp add: x)
  then have "0 \<le> sgn_int s m" using powi_pos [of e] by (simp add: zero_le_mult_iff not_le order.asym)
  then have s: "s \<Longrightarrow> m = 0" using m(1) by (simp add: sgn_int_def)
  have "0 \<le> real_of_int (A mod B) * 2 powi E" using n(1) by simp
  moreover have "real_of_int (A mod B) * 2 powi E \<le> real_of_int B * 2 powi E"
    using n(2) by (intro mult_right_mono) simp_all
  moreover have "s \<Longrightarrow> real_of_int (A mod B) = 0" using s by (simp add: A_def scale2_def)
  ultimately have v: "0 \<le> signed s (real_of_int (A mod B) * 2 powi E)" "signed s (real_of_int (A mod B) * 2 powi E) \<le> 360"
    unfolding BE by (auto simp: signed_def)
  have "rounds_to (fp_round s (A mod B) 1 E :: f64) (signed s (real_of_int (A mod B) * 2 powi E))"
    using n(1) by (intro fp_round_rounds_to) simp_all
  then have "f64_deg (fp_round s (A mod B) 1 E :: f64) (of_int 0) (of_int 360)"
    using v by (rule_tac rounds_to_int_range) simp_all
  moreover have "fp_fmod x (fp_lit 360 1) = fp_round s (A mod B) 1 E"
    using m2(1) by (simp add: x y Let_def A_def B_def E_def)
  ultimately show ?thesis by (simp add: f64_in_def)
qed (simp add: f64_in_def)

text \<open>A number that is not negative, or NaN.\<close>

definition not_neg :: "f64 \<Rightarrow> bool" where
  "not_neg x \<longleftrightarrow> (case x of FNaN \<Rightarrow> True | FInf s \<Rightarrow> \<not> s | Fin s m e \<Rightarrow> 0 \<le> m \<and> (s \<longrightarrow> m = 0))"

lemma fp_round_not_neg: "0 \<le> n \<Longrightarrow> (s \<longrightarrow> n = 0) \<Longrightarrow> not_neg (fp_round s n 1 k)"
proof -
  assume n: "0 \<le> n" and s: "s \<longrightarrow> n = 0"
  have ok: "fp_ok (fp_round s n 1 k :: f64)" using n by (intro fp_round_ok) simp_all
  show ?thesis
  proof (cases "n = 0")
    case True
    then show ?thesis by (simp add: fp_round_def not_neg_def)
  next
    case False
    have "(fp_pack False q e :: f64) = FInf False \<or> (\<exists>m x. (fp_pack False q e :: f64) = Fin False m x)" for q e
      by (simp add: fp_pack_def Let_def split: prod.splits)
    then have "(fp_round s n 1 k :: f64) = FInf False \<or> (\<exists>m x. (fp_round s n 1 k :: f64) = Fin False m x)"
      using s False by (simp add: fp_round_def Let_def)
    then show ?thesis using ok by (auto simp: not_neg_def)
  qed
qed

lemma not_neg_mult: "not_neg x \<Longrightarrow> not_neg y \<Longrightarrow> not_neg (x * y)"
  by (cases x; cases y) (auto simp: not_neg_def times_fp_def intro!: fp_round_not_neg [unfolded not_neg_def])

lemma clamp_turn_in:
  assumes "not_neg s" "fp_ok s" "f64_in d (- 180) 180"
  shows "f64_in (clamp_turn s d) (- 180) 180"
proof (cases "d = FNaN")
  case True
  then show ?thesis by (simp add: clamp_turn_def f64_in_def)
next
  case False
  then have d: "f64_deg d (- 180) 180" using assms by (simp add: f64_in_def)
  show ?thesis
  proof (cases "isfinite s")
    case True
    then have s: "0 \<le> fp_val s"
      using assms(1) by (cases s) (auto simp: not_neg_def sgn_int_def)
    show ?thesis using d s True assms(2)
      by (auto simp: clamp_turn_def f64_in_def f64_deg_def fp_less_val)
  next
    case False
    then have "s = FNaN \<or> s = FInf False" using assms(1) by (cases s) (auto simp: not_neg_def)
    then have "clamp_turn s d = d" using f64_degD(1) [OF d]
      by (cases d) (auto simp: clamp_turn_def fp_class_defs)
    then show ?thesis using assms(3) by simp
  qed
qed

lemma steer_in:
  assumes s: "not_neg max_step" "fp_ok max_step" and d: "f64_in desired 0 360" and h: "f64_in hdg 0 360"
  shows "f64_in (steer lm max_step desired hdg) 0 360"
proof -
  have "f64_in (desired + - hdg) (of_int (0 + - 360)) (of_int (360 + 0))"
    using d f64_in_neg [OF h] by (intro f64_in_add) simp_all
  then have "f64_in (desired - hdg) (- 360) 360" by (simp add: minus_fp_eq)
  then have "f64_in (desired - hdg) (- (2 ^ 40)) (2 ^ 40)" by (auto simp: f64_in_def f64_deg_def)
  then have c: "f64_in (clamp_turn max_step (wrap_180 (f64_num lm) (desired - hdg))) (of_int (- 180)) (of_int 180)"
    (is "f64_in ?c _ _") using clamp_turn_in [OF s] wrap_180_in by simp
  have 1: "f64_in (hdg + ?c) (of_int (0 + - 180)) (of_int (360 + 180))"
    using h c by (intro f64_in_add) simp_all
  have "f64_in (fp_lit 360 1) (of_int 360) (of_int 360)" using f64_deg_int [of 360] by (simp add: f64_in_def)
  from f64_in_add [OF 1 this]
  have "f64_in (hdg + ?c + fp_lit 360 1) 0 900" by (auto simp: f64_in_def f64_deg_def)
  then show ?thesis unfolding steer_def Let_def by (rule fmod_360)
qed

section \<open>The missile as a system\<close>

text \<open>
  Operations on the missile, each with the database it finds: other threads may have changed
  it in any way in between.  Legal arguments are doubles in the format's range.
\<close>

datatype missile_op = MsLaunch ms f64 f64 f64 aircraft_db | MsWorker ms aircraft_db | MsCancel

fun missile_step :: "libm \<Rightarrow> f64 kalman_tuning \<Rightarrow> missile_op \<Rightarrow> missile \<Rightarrow> missile" where
  "missile_step lm g (MsLaunch now ttl turn speed db) m = fst (snd (missile_launch lm g now ttl turn speed (m, db)))"
| "missile_step lm g (MsWorker now db) m = fst (missile_worker lm g now (m, db))"
| "missile_step lm g MsCancel m = snd (missile_cancel m)"

fun missile_legal :: "missile_op \<Rightarrow> bool" where
  "missile_legal (MsLaunch now ttl turn speed db) \<longleftrightarrow> fp_ok turn \<and> \<bar>now\<bar> < 2 ^ 52"
| "missile_legal (MsWorker now db) \<longleftrightarrow> \<bar>now\<bar> < 2 ^ 52"
| "missile_legal MsCancel \<longleftrightarrow> True"

text \<open>
  The handler is scheduled exactly while a missile flies, so none is stranded and none runs on
  after its end; the heading stays a compass direction.
\<close>

definition missile_inv :: "missile \<Rightarrow> bool" where
  "missile_inv m \<longleftrightarrow> (ms_active m \<longleftrightarrow> ms_due m \<noteq> None) \<and> f64_in (ms_hdg_deg m) 0 360
     \<and> not_neg (ms_turn_rate_dps m) \<and> fp_ok (ms_turn_rate_dps m) \<and> \<bar>ms_last_step_ms m\<bar> < 2 ^ 52"

lemma f64_deg_not_neg: "f64_deg x 0 hi \<Longrightarrow> not_neg x"
proof -
  assume d: "f64_deg x 0 hi"
  obtain s m e where x: "x = Fin s m e" using d isfinite_cases f64_degD(1) by blast
  have "0 \<le> real_of_int (sgn_int s m) * 2 powi e" using f64_degD(3) [OF d] by (simp add: x)
  then have "0 \<le> sgn_int s m" using powi_pos [of e] by (simp add: zero_le_mult_iff not_le order.asym)
  then show ?thesis using f64_degD(2) [OF d] by (auto simp: x not_neg_def sgn_int_def)
qed

lemma f64_zero: "(0 :: f64) = fp_lit 0 1"
  by (simp add: zero_fp_def fp_lit_def fp_round_def)

lemma step_dt_range:
  assumes "\<bar>now - prev\<bar> < 2 ^ 53" "0 \<le> tick" "tick \<le> 30000"
  shows "f64_deg (step_dt tick now prev) 0 30"
proof -
  have k: "f64_deg (fp_lit 1000 1) 1000 1000" using f64_deg_int [of 1000] by simp
  have div: "f64_deg (fp_of_int n / fp_lit 1000 1) (of_int lo) (of_int hi)"
    if "\<bar>n\<bar> < 2 ^ 53" "1000 * lo \<le> n" "n \<le> 1000 * hi" "\<bar>lo\<bar> < 2 ^ 53" "\<bar>hi\<bar> < 2 ^ 53" for n lo hi
  proof -
    have "rounds_to (fp_of_int n / fp_lit 1000 1 :: f64) (fp_val (fp_of_int n :: f64) / fp_val (fp_lit 1000 1 :: f64))"
      using that(1) k by (intro divide_rounds_to) (auto simp: f64_deg_def)
    then have r: "rounds_to (fp_of_int n / fp_lit 1000 1 :: f64) (of_int n / 1000)"
      using that(1) by (simp add: fp_lit_int)
    show ?thesis
      by (rule rounds_to_int_range [OF r _ _ that(4,5)]) (use that(2,3) in \<open>simp_all add: pos_le_divide_eq pos_divide_le_eq\<close>)
  qed
  let ?d = "fp_of_int (now - prev) / fp_lit 1000 1 :: f64"
  have d: "f64_deg ?d (of_int (- (2 ^ 52))) (of_int (2 ^ 52))"
    by (rule div) (use assms(1) in auto)
  have t: "f64_deg (fp_of_int tick / fp_lit 1000 1) (of_int 0) (of_int 30)"
    by (rule div) (use assms(2,3) in auto)
  show ?thesis using t d f64_deg_less_lit [OF d, of 0] f64_deg_less_lit [OF d, of 30]
    by (auto simp: step_dt_def Let_def f64_deg_def f64_zero)
qed

lemma default_not_neg:
  assumes "not_neg d" "fp_ok d" "fp_ok x"
  shows "not_neg (default_if_not_pos d x) \<and> fp_ok (default_if_not_pos d x)"
proof (cases "x \<le> 0")
  case True
  then show ?thesis using assms by (simp add: default_if_not_pos_def)
next
  case False
  have "not_neg x"
  proof (cases x)
    case (FInf s)
    then show ?thesis using False by (simp add: not_neg_def less_eq_fp_def zero_fp_def)
  next
    case (Fin s m e)
    then have "f64_deg x (fp_val x) (fp_val x)" using assms(3) by (simp add: f64_deg_def)
    then have "0 \<le> fp_val x" using False f64_deg_less_lit [of x _ _ 0] by (auto simp: f64_zero)
    then have "f64_deg x 0 (fp_val x)" using Fin assms(3) by (simp add: f64_deg_def)
    then show ?thesis by (rule f64_deg_not_neg)
  qed (simp add: not_neg_def)
  then show ?thesis using False assms(3) by (simp add: default_if_not_pos_def)
qed

lemma missile_pursue_simps [simp]:
  "ms_active (missile_pursue lm dt tgt m) = ms_active m" "ms_due (missile_pursue lm dt tgt m) = ms_due m"
  "ms_turn_rate_dps (missile_pursue lm dt tgt m) = ms_turn_rate_dps m"
  "ms_last_step_ms (missile_pursue lm dt tgt m) = ms_last_step_ms m"
  "ms_expire_ms (missile_pursue lm dt tgt m) = ms_expire_ms m"
  "ms_hdg_deg (missile_pursue lm dt tgt m) =
     steer lm (ms_turn_rate_dps m * dt) (bearing (f64_num lm) (ms_lat m) (ms_lon m) (ac_lat tgt) (ac_lon tgt)) (ms_hdg_deg m)"
  by (simp_all add: missile_pursue_def Let_def)

lemma missile_advance_simps [simp]:
  "ms_active (missile_advance lm dt m) = ms_active m" "ms_due (missile_advance lm dt m) = ms_due m"
  "ms_turn_rate_dps (missile_advance lm dt m) = ms_turn_rate_dps m"
  "ms_last_step_ms (missile_advance lm dt m) = ms_last_step_ms m"
  "ms_expire_ms (missile_advance lm dt m) = ms_expire_ms m"
  "ms_hdg_deg (missile_advance lm dt m) = ms_hdg_deg m"
  by (simp_all add: missile_advance_def Let_def)

lemma missile_inv_cancel: "missile_inv m \<Longrightarrow> missile_inv (snd (missile_cancel m))"
  by (auto simp: missile_inv_def missile_cancel_def)

lemma missile_inv_launch:
  assumes lm: "libm_ok lm" and inv: "missile_inv m" and ok: "fp_ok turn" "\<bar>now\<bar> < 2 ^ 52"
  shows "missile_inv (fst (snd (missile_launch lm g now ttl turn speed (m, db))))"
proof -
  have "f64_deg MISSILE_DEFAULT_TURN_RATE 0 15"
    using f64_deg_int [of 15] by (simp add: MISSILE_DEFAULT_TURN_RATE_def f64_deg_def)
  then have "not_neg MISSILE_DEFAULT_TURN_RATE" "fp_ok MISSILE_DEFAULT_TURN_RATE"
    using f64_deg_not_neg f64_degD(2) by blast+
  from default_not_neg [OF this ok(1)] show ?thesis
    using inv ok(2) bearing_in [OF lm] by (auto simp: missile_launch_def missile_inv_def Let_def split: option.splits)
qed

lemma missile_inv_worker:
  assumes lm: "libm_ok lm" and inv: "missile_inv m" and now: "\<bar>now\<bar> < 2 ^ 52"
  shows "missile_inv (fst (missile_worker lm g now (m, db)))"
proof -
  let ?dt = "step_dt MISSILE_TICK_MS now (ms_last_step_ms m)"
  have "\<bar>now - ms_last_step_ms m\<bar> < 2 ^ 53" using inv now by (auto simp: missile_inv_def abs_less_iff)
  then have dt: "f64_deg ?dt 0 30" by (intro step_dt_range) (simp_all add: MISSILE_TICK_MS_def)
  have t: "not_neg (ms_turn_rate_dps m)" "fp_ok (ms_turn_rate_dps m)" using inv by (simp_all add: missile_inv_def)
  have max: "not_neg (ms_turn_rate_dps m * ?dt)" by (rule not_neg_mult [OF t(1) f64_deg_not_neg [OF dt]])
  have ok: "fp_ok (ms_turn_rate_dps m * ?dt)"
  proof (cases "isfinite (ms_turn_rate_dps m)")
    case True
    then have "rounds_to (ms_turn_rate_dps m * ?dt) (fp_val (ms_turn_rate_dps m) * fp_val ?dt)"
      using dt t(2) by (intro mult_rounds_to) (auto dest: f64_degD)
    then show ?thesis by (simp add: rounds_to_def)
  next
    case False
    then show ?thesis by (cases "ms_turn_rate_dps m"; cases ?dt) (auto simp: times_fp_def)
  qed
  have h: "f64_in (ms_hdg_deg m) 0 360" using inv by (simp add: missile_inv_def)
  show ?thesis
    using inv now steer_in [OF max ok bearing_in [OF lm] h]
    by (auto simp: missile_worker_def missile_inv_def Let_def split: option.splits)
qed

lemma missile_system:
  assumes "libm_ok lm" shows "op_system missile_zero (missile_step lm g) missile_legal missile_inv"
proof
  have "f64_deg 0 0 360" using f64_deg_int [of 0] by (simp add: f64_zero f64_deg_def)
  then show "missile_inv missile_zero"
    using f64_deg_not_neg f64_degD(2) by (auto simp: missile_inv_def missile_zero_def f64_in_def)
  show "missile_inv (missile_step lm g x s)" if "missile_inv s" "missile_legal x" for s x
    using that missile_inv_cancel missile_inv_launch [OF assms] missile_inv_worker [OF assms] by (cases x) auto
qed

section \<open>The end of the flight\<close>

text \<open>The handler run at each time it asked for, each run with the database it finds.\<close>

fun fly :: "libm \<Rightarrow> f64 kalman_tuning \<Rightarrow> aircraft_db list \<Rightarrow> missile \<Rightarrow> missile" where
  "fly lm g [] m = m"
| "fly lm g (db # dbs) m = (case ms_due m of None \<Rightarrow> m
     | Some t \<Rightarrow> fly lm g dbs (fst (missile_worker lm g t (m, db))))"

lemma worker_expired:
  "ms_active m \<Longrightarrow> ms_expire_ms m \<le> now \<Longrightarrow>
   missile_worker lm g now (m, db) = (m\<lparr>ms_due := None, ms_active := False\<rparr>, db)"
  by (simp add: missile_worker_def Let_def)

lemma worker_flying:
  assumes "ms_active m" "now < ms_expire_ms m"
  shows "ms_active (fst (missile_worker lm g now (m, db)))"
    "ms_due (fst (missile_worker lm g now (m, db))) = Some (now + MISSILE_TICK_MS)"
    "ms_expire_ms (fst (missile_worker lm g now (m, db))) = ms_expire_ms m"
  using assms by (simp_all add: missile_worker_def Let_def split: option.splits)

lemma fly_ends:
  assumes "ms_active m" "ms_due m = Some t" "ms_expire_ms m \<le> t + MISSILE_TICK_MS * int n" "length dbs = Suc n"
  shows "\<not> ms_active (fly lm g dbs m)"
  using assms
proof (induction n arbitrary: m t dbs)
  case 0
  then obtain db where "dbs = [db]" by (auto simp: length_Suc_conv)
  then show ?case using 0 by (simp add: worker_expired)
next
  case (Suc n)
  then obtain db dbs' where dbs: "dbs = db # dbs'" "length dbs' = Suc n" by (auto simp: length_Suc_conv)
  show ?case
  proof (cases "ms_expire_ms m \<le> t")
    case True
    have "fly lm g dbs' (m\<lparr>ms_due := None, ms_active := False\<rparr>) = m\<lparr>ms_due := None, ms_active := False\<rparr>"
      using dbs(2) by (cases dbs') simp_all
    then show ?thesis using True Suc.prems dbs(1) by (simp add: worker_expired)
  next
    case False
    then have "t < ms_expire_ms m" by simp
    from worker_flying [OF Suc.prems(1) this, of lm g db] show ?thesis
      using Suc.IH [OF _ _ _ dbs(2), of "fst (missile_worker lm g t (m, db))"] Suc.prems(2,3)
      by (simp add: dbs(1) MISSILE_TICK_MS_def algebra_simps)
  qed
qed

text \<open>
  After any launches, handler runs and cancels with arguments in range, on whatever
  databases they find, the handler is scheduled exactly while a missile flies, the heading is a
  compass direction (or NaN), and the turn rate is not negative.
\<close>

lemma missile_invariant:
  assumes "libm_ok lm" "\<forall>x \<in> set ops. missile_legal x"
  shows "missile_inv (run (missile_step lm g) missile_zero ops)"
  by (rule op_system.inv_run [OF missile_system [OF assms(1)] assms(2)])

text \<open>
  A missile that was launched is gone at the end of its time to live: the handler, run at
  the times it asked for and on any databases, has ended the flight after the rounds that fit
  into the time to live and one more.
\<close>

lemma missile_flight_ends:
  assumes "missile_launch lm g now ttl turn speed (m0, db) = (Inr (), m, db')"
    "ms_expire_ms m \<le> now + MISSILE_TICK_MS * int (Suc n)" "length dbs = Suc n"
  shows "\<not> ms_active (fly lm g dbs m)"
proof -
  have "ms_active m" "ms_due m = Some (now + MISSILE_TICK_MS)"
    using assms(1) by (auto simp: missile_launch_def Let_def split: option.splits)
  then show ?thesis using fly_ends [of m "now + MISSILE_TICK_MS" n dbs lm g] assms(2,3) by (simp add: algebra_simps)
qed

end
