(* ===== verification/Ble_Packet.thy ===== *)
theory Ble_Packet
  imports Sky_Prelude
begin

text \<open>
  \<open>ble_packet.h\<close>, the same on both boards: the 38-byte aircraft frame and the 16-byte warning
  frame, as packed little-endian structs.  Sending a struct is \<open>encode\<close>, \<open>memcpy\<close> of received
  bytes into one is \<open>decode\<close>.  The locale \<open>wire_codec\<close> is what sender and receiver rely on.
\<close>

section \<open>Little-endian fields\<close>

fun le_bytes :: "nat \<Rightarrow> int \<Rightarrow> u8 list" where
  "le_bytes 0 n = []"
| "le_bytes (Suc k) n = word_of_int (n mod 256) # le_bytes k (n div 256)"

fun le_int :: "u8 list \<Rightarrow> int" where
  "le_int [] = 0"
| "le_int (b # bs) = uint b + 256 * le_int bs"

text \<open>The 64 bits of a double.\<close>

definition f64_bits :: "f64 \<Rightarrow> int" where
  [sky_eval]: "f64_bits x = (case x of
     FNaN \<Rightarrow> 2047 * 2 ^ 52 + 2 ^ 51
   | FInf s \<Rightarrow> of_bool s * 2 ^ 63 + 2047 * 2 ^ 52
   | Fin s m e \<Rightarrow> of_bool s * 2 ^ 63 + (if m < 2 ^ 52 then m else (e + 1074) * 2 ^ 52 + m))"

definition f64_of_bits :: "int \<Rightarrow> f64" where
  [sky_eval]: "f64_of_bits n = (let s = (n div 2 ^ 63 = 1); ex = n div 2 ^ 52 mod 2 ^ 11; fr = n mod 2 ^ 52
     in if ex = 2047 then (if fr = 0 then FInf s else FNaN)
        else if ex = 0 then Fin s fr (- 1074)
        else Fin s (2 ^ 52 + fr) (ex - 1075))"

lemma length_le_bytes [simp]: "length (le_bytes k n) = k"
  by (induction k arbitrary: n) simp_all

lemma le_int_bytes: "0 \<le> n \<Longrightarrow> n < 256 ^ k \<Longrightarrow> le_int (le_bytes k n) = n"
proof (induction k arbitrary: n)
  case (Suc k)
  have "n div 256 < 256 ^ k" using Suc.prems by simp
  then have "le_int (le_bytes k (n div 256)) = n div 256" using Suc by (simp add: pos_imp_zdiv_nonneg_iff)
  moreover have "uint (word_of_int (n mod 256) :: u8) = n mod 256"
    by (simp add: uint_word_of_int)
  ultimately show ?case by simp
qed simp

lemma le_bytes_int: "length bs = k \<Longrightarrow> le_bytes k (le_int bs) = bs"
proof (induction bs arbitrary: k)
  case (Cons b bs)
  have b: "0 \<le> uint b" "uint b < 256" using uint_bounded [of b] by simp_all
  then have "(uint b + 256 * le_int bs) mod 256 = uint b" "(uint b + 256 * le_int bs) div 256 = le_int bs"
    by simp_all
  with Cons show ?case by auto
qed simp

lemma le_int_word: "LENGTH('a::len) = 8 * k \<Longrightarrow> word_of_int (le_int (le_bytes k (uint (w :: 'a word)))) = w"
  using uint_bounded [of w] by (simp add: le_int_bytes power_mult)

lemma f64_bits_range: "fp_ok x \<Longrightarrow> 0 \<le> f64_bits x \<and> f64_bits x < 256 ^ 8"
proof (cases x)
  case (Fin s m e)
  moreover assume "fp_ok x"
  ultimately have "0 \<le> m" "m < 9007199254740992" "- 1074 \<le> e" "e \<le> 971"
    by (simp_all add: fp_ok_def)
  then show ?thesis unfolding Fin f64_bits_def by (cases s) simp_all
qed (simp_all add: f64_bits_def of_bool_def)

lemma bit_fields:
  fixes f x :: int and s :: bool
  assumes "0 \<le> f" "f < 2 ^ 52" "0 \<le> x" "x < 2 ^ 11"
  defines "n \<equiv> f + 2 ^ 52 * (x + 2 ^ 11 * of_bool s)"
  shows "n mod 2 ^ 52 = f" "n div 2 ^ 52 mod 2 ^ 11 = x" "n div 2 ^ 63 = of_bool s"
proof -
  have n2: "n div 2 ^ 52 = x + 2 ^ 11 * of_bool s" unfolding n_def using assms(1,2) by simp
  show "n mod 2 ^ 52 = f" unfolding n_def mod_mult_self2 using assms(1,2) by (rule mod_pos_pos_trivial)
  show "n div 2 ^ 52 mod 2 ^ 11 = x" unfolding n2 using assms(3,4) by (cases s) simp_all
  have "n div 2 ^ 63 = n div 2 ^ 52 div 2 ^ 11" by (simp add: div_mult2_eq [symmetric])
  then show "n div 2 ^ 63 = of_bool s" unfolding n2 using assms(3,4) by (cases s) simp_all
qed

lemma f64_of_bits_fields:
  assumes "0 \<le> f" "f < 2 ^ 52" "0 \<le> x" "x < 2047"
  shows "f64_of_bits (f + 2 ^ 52 * (x + 2 ^ 11 * of_bool s)) =
    (if x = 0 then Fin s f (- 1074) else Fin s (2 ^ 52 + f) (x - 1075))"
proof -
  have x: "x < 2 ^ 11" "x \<noteq> 2047" using assms(4) by simp_all
  show ?thesis
    unfolding f64_of_bits_def Let_def bit_fields [OF assms(1,2,3) x(1)] using x(2) by (cases s) simp_all
qed

lemma f64_bits_finite:
  assumes "0 \<le> m" "m < 2 ^ 53" "- 1074 \<le> e" "e \<le> 971" "2 ^ 52 \<le> m \<or> e = - 1074"
  shows "f64_of_bits (f64_bits (Fin s m e)) = Fin s m e"
proof (cases "m < 2 ^ 52")
  case True
  have b: "f64_bits (Fin s m e) = m + 2 ^ 52 * (0 + 2 ^ 11 * of_bool s)"
    using True by (simp add: f64_bits_def)
  show ?thesis unfolding b using f64_of_bits_fields [of m 0 s] True assms(1,5) by simp
next
  case False
  have b: "f64_bits (Fin s m e) = (m - 2 ^ 52) + 2 ^ 52 * ((e + 1075) + 2 ^ 11 * of_bool s)"
    using False by (simp add: f64_bits_def algebra_simps)
  show ?thesis unfolding b using f64_of_bits_fields [of "m - 2 ^ 52" "e + 1075" s] False assms by simp
qed

lemma f64_of_bits_bits: "fp_ok x \<Longrightarrow> f64_of_bits (f64_bits x) = x"
proof (cases x)
  case (FInf s)
  then show ?thesis by (cases s) (simp_all add: f64_bits_def f64_of_bits_def)
next
  case (Fin s m e)
  moreover assume "fp_ok x"
  ultimately show ?thesis unfolding Fin by (intro f64_bits_finite) (auto simp: fp_ok_def)
qed (simp add: f64_bits_def f64_of_bits_def)

section \<open>The frames\<close>

definition BLE_FRAME_SIZE :: nat where [sky_eval]: "BLE_FRAME_SIZE = 38"
definition BLE_SRC_ADS_B :: u8 where [sky_eval]: "BLE_SRC_ADS_B = 0"
definition BLE_SRC_BLE_SIM :: u8 where [sky_eval]: "BLE_SRC_BLE_SIM = 1"
definition BLE_FLAG_ON_GROUND :: u8 where [sky_eval]: "BLE_FLAG_ON_GROUND = 1"
definition BLE_FLAG_ALT_VALID :: u8 where [sky_eval]: "BLE_FLAG_ALT_VALID = 2"
definition BLE_FLAG_VEL_VALID :: u8 where [sky_eval]: "BLE_FLAG_VEL_VALID = 4"
definition BLE_FLAG_HDG_VALID :: u8 where [sky_eval]: "BLE_FLAG_HDG_VALID = 8"

record ble_aircraft_frame =
  bf_source :: u8
  bf_flags :: u8
  bf_icao24 :: u32
  bf_pad0 :: "u8 list"
  bf_lat :: f64
  bf_lon :: f64
  bf_alt_ft :: s16
  bf_vel_kt :: s16
  bf_hdg_deg :: s16
  bf_reserved :: u8
  bf_pad1 :: u8
  bf_ts_ms :: u32

definition frame_encode :: "ble_aircraft_frame \<Rightarrow> u8 list" where
  [sky_eval]: "frame_encode f = [bf_source f, bf_flags f] @ le_bytes 4 (uint (bf_icao24 f)) @ bf_pad0 f
     @ le_bytes 8 (f64_bits (bf_lat f)) @ le_bytes 8 (f64_bits (bf_lon f))
     @ le_bytes 2 (uint (bf_alt_ft f)) @ le_bytes 2 (uint (bf_vel_kt f)) @ le_bytes 2 (uint (bf_hdg_deg f))
     @ [bf_reserved f, bf_pad1 f] @ le_bytes 4 (uint (bf_ts_ms f))"

text \<open>The bytes of the field at an offset, as in the table of the header.\<close>

definition field_at :: "nat \<Rightarrow> nat \<Rightarrow> u8 list \<Rightarrow> u8 list" where
  [sky_eval]: "field_at off k bs = take k (drop off bs)"

definition frame_decode :: "u8 list \<Rightarrow> ble_aircraft_frame option" where
  [sky_eval]: "frame_decode bs = (if length bs \<noteq> BLE_FRAME_SIZE then None else Some
     \<lparr>bf_source = bs ! 0, bf_flags = bs ! 1, bf_icao24 = word_of_int (le_int (field_at 2 4 bs)),
      bf_pad0 = field_at 6 4 bs,
      bf_lat = f64_of_bits (le_int (field_at 10 8 bs)), bf_lon = f64_of_bits (le_int (field_at 18 8 bs)),
      bf_alt_ft = word_of_int (le_int (field_at 26 2 bs)), bf_vel_kt = word_of_int (le_int (field_at 28 2 bs)),
      bf_hdg_deg = word_of_int (le_int (field_at 30 2 bs)), bf_reserved = bs ! 32, bf_pad1 = bs ! 33,
      bf_ts_ms = word_of_int (le_int (field_at 34 4 bs))\<rparr>)"

definition frame_ok :: "ble_aircraft_frame \<Rightarrow> bool" where
  "frame_ok f \<longleftrightarrow> length (bf_pad0 f) = 4 \<and> fp_ok (bf_lat f) \<and> fp_ok (bf_lon f)"

definition BLE_WARNING_FRAME_SIZE :: nat where [sky_eval]: "BLE_WARNING_FRAME_SIZE = 16"
definition BLE_WARN_MSG_COLLISION :: u8 where [sky_eval]: "BLE_WARN_MSG_COLLISION = 2"
definition BLE_WARN_MSG_DIVERSION :: u8 where [sky_eval]: "BLE_WARN_MSG_DIVERSION = 3"
definition BLE_WARN_MSG_FREETEXT :: u8 where [sky_eval]: "BLE_WARN_MSG_FREETEXT = 4"
definition BLE_WARN_MSG_CRASH :: u8 where [sky_eval]: "BLE_WARN_MSG_CRASH = 5"
definition BLE_WARN_SEV_ADVISORY :: u8 where [sky_eval]: "BLE_WARN_SEV_ADVISORY = 0"
definition BLE_WARN_SEV_WARNING :: u8 where [sky_eval]: "BLE_WARN_SEV_WARNING = 1"
definition BLE_WARN_SEV_URGENT :: u8 where [sky_eval]: "BLE_WARN_SEV_URGENT = 2"

record ble_warning_frame =
  wf_msg_type :: u8
  wf_icao :: "u8 list"
  wf_lat :: "u8 list"
  wf_lon :: "u8 list"
  wf_alt :: u16
  wf_severity :: u8
  wf_hdg_delta :: u8
  wf_timestamp :: u8
  wf_crc :: u8

definition warning_zero :: ble_warning_frame where
  [sky_eval]: "warning_zero = \<lparr>wf_msg_type = 0, wf_icao = [0, 0, 0], wf_lat = [0, 0, 0], wf_lon = [0, 0, 0],
     wf_alt = 0, wf_severity = 0, wf_hdg_delta = 0, wf_timestamp = 0, wf_crc = 0\<rparr>"

definition warning_encode :: "ble_warning_frame \<Rightarrow> u8 list" where
  [sky_eval]: "warning_encode f = [wf_msg_type f] @ wf_icao f @ wf_lat f @ wf_lon f @ le_bytes 2 (uint (wf_alt f))
     @ [wf_severity f, wf_hdg_delta f, wf_timestamp f, wf_crc f]"

definition warning_decode :: "u8 list \<Rightarrow> ble_warning_frame option" where
  [sky_eval]: "warning_decode bs = (if length bs \<noteq> BLE_WARNING_FRAME_SIZE then None else Some
     \<lparr>wf_msg_type = bs ! 0, wf_icao = field_at 1 3 bs, wf_lat = field_at 4 3 bs, wf_lon = field_at 7 3 bs,
      wf_alt = word_of_int (le_int (field_at 10 2 bs)), wf_severity = bs ! 12, wf_hdg_delta = bs ! 13,
      wf_timestamp = bs ! 14, wf_crc = bs ! 15\<rparr>)"

definition warning_ok :: "ble_warning_frame \<Rightarrow> bool" where
  "warning_ok f \<longleftrightarrow> length (wf_icao f) = 3 \<and> length (wf_lat f) = 3 \<and> length (wf_lon f) = 3"

text \<open>The loop of \<open>ble_warning_crc\<close> over the first bytes, and on a struct.\<close>

definition xor_bytes :: "u8 list \<Rightarrow> u8" where
  [sky_eval]: "xor_bytes bs = foldl (XOR) 0 bs"

definition ble_warning_crc :: "ble_warning_frame \<Rightarrow> u8" where
  [sky_eval]: "ble_warning_crc f = xor_bytes (take (BLE_WARNING_FRAME_SIZE - 1) (warning_encode f))"

section \<open>The codec interface\<close>

text \<open>
  A struct sent as a fixed number of bytes and copied back: every well-formed struct arrives as
  it was sent, and only a message of exactly that size is one.
\<close>

locale wire_codec =
  fixes enc :: "'f \<Rightarrow> u8 list"
    and dec :: "u8 list \<Rightarrow> 'f option"
    and ok :: "'f \<Rightarrow> bool"
    and size :: nat
  assumes enc_size: "ok f \<Longrightarrow> length (enc f) = size"
    and dec_enc: "ok f \<Longrightarrow> dec (enc f) = Some f"
    and dec_size: "dec bs \<noteq> None \<longleftrightarrow> length bs = size"
begin

lemma enc_inj: "ok f \<Longrightarrow> ok g \<Longrightarrow> enc f = enc g \<Longrightarrow> f = g"
  by (metis dec_enc option.inject)

text \<open>Messages sent one after the other and cut at the frame size are read back in order.\<close>

lemma dec_stream:
  assumes "\<forall>f \<in> set fs. ok f"
  shows "i < length fs \<Longrightarrow> dec (take size (drop (i * size) (concat (map enc fs)))) = Some (fs ! i)"
  using assms
proof (induction fs arbitrary: i)
  case (Cons f fs)
  then have f: "length (enc f) = size" "dec (enc f) = Some f" using enc_size dec_enc by auto
  show ?case
  proof (cases i)
    case 0
    then show ?thesis using f by simp
  next
    case (Suc j)
    then show ?thesis using Cons f by simp
  qed
qed simp

end

lemma list3: "length xs = 3 \<Longrightarrow> \<exists>a b c. xs = [a, b, c]"
  by (auto simp: numeral_eq_Suc length_Suc_conv)

lemma list4: "length xs = 4 \<Longrightarrow> \<exists>a b c d. xs = [a, b, c, d]"
  by (auto simp: numeral_eq_Suc length_Suc_conv)

lemma le_int_f64 [simp]: "fp_ok x \<Longrightarrow> f64_of_bits (le_int (le_bytes 8 (f64_bits x))) = x"
  using f64_bits_range [of x] by (simp add: le_int_bytes f64_of_bits_bits)

interpretation aircraft_codec: wire_codec frame_encode frame_decode frame_ok BLE_FRAME_SIZE
proof
  fix f assume ok: "frame_ok f"
  then show len: "length (frame_encode f) = BLE_FRAME_SIZE"
    by (simp add: frame_encode_def frame_ok_def BLE_FRAME_SIZE_def)
  have "length (bf_pad0 f) = 4" using ok by (simp add: frame_ok_def)
  then obtain a b c d where p: "bf_pad0 f = [a, b, c, d]" using list4 by blast
  have w: "word_of_int (le_int (le_bytes 4 (uint (bf_icao24 f)))) = bf_icao24 f"
    "word_of_int (le_int (le_bytes 4 (uint (bf_ts_ms f)))) = bf_ts_ms f"
    "word_of_int (le_int (le_bytes 2 (uint (bf_alt_ft f)))) = bf_alt_ft f"
    "word_of_int (le_int (le_bytes 2 (uint (bf_vel_kt f)))) = bf_vel_kt f"
    "word_of_int (le_int (le_bytes 2 (uint (bf_hdg_deg f)))) = bf_hdg_deg f"
    by (simp_all add: le_int_word)
  show "frame_decode (frame_encode f) = Some f"
    using ok unfolding frame_decode_def len
    by (simp add: frame_encode_def field_at_def nth_append w p frame_ok_def)
next
  show "frame_decode bs \<noteq> None \<longleftrightarrow> length bs = BLE_FRAME_SIZE" for bs by (simp add: frame_decode_def)
qed

interpretation warning_codec: wire_codec warning_encode warning_decode warning_ok BLE_WARNING_FRAME_SIZE
proof
  fix f assume ok: "warning_ok f"
  then show len: "length (warning_encode f) = BLE_WARNING_FRAME_SIZE"
    by (simp add: warning_encode_def warning_ok_def BLE_WARNING_FRAME_SIZE_def)
  have w: "word_of_int (le_int (le_bytes 2 (uint (wf_alt f)))) = wf_alt f" by (simp add: le_int_word)
  show "warning_decode (warning_encode f) = Some f"
    using ok unfolding warning_decode_def len
    by (simp add: warning_encode_def field_at_def nth_append w warning_ok_def)
next
  show "warning_decode bs \<noteq> None \<longleftrightarrow> length bs = BLE_WARNING_FRAME_SIZE" for bs by (simp add: warning_decode_def)
qed

section \<open>The checksum\<close>

lemma xor_bytes_append: "xor_bytes (xs @ ys) = xor_bytes xs XOR xor_bytes ys"
proof -
  have f: "foldl (XOR) a zs = a XOR foldl (XOR) 0 zs" for a :: u8 and zs
  proof (induction zs arbitrary: a)
    case (Cons z zs)
    show ?case using Cons [of "a XOR z"] Cons [of "0 XOR z"] by (simp add: xor.assoc)
  qed simp
  show ?thesis using f [of "foldl (XOR) 0 xs" ys] by (simp add: xor_bytes_def)
qed

lemma xor_bytes_single [simp]: "xor_bytes [] = 0" "xor_bytes [b] = b"
  by (simp_all add: xor_bytes_def)

text \<open>Changing one byte of a message changes its checksum.\<close>

lemma xor_bytes_update:
  assumes "i < length bs"
  shows "xor_bytes (bs[i := b]) = xor_bytes bs XOR (bs ! i) XOR b"
proof -
  have "bs = take i bs @ [bs ! i] @ drop (Suc i) bs" using assms id_take_nth_drop by fastforce
  then have 1: "xor_bytes bs = xor_bytes (take i bs) XOR (bs ! i) XOR xor_bytes (drop (Suc i) bs)"
    by (metis xor_bytes_append xor_bytes_single(2) xor.assoc)
  have "bs[i := b] = take i bs @ [b] @ drop (Suc i) bs" using assms by (simp add: upd_conv_take_nth_drop)
  then have 2: "xor_bytes (bs[i := b]) = xor_bytes (take i bs) XOR b XOR xor_bytes (drop (Suc i) bs)"
    by (simp only: xor_bytes_append xor_bytes_single xor.assoc)
  have "(X XOR Y XOR Z) XOR Y XOR b = X XOR b XOR Z" for X Y Z :: u8
    by (rule bit_eqI) (auto simp: bit_xor_iff)
  then show ?thesis unfolding 1 2 by simp
qed

lemma xor_eq_0_iff [simp]: "(a::'a::len word) XOR b = 0 \<longleftrightarrow> a = b"
proof
  assume "a XOR b = 0"
  then have "(a XOR b) XOR b = b" by simp
  then show "a = b" by (simp add: xor.assoc)
qed simp

text \<open>The sum over a whole message is zero exactly when its last byte is the sum of the others.\<close>

lemma xor_bytes_last:
  assumes "bs \<noteq> []" shows "xor_bytes (take (length bs - 1) bs) = bs ! (length bs - 1) \<longleftrightarrow> xor_bytes bs = 0"
proof -
  have "bs = take (length bs - 1) bs @ [bs ! (length bs - 1)]"
    using assms append_butlast_last_id [of bs] by (simp add: butlast_conv_take last_conv_nth)
  then have "xor_bytes bs = xor_bytes (take (length bs - 1) bs) XOR bs ! (length bs - 1)"
    by (metis xor_bytes_append xor_bytes_single(2))
  then show ?thesis by simp
qed

lemma xor_bytes_change: "i < length bs \<Longrightarrow> b \<noteq> bs ! i \<Longrightarrow> xor_bytes bs = 0 \<Longrightarrow> xor_bytes (bs[i := b]) \<noteq> 0"
  by (simp add: xor_bytes_update)

text \<open>The size and the first byte of a struct sent.\<close>

lemma warning_encode_ends:
  assumes "warning_ok f"
  shows "length (warning_encode f) = 16" "warning_encode f ! 0 = wf_msg_type f"
  using assms by (simp_all add: warning_encode_def warning_ok_def nth_append)

lemma warning_encode_crc:
  assumes "warning_ok f"
  shows "xor_bytes (warning_encode (f\<lparr>wf_crc := ble_warning_crc f\<rparr>)) = 0"
proof -
  have "warning_encode (f\<lparr>wf_crc := c\<rparr>) = take 15 (warning_encode f) @ [c]" for c
    using assms by (simp add: warning_encode_def warning_ok_def)
  then show ?thesis by (simp add: ble_warning_crc_def BLE_WARNING_FRAME_SIZE_def xor_bytes_append)
qed

end
