(* ===== verification/Printf.thy ===== *)
theory Printf
  imports Sky_Prelude
begin

text \<open>
  The parts of C formatted output and number parsing the code uses: \<open>%d\<close>, \<open>%u\<close>, \<open>%x\<close> with
  zero padding, \<open>%.kf\<close> (correctly rounded, ties to even), \<open>snprintf\<close>'s truncation,
  \<open>strtoul\<close> in base 16 and \<open>atoi\<close>.
\<close>

section \<open>Digits\<close>

function digits_base :: "int \<Rightarrow> int \<Rightarrow> int list" where
  "digits_base b n = (if n < b \<or> b < 2 then [n] else digits_base b (n div b) @ [n mod b])"
  by auto
termination
proof (relation "measure (\<lambda>(b, n). nat n)")
  fix b n :: int
  assume "\<not> (n < b \<or> b < 2)"
  then show "((b, n div b), b, n) \<in> measure (\<lambda>(b, n). nat n)"
    using int_div_less_self [of n b] by (simp add: nat_less_eq_zless)
qed simp

declare digits_base.simps [simp del]

definition digit_char :: "int \<Rightarrow> char" where
  "digit_char d = ''0123456789abcdef'' ! nat d"

definition digit_val :: "char \<Rightarrow> int option" where
  "digit_val ch = (let c = of_char ch :: int in
     if 48 \<le> c \<and> c \<le> 57 then Some (c - 48)
     else if 97 \<le> c \<and> c \<le> 102 then Some (c - 87)
     else if 65 \<le> c \<and> c \<le> 70 then Some (c - 55) else None)"

definition show_base :: "int \<Rightarrow> int \<Rightarrow> string" where
  "show_base b n = map digit_char (digits_base b n)"

definition pad0 :: "nat \<Rightarrow> string \<Rightarrow> string" where
  "pad0 k s = replicate (k - length s) (CHR ''0'') @ s"

text \<open>\<open>%u\<close> and \<open>%d\<close>, \<open>%0kx\<close>, \<open>%.kf\<close>.\<close>

definition show_dec :: "int \<Rightarrow> string" where
  "show_dec n = (if n < 0 then CHR ''-'' # show_base 10 (- n) else show_base 10 n)"

definition show_hex :: "nat \<Rightarrow> int \<Rightarrow> string" where
  "show_hex k n = pad0 k (show_base 16 n)"

definition show_fixed :: "nat \<Rightarrow> ('e, 'f) fp \<Rightarrow> string" where
  "show_fixed k x = (case x of
     FNaN \<Rightarrow> ''nan''
   | FInf s \<Rightarrow> (if s then ''-inf'' else ''inf'')
   | Fin s m e \<Rightarrow>
       (let v = rne (scale2 (m * 10 ^ k) e) (scale2 1 (- e))
        in (if s then ''-'' else '''') @ show_base 10 (v div 10 ^ k)
           @ (if k = 0 then '''' else CHR ''.'' # pad0 k (show_base 10 (v mod 10 ^ k)))))"

text \<open>A field of a given width: \<open>%10.5f\<close> pads on the left, \<open>%-7s\<close> on the right.\<close>

definition padl :: "nat \<Rightarrow> string \<Rightarrow> string" where
  "padl k s = replicate (k - length s) (CHR '' '') @ s"

definition padr :: "nat \<Rightarrow> string \<Rightarrow> string" where
  "padr k s = s @ replicate (k - length s) (CHR '' '')"

text \<open>\<open>%u\<close> of a 32-bit counter.\<close>

definition show_u32 :: "u32 \<Rightarrow> string" where
  "show_u32 n = show_dec (uint n)"

text \<open>
  \<open>snprintf(buf, cap, ...)\<close> of a text: the contents of the buffer and the length the whole
  text would need.
\<close>

definition snprintf :: "nat \<Rightarrow> string \<Rightarrow> string \<times> nat" where
  "snprintf cap s = (take (cap - 1) s, length s)"

text \<open>A text in double quotes, and an object member \<open>"key":value\<close>.\<close>

definition quoted :: "string \<Rightarrow> string" where
  "quoted s = CHR 0x22 # s @ [CHR 0x22]"

definition member_of :: "string \<Rightarrow> string \<Rightarrow> string" where
  "member_of key v = quoted key @ CHR '':'' # v"

section \<open>Parsing\<close>

definition is_space :: "char \<Rightarrow> bool" where
  "is_space c \<longleftrightarrow> c = CHR '' '' \<or> (9 \<le> (of_char c :: int) \<and> (of_char c :: int) \<le> 13)"

definition is_digit_in :: "int \<Rightarrow> char \<Rightarrow> bool" where
  "is_digit_in b c \<longleftrightarrow> (case digit_val c of None \<Rightarrow> False | Some d \<Rightarrow> d < b)"

definition parse_digits :: "int \<Rightarrow> string \<Rightarrow> int" where
  "parse_digits b s = foldl (\<lambda>v c. v * b + the (digit_val c)) 0 (takeWhile (is_digit_in b) s)"

definition split_sign :: "string \<Rightarrow> bool \<times> string" where
  "split_sign s = (case dropWhile is_space s of [] \<Rightarrow> (False, [])
     | c # cs \<Rightarrow> if c = CHR ''-'' then (True, cs) else if c = CHR ''+'' then (False, cs) else (False, c # cs))"

text \<open>\<open>strtoul(s, NULL, 16)\<close>, before the conversion to the result's width.\<close>

definition strtoul16 :: "string \<Rightarrow> int" where
  "strtoul16 s = (let (neg, t) = split_sign s;
       u = (case t of a # x # h # r \<Rightarrow>
              if a = CHR ''0'' \<and> (x = CHR ''x'' \<or> x = CHR ''X'') \<and> is_digit_in 16 h then h # r else t
            | _ \<Rightarrow> t);
       v = parse_digits 16 u
     in if neg then - v else v)"

definition atoi :: "string \<Rightarrow> int" where
  "atoi s = (let (neg, t) = split_sign s; v = parse_digits 10 t in if neg then - v else v)"

lemmas printf_defs [sky_eval] = padl_def padr_def show_u32_def digit_char_def digit_val_def show_base_def pad0_def show_dec_def
  show_hex_def show_fixed_def snprintf_def quoted_def member_of_def is_space_def is_digit_in_def parse_digits_def split_sign_def
  strtoul16_def atoi_def

section \<open>Facts\<close>

lemma digits_base_range: "2 \<le> b \<Longrightarrow> 0 \<le> n \<Longrightarrow> d \<in> set (digits_base b n) \<Longrightarrow> 0 \<le> d \<and> d < b"
proof (induction b n rule: digits_base.induct)
  case (1 b n)
  then show ?case
    by (subst (asm) digits_base.simps) (auto split: if_splits simp: pos_imp_zdiv_nonneg_iff)
qed

lemma digits_base_value:
  "2 \<le> b \<Longrightarrow> 0 \<le> n \<Longrightarrow> foldl (\<lambda>v d. v * b + d) 0 (digits_base b n) = n"
proof (induction b n rule: digits_base.induct)
  case (1 b n)
  then show ?case
    by (subst digits_base.simps) (auto simp: pos_imp_zdiv_nonneg_iff)
qed

lemma int_div_pos_less: "0 < (b::int) \<Longrightarrow> n < c * b \<Longrightarrow> n div b < c"
proof (rule ccontr)
  assume b: "0 < b" and n: "n < c * b" and "\<not> n div b < c"
  then have "c * b \<le> (n div b) * b" by (intro mult_right_mono) simp_all
  also have "\<dots> \<le> n" using b by (metis minus_mod_eq_div_mult diff_ge_0_iff_ge pos_mod_sign cancel_comm_monoid_add_class.diff_cancel add_diff_cancel_left' le_add_same_cancel1 div_mult_mod_eq)
  finally show False using n by simp
qed

lemma length_digits_base:
  "2 \<le> b \<Longrightarrow> 0 \<le> n \<Longrightarrow> n < b ^ Suc k \<Longrightarrow> length (digits_base b n) \<le> Suc k"
proof (induction k arbitrary: n)
  case 0
  then show ?case by (subst digits_base.simps) simp
next
  case (Suc k)
  show ?case
  proof (cases "n < b")
    case True
    then show ?thesis by (subst digits_base.simps) simp
  next
    case False
    have "n div b < b ^ Suc k"
      using Suc.prems int_div_pos_less [of b n "b ^ Suc k"] by (simp add: mult.commute)
    moreover have "0 \<le> n div b" using Suc.prems by (simp add: pos_imp_zdiv_nonneg_iff)
    ultimately have "length (digits_base b (n div b)) \<le> Suc k" using Suc.IH Suc.prems(1) by blast
    then show ?thesis using False Suc.prems(1) by (subst digits_base.simps) simp
  qed
qed

lemma digit_cases:
  assumes "0 \<le> (d::int)" "d < 16"
  obtains "d = 0" | "d = 1" | "d = 2" | "d = 3" | "d = 4" | "d = 5" | "d = 6" | "d = 7"
    | "d = 8" | "d = 9" | "d = 10" | "d = 11" | "d = 12" | "d = 13" | "d = 14" | "d = 15"
proof -
  have "d \<in> {0, 1, 2, 3, 4, 5, 6, 7, 8, 9, 10, 11, 12, 13, 14, 15}"
    using assms by (simp; presburger)
  then show thesis using that by blast
qed

lemma digit_val_char [simp]: "0 \<le> d \<Longrightarrow> d < 16 \<Longrightarrow> digit_val (digit_char d) = Some d"
  by (erule (1) digit_cases) (simp_all add: digit_char_def digit_val_def)

lemma digit_char_plain [simp]:
  "0 \<le> d \<Longrightarrow> d < 16 \<Longrightarrow> \<not> is_space (digit_char d)"
  "0 \<le> d \<Longrightarrow> d < 16 \<Longrightarrow> digit_char d \<noteq> CHR ''-''"
  "0 \<le> d \<Longrightarrow> d < 16 \<Longrightarrow> digit_char d \<noteq> CHR ''+''"
  "0 \<le> d \<Longrightarrow> d < 16 \<Longrightarrow> digit_char d \<noteq> CHR ''x''"
  "0 \<le> d \<Longrightarrow> d < 16 \<Longrightarrow> digit_char d \<noteq> CHR ''X''"
  by (erule (1) digit_cases; simp add: digit_char_def is_space_def)+

lemma strtoul16_two:
  assumes "0 \<le> a" "a < 16" "0 \<le> b" "b < 16"
  shows "strtoul16 [digit_char a, digit_char b] = 16 * a + b"
  using assms
  by (simp add: strtoul16_def split_sign_def parse_digits_def is_digit_in_def Let_def)

lemma length_pad0: "length s \<le> k \<Longrightarrow> length (pad0 k s) = k"
  by (simp add: pad0_def)

end
