(* ===== verification/Collision_Tracker.thy ===== *)
theory Collision_Tracker
  imports Collision_Geometry Missile Ble_Packet Printf
begin

text \<open>
  The stateful part of \<open>collision.c\<close>: the table of tracked pairs with its transition, CRASH lock
  and re-send logic, the JSON line and the BLE frames, and \<open>work_handler\<close>, one run every
  200 ms.  What the handler sends is a list of events; whether the BLE link is up is an
  argument.  One reading of the clock stands for the handler's several.
\<close>

section \<open>State\<close>

definition MAX_TRACKED :: nat where [sky_eval]: "MAX_TRACKED = 32"
definition COLLISION_TICK_MS :: ms where [sky_eval]: "COLLISION_TICK_MS = 200"
definition GHOST_ICAO :: string where [sky_eval]: "GHOST_ICAO = ''gh05t1''"

record tracked_pair =
  tp_icao_a :: string
  tp_icao_b :: string
  tp_level :: collision_level
  tp_diversion :: string
  tp_last_ble_send_ms :: ms
  tp_crash_until_ms :: ms

record collision_stats =
  cs_ticks :: u32
  cs_pairs_checked :: u32
  cs_advisory_count :: u32
  cs_warning_count :: u32
  cs_frames_emitted :: u32

definition collision_stats_zero :: collision_stats where
  [sky_eval]: "collision_stats_zero = \<lparr>cs_ticks = 0, cs_pairs_checked = 0, cs_advisory_count = 0,
     cs_warning_count = 0, cs_frames_emitted = 0\<rparr>"

text \<open>\<open>s_tracked\<close> up to \<open>s_tracked_n\<close> is a list; \<open>s_pair_diversion\<close> keeps its 32 elements.\<close>

record collision =
  c_tracked :: "tracked_pair list"
  c_pair_diversion :: "collision_diversion list"
  c_stats :: collision_stats
  c_due :: "ms option"
  c_inject_active :: bool
  c_inject_due :: "ms option"
  c_inj_a_lat :: f64
  c_inj_a_lon :: f64
  c_inj_b_lat :: f64
  c_inj_b_lon :: f64
  c_inj_last_step_ms :: ms
  c_ghost_active :: bool
  c_ghost_due :: "ms option"
  c_ghost_lat :: f64
  c_ghost_lon :: f64
  c_ghost_v_north_mps :: f64
  c_ghost_v_east_mps :: f64
  c_ghost_hdg_deg :: f64
  c_ghost_alt_ft :: s32
  c_ghost_last_step_ms :: ms

datatype col_event = UsbLine string | BleSend ble_warning_frame

section \<open>Tracked pairs\<close>

definition pair_key :: "string \<Rightarrow> string \<Rightarrow> string \<times> string" where
  "pair_key a b = (if a \<le> b then (a, b) else (b, a))"

definition find_tracked :: "string \<Rightarrow> string \<Rightarrow> tracked_pair list \<Rightarrow> nat option" where
  "find_tracked lo hi ts = find_index (\<lambda>t. strncmp_eq AIRCRAFT_ICAO_BUF_LEN (tp_icao_a t) lo
     \<and> strncmp_eq AIRCRAFT_ICAO_BUF_LEN (tp_icao_b t) hi) ts"

definition tracked_remove :: "nat \<Rightarrow> collision \<Rightarrow> collision" where
  "tracked_remove i c = (if length (c_tracked c) \<le> i then c else c\<lparr>c_tracked := delete_at i (c_tracked c)\<rparr>)"

definition update_pair :: "nat \<Rightarrow> (tracked_pair \<Rightarrow> tracked_pair) \<Rightarrow> collision \<Rightarrow> collision" where
  "update_pair k f c = c\<lparr>c_tracked := (c_tracked c)[k := f (c_tracked c ! k)]\<rparr>"

section \<open>Frames and lines\<close>

text \<open>
  The characters of a string's buffer; past the end they are NUL.  So they are in the buffers of the
  records and rows, which \<open>strncpy\<close> and \<open>memset\<close> fill with zeros, and the addresses of real
  aircraft have all six characters.  (Of an operator's argument of four characters the C code would
  read one byte behind the terminator.)
\<close>

definition char_at :: "string \<Rightarrow> nat \<Rightarrow> char" where
  "char_at s i = (if i < length s then s ! i else CHR 0x00)"

definition pack_icao24_bytes :: "string \<Rightarrow> u8 list" where
  "pack_icao24_bytes s = map (\<lambda>i. word_of_int (strtoul16
     (takeWhile (\<lambda>c. c \<noteq> CHR 0x00) [char_at s (i * 2), char_at s (i * 2 + 1)]))) [0, 1, 2]"

definition with_crc :: "ble_warning_frame \<Rightarrow> ble_warning_frame" where
  "with_crc w = w\<lparr>wf_crc := ble_warning_crc w\<rparr>"

definition send_ble_warning :: "bool \<Rightarrow> ms \<Rightarrow> aircraft_db \<Rightarrow> string \<Rightarrow> string \<Rightarrow> col_event list" where
  "send_ble_warning conn now db lo hi =
     (if \<not> conn then []
      else let is_sim = (\<lambda>k. case aircraft_db_lookup k db of Inr a \<Rightarrow> ac_source a = SRC_BLE_SIM | Inl _ \<Rightarrow> False);
               other = (if is_sim lo then hi else lo)
           in [BleSend (with_crc (warning_zero\<lparr>wf_msg_type := BLE_WARN_MSG_COLLISION, wf_icao := pack_icao24_bytes other,
                 wf_severity := BLE_WARN_SEV_WARNING, wf_timestamp := word_of_int now\<rparr>))])"

definition send_ble_crash :: "bool \<Rightarrow> ms \<Rightarrow> string \<Rightarrow> col_event list" where
  "send_ble_crash conn now other =
     (if \<not> conn then []
      else [BleSend (with_crc (warning_zero\<lparr>wf_msg_type := BLE_WARN_MSG_CRASH, wf_icao := pack_icao24_bytes other,
              wf_severity := BLE_WARN_SEV_URGENT, wf_timestamp := word_of_int now\<rparr>))])"

fun diversion_fields :: "collision_diversion \<Rightarrow> ble_warning_frame \<Rightarrow> ble_warning_frame" where
  "diversion_fields DIVERSION_LEFT w = w\<lparr>wf_hdg_delta := word_of_int (- 30)\<rparr>"
| "diversion_fields DIVERSION_RIGHT w = w\<lparr>wf_hdg_delta := word_of_int 30\<rparr>"
| "diversion_fields DIVERSION_CLIMB w = w\<lparr>wf_alt := word_of_int 1000\<rparr>"
| "diversion_fields DIVERSION_DESCEND w = w\<lparr>wf_alt := word_of_int (- 1000)\<rparr>"
| "diversion_fields DIVERSION_RTB w = w\<lparr>wf_hdg_delta := word_of_int 127\<rparr>"
| "diversion_fields DIVERSION_HOLD w = w\<lparr>wf_hdg_delta := word_of_int (- 127)\<rparr>"

definition send_ble_diversion :: "bool \<Rightarrow> ms \<Rightarrow> string \<Rightarrow> collision_diversion \<Rightarrow> col_event list" where
  "send_ble_diversion conn now other d =
     (if \<not> conn then []
      else [BleSend (with_crc (diversion_fields d (warning_zero\<lparr>wf_msg_type := BLE_WARN_MSG_DIVERSION,
              wf_icao := pack_icao24_bytes other, wf_severity := BLE_WARN_SEV_ADVISORY,
              wf_timestamp := word_of_int now\<rparr>)))])"

text \<open>The JSON line; \<open>diversion\<close> is empty for NULL.\<close>

definition collision_line :: "ms \<Rightarrow> string \<Rightarrow> string \<Rightarrow> collision_level \<Rightarrow> f64 approach \<Rightarrow> string \<Rightarrow> string" where
  "collision_line now lo hi lvl a diversion =
     (let act_field = fst (snprintf 40 (CHR '','' # member_of ''actual_sep_m'' (show_fixed 0 (ap_cur_sep_m a))));
          alt_field = (if ap_alt_valid a
            then fst (snprintf 40 (CHR '','' # member_of ''alt_diff_ft'' (show_dec (sint (ap_alt_diff_ft a))))) else []);
          div_field = (if diversion \<noteq> []
            then fst (snprintf 40 (CHR '','' # member_of ''diversion'' (quoted diversion))) else [])
      in ''{'' @ member_of ''type'' (quoted ''collision'') @ '','' @ member_of ''icao_a'' (quoted lo)
         @ '','' @ member_of ''icao_b'' (quoted hi) @ '','' @ member_of ''level'' (quoted (collision_level_str lvl))
         @ '','' @ member_of ''tca_s'' (show_fixed 1 (if isfinite (ap_tca_s a) then ap_tca_s a else fp_lit 0 1))
         @ '','' @ member_of ''min_sep_m'' (show_fixed 0 (ap_min_sep_m a))
         @ act_field @ alt_field @ div_field
         @ '','' @ member_of ''ts'' (show_fixed 3 (fp_of_int now / fp_lit 1000 1 :: f64)) @ ''}'')"

section \<open>One pair of one tick\<close>

text \<open>The local variables of \<open>work_handler\<close> and the static state it changes.\<close>

record tick =
  tk_col :: collision
  tk_missile :: missile
  tk_seen :: "bool list"
  tk_pairs :: u32
  tk_adv :: u32
  tk_warn :: u32
  tk_out :: "col_event list"

definition emit_collision ::
  "ms \<Rightarrow> string \<Rightarrow> string \<Rightarrow> collision_level \<Rightarrow> f64 approach \<Rightarrow> string \<Rightarrow> tick \<Rightarrow> tick" where
  "emit_collision now lo hi lvl a diversion s =
     (let line = collision_line now lo hi lvl a diversion; c = tk_col s in
      if 320 \<le> length line then s
      else s\<lparr>tk_out := tk_out s @ [UsbLine line],
             tk_col := c\<lparr>c_stats := (c_stats c)\<lparr>cs_frames_emitted := cs_frames_emitted (c_stats c) + 1\<rparr>\<rparr>\<rparr>)"

definition send_events :: "col_event list \<Rightarrow> tick \<Rightarrow> tick" where
  "send_events es s = s\<lparr>tk_out := tk_out s @ es\<rparr>"

definition mark_seen :: "nat \<Rightarrow> tick \<Rightarrow> tick" where
  "mark_seen k s = s\<lparr>tk_seen := (tk_seen s)[k := True]\<rparr>"

definition crash_locked :: "ms \<Rightarrow> nat option \<Rightarrow> collision \<Rightarrow> bool" where
  "crash_locked now tk c = (case tk of None \<Rightarrow> False | Some k \<Rightarrow> now < tp_crash_until_ms (c_tracked c ! k))"

definition count_level :: "collision_level \<Rightarrow> tick \<Rightarrow> tick" where
  "count_level lvl s = (if lvl = COLLISION_WARNING \<or> lvl = COLLISION_CRASH
     then s\<lparr>tk_warn := tk_warn s + 1\<rparr> else s\<lparr>tk_adv := tk_adv s + 1\<rparr>)"

text \<open>
  The tracked entry of the pair (\<open>tp\<close>, absent when the table is full), its previous level, and
  the state after the entry is updated or added and the line is emitted.
\<close>

definition record_pair ::
  "ms \<Rightarrow> string \<Rightarrow> string \<Rightarrow> collision_level \<Rightarrow> f64 approach \<Rightarrow> nat option \<Rightarrow> tick
     \<Rightarrow> nat option \<times> collision_level \<times> tick" where
  "record_pair now lo hi lvl app tk s =
     (case tk of
        Some k \<Rightarrow>
          (let old = c_tracked (tk_col s) ! k
           in (Some k, tp_level old,
               emit_collision now lo hi lvl app (tp_diversion old)
                 (mark_seen k (s\<lparr>tk_col := update_pair k (\<lambda>t. t\<lparr>tp_level := lvl\<rparr>) (tk_col s)\<rparr>))))
      | None \<Rightarrow>
          (let c = tk_col s; n = length (c_tracked c)
           in if n < MAX_TRACKED
              then (Some n, COLLISION_CLEAR,
                    emit_collision now lo hi lvl app []
                      (mark_seen n (s\<lparr>tk_col := c\<lparr>c_tracked := c_tracked c @
                         [\<lparr>tp_icao_a = strncpy0 (AIRCRAFT_ICAO_BUF_LEN - 1) lo,
                           tp_icao_b = strncpy0 (AIRCRAFT_ICAO_BUF_LEN - 1) hi, tp_level = lvl,
                           tp_diversion = [], tp_last_ble_send_ms = 0, tp_crash_until_ms = 0\<rparr>]\<rparr>\<rparr>)))
              else (None, COLLISION_CLEAR, s)))"

text \<open>Which row of the pair is the simulator's, if any: the first or the second.\<close>

datatype sim_side = SimFirst | SimSecond | NoSim

definition is_ble_sim :: "aircraft_db \<Rightarrow> string \<Rightarrow> bool" where
  "is_ble_sim db k = (case aircraft_db_lookup k db of Inr a \<Rightarrow> ac_source a = SRC_BLE_SIM | Inl _ \<Rightarrow> False)"

definition sim_side_of :: "aircraft_db \<Rightarrow> f64 snap_row \<Rightarrow> f64 snap_row \<Rightarrow> sim_side" where
  "sim_side_of db a b = (if is_ble_sim db (sr_icao a) then SimFirst
     else if is_ble_sim db (sr_icao b) then SimSecond else NoSim)"

fun sim_and_threat :: "sim_side \<Rightarrow> 'r \<Rightarrow> 'r \<Rightarrow> ('r \<times> 'r) option" where
  "sim_and_threat SimFirst a b = Some (a, b)"
| "sim_and_threat SimSecond a b = Some (b, a)"
| "sim_and_threat NoSim a b = None"

text \<open>On a transition the picked diversion is stored with the pair and in \<open>s_pair_diversion\<close>.\<close>

definition cache_diversion :: "collision_diversion \<Rightarrow> nat \<Rightarrow> nat option \<Rightarrow> collision \<Rightarrow> collision" where
  "cache_diversion d tp tk c =
     (let c1 = update_pair tp (\<lambda>t. t\<lparr>tp_diversion := strncpy0 11 (collision_diversion_str d)\<rparr>) c
      in case tk of
           Some k \<Rightarrow> c1\<lparr>c_pair_diversion := (c_pair_diversion c1)[k := d]\<rparr>
         | None \<Rightarrow> if 0 < length (c_tracked c1)
                   then c1\<lparr>c_pair_diversion := (c_pair_diversion c1)[length (c_tracked c1) - 1 := d]\<rparr>
                   else c1)"

text \<open>The frames to the simulator: the cached diversion, and the warning from WARNING on.\<close>

definition send_to_sim ::
  "bool \<Rightarrow> ms \<Rightarrow> aircraft_db \<Rightarrow> string \<Rightarrow> string \<Rightarrow> collision_level \<Rightarrow> string \<Rightarrow> nat \<Rightarrow> tick \<Rightarrow> tick" where
  "send_to_sim conn now db lo hi lvl threat tp s =
     (let c = tk_col s;
          d = (case find_tracked lo hi (c_tracked c) of Some k \<Rightarrow> c_pair_diversion c ! k | None \<Rightarrow> DIVERSION_HOLD);
          s1 = send_events (send_ble_diversion conn now threat d) s;
          s2 = (if lvl = COLLISION_WARNING \<or> lvl = COLLISION_CRASH
                then send_events (send_ble_warning conn now db lo hi) s1 else s1)
      in s2\<lparr>tk_col := update_pair tp (\<lambda>t. t\<lparr>tp_last_ble_send_ms := now\<rparr>) (tk_col s2)\<rparr>)"

definition stop_impactor :: "string \<Rightarrow> string \<Rightarrow> tick \<Rightarrow> tick" where
  "stop_impactor lo hi s =
     (let s1 = (if strncmp_eq AIRCRAFT_ICAO_BUF_LEN lo MISSILE_ICAO \<or> strncmp_eq AIRCRAFT_ICAO_BUF_LEN hi MISSILE_ICAO
                then s\<lparr>tk_missile := snd (missile_cancel (tk_missile s))\<rparr> else s)
      in if strncmp_eq AIRCRAFT_ICAO_BUF_LEN lo GHOST_ICAO \<or> strncmp_eq AIRCRAFT_ICAO_BUF_LEN hi GHOST_ICAO
         then s1\<lparr>tk_col := (tk_col s1)\<lparr>c_ghost_active := False\<rparr>\<rparr> else s1)"

definition crash_other :: "sim_side \<Rightarrow> string \<Rightarrow> f64 snap_row \<Rightarrow> f64 snap_row \<Rightarrow> string" where
  "crash_other side lo a b = (case side of SimFirst \<Rightarrow> sr_icao b | SimSecond \<Rightarrow> sr_icao a | NoSim \<Rightarrow> lo)"

definition enter_crash :: "bool \<Rightarrow> ms \<Rightarrow> string \<Rightarrow> string \<Rightarrow> string \<Rightarrow> nat option \<Rightarrow> tick \<Rightarrow> tick" where
  "enter_crash conn now lo hi other tp s =
     (let s1 = send_events (send_ble_crash conn now other) s;
          s2 = (case tp of None \<Rightarrow> s1
                | Some k \<Rightarrow> s1\<lparr>tk_col := update_pair k (\<lambda>t. t\<lparr>tp_crash_until_ms := now + 15000\<rparr>) (tk_col s1)\<rparr>)
      in stop_impactor lo hi s2)"

text \<open>The body of the two loops, from \<open>pairs++\<close> on.\<close>

definition alert_pair ::
  "libm \<Rightarrow> bool \<Rightarrow> ms \<Rightarrow> aircraft_db \<Rightarrow> f64 snap_row \<Rightarrow> f64 snap_row \<Rightarrow> collision_level \<Rightarrow> nat option \<Rightarrow> tick \<Rightarrow> tick" where
  "alert_pair lm conn now db a b lvl tk s0 =
     (let app = closest_approach (f64_num lm) a b; (lo, hi) = pair_key (sr_icao a) (sr_icao b);
          (tp, prev_level, s1) = record_pair now lo hi lvl app tk (count_level lvl s0);
          side = sim_side_of db a b;
          transition = (prev_level = COLLISION_CLEAR \<and> lvl \<noteq> COLLISION_CLEAR);
          s3 = (case (tp, sim_and_threat side a b) of
                  (Some k, Some (sim, thr)) \<Rightarrow>
                    (let s2 = (if transition
                               then s1\<lparr>tk_col := cache_diversion (pick_diversion (f64_num lm) sim thr) k tk (tk_col s1)\<rparr>
                               else s1);
                         stale_send = (3000 < now - tp_last_ble_send_ms (c_tracked (tk_col s2) ! k))
                     in if transition \<or> stale_send
                        then send_to_sim conn now db lo hi lvl (sr_icao thr) k s2 else s2)
                | _ \<Rightarrow> s1)
      in if lvl = COLLISION_CRASH \<and> prev_level \<noteq> COLLISION_CRASH
         then enter_crash conn now lo hi (crash_other side lo a b) tp s3 else s3)"

definition pair_step ::
  "libm \<Rightarrow> bool \<Rightarrow> ms \<Rightarrow> aircraft_db \<Rightarrow> tick \<Rightarrow> f64 snap_row \<times> f64 snap_row \<Rightarrow> tick" where
  "pair_step lm conn now db s0 ab = (case ab of (a, b) \<Rightarrow>
     let s = s0\<lparr>tk_pairs := tk_pairs s0 + 1\<rparr>;
         lvl = pair_level (f64_num lm) a b; (lo, hi) = pair_key (sr_icao a) (sr_icao b);
         tk = find_tracked lo hi (c_tracked (tk_col s))
     in if lvl = COLLISION_CLEAR then s
        else if crash_locked now tk (tk_col s) then mark_seen (the tk) s
        else alert_pair lm conn now db a b lvl tk s)"

section \<open>The tick\<close>

text \<open>All pairs \<open>i < j\<close> of rows with a velocity, in the order of the loops.\<close>

fun row_pairs :: "'a snap_row list \<Rightarrow> ('a snap_row \<times> 'a snap_row) list" where
  "row_pairs [] = []"
| "row_pairs (r # rs) = (if sr_v_valid r then map (Pair r) (filter sr_v_valid rs) else []) @ row_pairs rs"

definition clear_approach :: "f64 approach" where
  "clear_approach = \<lparr>ap_tca_s = FInf False, ap_min_sep_m = fp_lit 0 1, ap_cur_sep_m = fp_lit 0 1,
     ap_diverging = True, ap_alt_diff_ft = 0, ap_alt_valid = False\<rparr>"

text \<open>The last loop: \<open>clear_sweep now n\<close> looks at the entries \<open>n - 1\<close> down to 0.\<close>

fun clear_sweep :: "ms \<Rightarrow> nat \<Rightarrow> tick \<Rightarrow> tick" where
  "clear_sweep now 0 s = s"
| "clear_sweep now (Suc i) s =
     clear_sweep now i
       (if \<not> tk_seen s ! i
        then let t = c_tracked (tk_col s) ! i;
                 s1 = emit_collision now (tp_icao_a t) (tp_icao_b t) COLLISION_CLEAR clear_approach [] s
             in s1\<lparr>tk_col := tracked_remove i (tk_col s1)\<rparr>
        else s)"

definition tick_start :: "collision \<Rightarrow> missile \<Rightarrow> tick" where
  "tick_start c m = \<lparr>tk_col = c\<lparr>c_stats := (c_stats c)\<lparr>cs_ticks := cs_ticks (c_stats c) + 1\<rparr>\<rparr>, tk_missile = m,
     tk_seen = replicate MAX_TRACKED False, tk_pairs = 0, tk_adv = 0, tk_warn = 0, tk_out = []\<rparr>"

definition tick_finish :: "ms \<Rightarrow> tick \<Rightarrow> collision \<times> missile \<times> col_event list" where
  "tick_finish now s =
     (let c = tk_col s; st = c_stats c
      in (c\<lparr>c_stats := st\<lparr>cs_pairs_checked := cs_pairs_checked st + tk_pairs s,
                           cs_advisory_count := cs_advisory_count st + tk_adv s,
                           cs_warning_count := cs_warning_count st + tk_warn s\<rparr>,
            c_due := Some (now + COLLISION_TICK_MS)\<rparr>, tk_missile s, tk_out s))"

definition work_handler ::
  "libm \<Rightarrow> bool \<Rightarrow> ms \<Rightarrow> aircraft_db \<Rightarrow> collision \<times> missile \<Rightarrow> collision \<times> missile \<times> col_event list" where
  "work_handler lm conn now db cm = (case cm of (c, m) \<Rightarrow>
     let s1 = foldl (pair_step lm conn now db) (tick_start c m) (row_pairs (snapshot lm db))
     in tick_finish now (clear_sweep now (length (c_tracked (tk_col s1))) s1))"

definition collision_init :: "ms \<Rightarrow> collision \<Rightarrow> collision" where
  "collision_init now c = c\<lparr>c_stats := collision_stats_zero, c_tracked := [], c_inject_active := False,
     c_ghost_active := False, c_inject_due := None, c_ghost_due := None, c_due := Some (now + COLLISION_TICK_MS)\<rparr>"

definition collision_get_stats :: "collision \<Rightarrow> collision_stats" where
  "collision_get_stats c = c_stats c"

text \<open>The static variables at boot: zero bytes.\<close>

definition collision_boot :: collision where
  "collision_boot = \<lparr>c_tracked = [], c_pair_diversion = replicate MAX_TRACKED DIVERSION_LEFT,
     c_stats = collision_stats_zero, c_due = None, c_inject_active = False, c_inject_due = None,
     c_inj_a_lat = 0, c_inj_a_lon = 0, c_inj_b_lat = 0, c_inj_b_lon = 0, c_inj_last_step_ms = 0,
     c_ghost_active = False, c_ghost_due = None, c_ghost_lat = 0, c_ghost_lon = 0, c_ghost_v_north_mps = 0,
     c_ghost_v_east_mps = 0, c_ghost_hdg_deg = 0, c_ghost_alt_ft = 0, c_ghost_last_step_ms = 0\<rparr>"

lemmas tracker_defs [sky_eval] = pair_key_def find_tracked_def tracked_remove_def update_pair_def char_at_def
  pack_icao24_bytes_def with_crc_def send_ble_warning_def send_ble_crash_def send_ble_diversion_def
  collision_line_def emit_collision_def send_events_def mark_seen_def crash_locked_def count_level_def
  record_pair_def is_ble_sim_def sim_side_of_def cache_diversion_def send_to_sim_def stop_impactor_def
  crash_other_def enter_crash_def alert_pair_def pair_step_def clear_approach_def tick_start_def
  tick_finish_def work_handler_def collision_init_def collision_get_stats_def collision_boot_def

end
