(* ===== verification/Collision_Geometry_Correct.thy ===== *)
theory Collision_Geometry_Correct
  imports Collision_Geometry
begin

text \<open>
  What the formulas of \<open>Collision_Geometry\<close> mean.  On reals \<open>closest_approach\<close> finds the
  minimum of the separation over all future times, and the levels say exactly when two
  aircraft on straight courses come too close.  The vertical gate, the CRASH conditions and
  the diversion cases hold for every number type, so also for doubles.
\<close>

section \<open>Closest approach is the minimum\<close>

definition sep_sq :: "real snap_row \<Rightarrow> real snap_row \<Rightarrow> real \<Rightarrow> real" where
  "sep_sq a b t = (case rel_pos real_num a b of (px, py) \<Rightarrow> case rel_vel a b of (vx, vy) \<Rightarrow>
     (px + vx * t)\<^sup>2 + (py + vy * t)\<^sup>2)"

text \<open>The horizontal distance in metres after \<open>t\<close> seconds on straight courses.\<close>

definition sep_at :: "real snap_row \<Rightarrow> real snap_row \<Rightarrow> real \<Rightarrow> real" where
  "sep_at a b t = sqrt (sep_sq a b t)"

definition same_velocity :: "real snap_row \<Rightarrow> real snap_row \<Rightarrow> bool" where
  "same_velocity a b \<longleftrightarrow> rel_vel a b = (0, 0)"

text \<open>The time at which the distance is smallest, over all times past and future.\<close>

definition t_closest :: "real snap_row \<Rightarrow> real snap_row \<Rightarrow> real" where
  "t_closest a b = (case rel_pos real_num a b of (px, py) \<Rightarrow> case rel_vel a b of (vx, vy) \<Rightarrow>
     - (px * vx + py * vy) / (vx * vx + vy * vy))"

lemma sep_sq_nonneg: "0 \<le> sep_sq a b t"
  by (simp add: sep_sq_def split: prod.splits)

lemma sep_sq_shift:
  assumes "\<not> same_velocity a b"
  obtains k where "0 < k" "\<And>t. sep_sq a b t = sep_sq a b (t_closest a b) + k * (t - t_closest a b)\<^sup>2"
proof -
  obtain px py vx vy where p: "rel_pos real_num a b = (px, py)" "rel_vel a b = (vx, vy)" by fastforce
  define k where "k = vx * vx + vy * vy"
  have k: "0 < k" using assms by (auto simp: same_velocity_def p k_def sum_squares_gt_zero_iff)
  define s where "s = t_closest a b"
  have ks: "k * s = - (px * vx + py * vy)" using k by (simp add: s_def t_closest_def p k_def [symmetric])
  have "sep_sq a b t - sep_sq a b s = k * (t - s)\<^sup>2" for t
  proof -
    have "sep_sq a b t - sep_sq a b s = 2 * (px * vx + py * vy) * (t - s) + k * (t * t - s * s)"
      by (simp add: sep_sq_def p k_def power2_eq_square algebra_simps)
    also have "\<dots> = - 2 * (k * s) * (t - s) + k * (t * t - s * s)" by (simp add: ks)
    also have "\<dots> = k * (t - s)\<^sup>2" by (simp add: power2_eq_square algebra_simps)
    finally show ?thesis .
  qed
  then have "sep_sq a b t = sep_sq a b (t_closest a b) + k * (t - t_closest a b)\<^sup>2" for t
    unfolding s_def by (metis add.commute diff_add_cancel)
  with k that show thesis by blast
qed

lemma sep_mono_after:
  assumes "\<not> same_velocity a b" "t_closest a b \<le> t" "t \<le> t'"
  shows "sep_at a b t \<le> sep_at a b t'"
proof -
  obtain k where k: "0 < k" "\<And>t. sep_sq a b t = sep_sq a b (t_closest a b) + k * (t - t_closest a b)\<^sup>2"
    using sep_sq_shift [OF assms(1)] by blast
  have "(t - t_closest a b)\<^sup>2 \<le> (t' - t_closest a b)\<^sup>2" using assms(2,3) by (intro power_mono) auto
  then have "sep_sq a b t \<le> sep_sq a b t'" using k(1) k(2) [of t] k(2) [of t'] by simp
  then show ?thesis by (simp add: sep_at_def)
qed

lemma sep_minimum: "\<not> same_velocity a b \<Longrightarrow> sep_at a b (t_closest a b) \<le> sep_at a b t"
  using sep_sq_shift [of a b] unfolding sep_at_def by (metis le_add_same_cancel1 mult_nonneg_nonneg
      less_imp_le real_sqrt_le_mono zero_le_power2)

lemma closest_approach_real:
  assumes "\<not> same_velocity a b"
  defines "app \<equiv> closest_approach real_num a b"
  shows "ap_diverging app \<longleftrightarrow> t_closest a b \<le> 0"
    and "ap_tca_s app = max 0 (t_closest a b)"
    and "ap_min_sep_m app = sep_at a b (max 0 (t_closest a b))"
    and "ap_cur_sep_m app = sep_at a b 0"
proof -
  obtain px py vx vy where p: "rel_pos real_num a b = (px, py)" "rel_vel a b = (vx, vy)" by fastforce
  have "vx * vx + vy * vy \<noteq> 0" using assms(1) by (auto simp: same_velocity_def p sum_squares_eq_zero_iff)
  then show "ap_diverging app \<longleftrightarrow> t_closest a b \<le> 0" "ap_tca_s app = max 0 (t_closest a b)"
    "ap_min_sep_m app = sep_at a b (max 0 (t_closest a b))" "ap_cur_sep_m app = sep_at a b 0"
    by (auto simp: app_def closest_approach_def p Let_def t_closest_def sep_at_def sep_sq_def power2_eq_square
        max_def not_le)
qed

text \<open>The projected separation is the least over all times from now on, and it is reached.\<close>

lemma min_sep_least:
  assumes "\<not> same_velocity a b" "0 \<le> t"
  shows "ap_min_sep_m (closest_approach real_num a b) \<le> sep_at a b t"
proof (cases "t_closest a b \<le> 0")
  case True
  then show ?thesis using sep_mono_after [OF assms(1) True assms(2)]
    by (simp add: closest_approach_real [OF assms(1)] max_def)
next
  case False
  then show ?thesis using sep_minimum [OF assms(1)] by (simp add: closest_approach_real [OF assms(1)] max_def)
qed

section \<open>Levels on reals\<close>

definition vertically_apart :: "'a snap_row \<Rightarrow> 'a snap_row \<Rightarrow> bool" where
  "vertically_apart a b \<longleftrightarrow> sr_alt_valid a \<and> sr_alt_valid b
     \<and> 1000 <s abs_diff32 (sr_alt_ft a) (sr_alt_ft b)"

lemma vertical_gate_eq: "vertical_gate a b lvl = (if vertically_apart a b then COLLISION_CLEAR else lvl)"
  by (auto simp: vertical_gate_def vertically_apart_def COLLISION_VERTICAL_SEP_FT_def)

lemma crash_upgrade_cases:
  "crash_upgrade nm a b app lvl = lvl \<or> (lvl = COLLISION_WARNING \<and> crash_upgrade nm a b app lvl = COLLISION_CRASH)"
  by (simp add: crash_upgrade_def Let_def)

lemma pair_level_alarm:
  "pair_level nm a b \<in> {COLLISION_WARNING, COLLISION_CRASH} \<longleftrightarrow>
   \<not> vertically_apart a b \<and> classify nm (closest_approach nm a b) = COLLISION_WARNING"
proof -
  have "crash_upgrade nm a b app lvl \<in> {COLLISION_WARNING, COLLISION_CRASH} \<longleftrightarrow> lvl = COLLISION_WARNING"
    if "lvl \<noteq> COLLISION_CRASH" for app lvl
    using crash_upgrade_cases [of nm a b app lvl] that by auto
  moreover have "classify nm app \<noteq> COLLISION_CRASH" for app by (simp add: classify_def)
  ultimately show ?thesis by (simp add: pair_level_def Let_def vertical_gate_eq)
qed

lemma pair_level_advisory:
  "pair_level nm a b = COLLISION_ADVISORY \<longleftrightarrow>
   \<not> vertically_apart a b \<and> classify nm (closest_approach nm a b) = COLLISION_ADVISORY"
  by (auto simp: pair_level_def Let_def vertical_gate_eq crash_upgrade_def)

lemma classify_real:
  assumes "\<not> same_velocity a b"
  shows "classify real_num (closest_approach real_num a b) = COLLISION_WARNING \<longleftrightarrow>
      0 < t_closest a b \<and> t_closest a b < 30 \<and> sep_at a b (t_closest a b) < 500"
    and "classify real_num (closest_approach real_num a b) = COLLISION_ADVISORY \<longleftrightarrow>
      0 < t_closest a b \<and> t_closest a b < 60 \<and> sep_at a b (t_closest a b) < 1000
      \<and> \<not> (t_closest a b < 30 \<and> sep_at a b (t_closest a b) < 500)"
  using closest_approach_real [OF assms] by (auto simp: classify_def thresholds max_def)

lemma close_some_time:
  assumes "\<not> same_velocity a b"
  shows "(\<exists>t. sep_at a b t < d) \<longleftrightarrow> sep_at a b (t_closest a b) < d"
  using sep_minimum [OF assms] by (meson order_le_less_trans)

text \<open>
  Contact, now or within half a second: the horizontal distance now (with the length of a degree
  at the first aircraft's latitude) is below 100 m, or it is below 300 m and will be below 100 m;
  and the altitudes, when both are known, are less than 328 ft apart.
\<close>

definition horiz_now :: "real snap_row \<Rightarrow> real snap_row \<Rightarrow> real" where
  "horiz_now a b = (let dn = (sr_lat b - sr_lat a) / DEG_PER_M_LAT real_num;
       de = (sr_lon b - sr_lon a) / deg_per_m_lon_at real_num (sr_lat a) in sqrt (dn\<^sup>2 + de\<^sup>2))"

definition in_contact :: "real snap_row \<Rightarrow> real snap_row \<Rightarrow> bool" where
  "in_contact a b \<longleftrightarrow>
     (horiz_now a b < 100 \<or> horiz_now a b < 300 \<and> t_closest a b < 1 / 2 \<and> (\<exists>t. sep_at a b t < 100))
     \<and> \<not> (sr_alt_valid a \<and> sr_alt_valid b \<and> \<not> abs_diff32 (sr_alt_ft a) (sr_alt_ft b) <s 328)"

lemma classify_real_eq:
  assumes "\<not> same_velocity a b"
  shows "classify real_num (closest_approach real_num a b) =
    (if t_closest a b \<le> 0 then COLLISION_CLEAR
     else if t_closest a b < 30 \<and> (\<exists>t. sep_at a b t < 500) then COLLISION_WARNING
     else if t_closest a b < 60 \<and> (\<exists>t. sep_at a b t < 1000) then COLLISION_ADVISORY
     else COLLISION_CLEAR)"
  using closest_approach_real [OF assms]
  by (simp add: classify_def thresholds max_def close_some_time [OF assms])

lemma crash_upgrade_real:
  assumes "\<not> same_velocity a b" "0 < t_closest a b"
  shows "crash_upgrade real_num a b (closest_approach real_num a b) COLLISION_WARNING =
    (if in_contact a b then COLLISION_CRASH else COLLISION_WARNING)"
proof -
  note app = closest_approach_real [OF assms(1)]
  have m: "max 0 (t_closest a b) = t_closest a b" using assms(2) by simp
  show ?thesis using assms(2)
    by (simp add: crash_upgrade_def in_contact_def horiz_now_def Let_def thresholds app m close_some_time [OF assms(1)]
        power2_eq_square)
qed

lemma pair_level_real:
  assumes "\<not> same_velocity a b"
  shows "pair_level real_num a b =
    (if vertically_apart a b \<or> t_closest a b \<le> 0 then COLLISION_CLEAR
     else if t_closest a b < 30 \<and> (\<exists>t. sep_at a b t < 500)
       then if in_contact a b then COLLISION_CRASH else COLLISION_WARNING
     else if t_closest a b < 60 \<and> (\<exists>t. sep_at a b t < 1000) then COLLISION_ADVISORY
     else COLLISION_CLEAR)"
proof -
  have other: "crash_upgrade real_num a b app lvl = lvl" if "lvl \<noteq> COLLISION_WARNING" for app lvl
    using that by (simp add: crash_upgrade_def)
  show ?thesis using crash_upgrade_real [OF assms]
    by (cases "t_closest a b \<le> 0"; cases "t_closest a b < 30 \<and> (\<exists>t. sep_at a b t < 500)")
      (auto simp: pair_level_def Let_def vertical_gate_eq classify_real_eq [OF assms] other)
qed

section \<open>Levels on any numbers\<close>

text \<open>Two aircraft with the same velocity are CLEAR, however close: their closest approach is at infinity.\<close>

lemma equal_velocity_clear:
  assumes "rel_vel a b = (vx, vy)" "c_eq (vx * vx + vy * vy) 0"
  shows "pair_level (f64_num lm) a b = COLLISION_CLEAR"
proof -
  have "ap_tca_s (closest_approach (f64_num lm) a b) = FInf False"
    using assms by (simp add: closest_approach_def Let_def case_prod_unfold)
  then have "classify (f64_num lm) (closest_approach (f64_num lm) a b) = COLLISION_CLEAR" by (simp add: classify_def)
  then show ?thesis by (simp add: pair_level_def Let_def vertical_gate_eq crash_upgrade_def)
qed

lemma apart_clear: "vertically_apart a b \<Longrightarrow> pair_level nm a b = COLLISION_CLEAR"
  by (simp add: pair_level_def Let_def vertical_gate_eq crash_upgrade_def)

lemma vertically_apart_iff:
  assumes "\<bar>sint (sr_alt_ft a)\<bar> < 2 ^ 30" "\<bar>sint (sr_alt_ft b)\<bar> < 2 ^ 30"
  shows "vertically_apart a b \<longleftrightarrow> sr_alt_valid a \<and> sr_alt_valid b \<and> 1000 < \<bar>sint (sr_alt_ft a) - sint (sr_alt_ft b)\<bar>"
  using sint_abs_diff32 [OF assms] by (simp add: vertically_apart_def word_sless_alt)

lemma crash_conditions:
  assumes "pair_level nm a b = COLLISION_CRASH"
  shows "classify nm (closest_approach nm a b) = COLLISION_WARNING"
    and "sr_alt_valid a \<and> sr_alt_valid b \<Longrightarrow> abs_diff32 (sr_alt_ft a) (sr_alt_ft b) <s COLLISION_CRASH_VERT_FT"
    and "let dn = (sr_lat b - sr_lat a) / DEG_PER_M_LAT nm; de = (sr_lon b - sr_lon a) / deg_per_m_lon_at nm (sr_lat a);
             d = n_sqrt nm (dn * dn + de * de) in d < n_lit nm 100 1 \<or> d < n_lit nm 300 1"
proof -
  have c: "crash_upgrade nm a b (closest_approach nm a b)
      (vertical_gate a b (classify nm (closest_approach nm a b))) = COLLISION_CRASH"
    using assms by (simp add: pair_level_def Let_def)
  have "classify nm (closest_approach nm a b) \<noteq> COLLISION_CRASH" by (simp add: classify_def)
  then have "vertical_gate a b (classify nm (closest_approach nm a b)) \<noteq> COLLISION_CRASH" by (simp add: vertical_gate_eq)
  with c have w: "vertical_gate a b (classify nm (closest_approach nm a b)) = COLLISION_WARNING"
    using crash_upgrade_cases by metis
  then show "classify nm (closest_approach nm a b) = COLLISION_WARNING" by (auto simp: vertical_gate_eq split: if_splits)
  show "sr_alt_valid a \<and> sr_alt_valid b \<Longrightarrow> abs_diff32 (sr_alt_ft a) (sr_alt_ft b) <s COLLISION_CRASH_VERT_FT"
    and "let dn = (sr_lat b - sr_lat a) / DEG_PER_M_LAT nm; de = (sr_lon b - sr_lon a) / deg_per_m_lon_at nm (sr_lat a);
             d = n_sqrt nm (dn * dn + de * de) in d < n_lit nm 100 1 \<or> d < n_lit nm 300 1"
    using c unfolding w crash_upgrade_def by (auto simp: Let_def thresholds split: if_splits)
qed

section \<open>Diversion\<close>

lemma pick_diversion_cases:
  "pick_diversion nm sim thr \<in> {DIVERSION_LEFT, DIVERSION_RIGHT, DIVERSION_CLIMB, DIVERSION_DESCEND}"
  by (simp add: pick_diversion_def pick_by_bearing_def Let_def)

text \<open>
  Without two altitudes to go by, a threat ahead but not exactly ahead is turned away from,
  however nearly head-on.
\<close>

lemma pick_diversion_ahead:
  assumes "\<not> (sr_alt_valid sim \<and> sr_alt_valid thr)" "f64_deg (rel_bearing (f64_num lm) sim thr) (- 160) 160"
  shows "0 < fp_val (rel_bearing (f64_num lm) sim thr) \<Longrightarrow> pick_diversion (f64_num lm) sim thr = DIVERSION_LEFT"
    and "fp_val (rel_bearing (f64_num lm) sim thr) < 0 \<Longrightarrow> pick_diversion (f64_num lm) sim thr = DIVERSION_RIGHT"
proof -
  let ?rel = "rel_bearing (f64_num lm) sim thr"
  note r = f64_degD [OF assms(2)]
  have z: "(0 :: f64) < x \<longleftrightarrow> 0 < fp_val x" "x < (0 :: f64) \<longleftrightarrow> fp_val x < 0" if "isfinite x" for x :: f64
    using that by (simp_all add: fp_less_val zero_fp_def sgn_int_def)
  have near: "\<not> fp_lit 160 1 < \<bar>?rel\<bar>"
    using r f64_deg_int [of 160] by (simp add: fp_less_val fp_lit_int f64_deg_def fp_val_abs)
  show "0 < fp_val ?rel \<Longrightarrow> pick_diversion (f64_num lm) sim thr = DIVERSION_LEFT"
    and "fp_val ?rel < 0 \<Longrightarrow> pick_diversion (f64_num lm) sim thr = DIVERSION_RIGHT"
    using assms(1) near r(1) by (auto simp: pick_diversion_def pick_by_bearing_def Let_def z)
qed

lemma f64_in_diff360:
  assumes "f64_in x 0 360" "f64_in y 0 360" shows "f64_in (x - y) (- 360) 360"
proof -
  have "f64_in (x + - y) (of_int (0 + - 360)) (of_int (360 + 0))"
    using assms(1) f64_in_neg [OF assms(2)] by (intro f64_in_add) simp_all
  then show ?thesis by (simp add: minus_fp_eq)
qed

lemma wrap_rel_nan: "wrap_rel_returns lm FNaN" "wrap_rel (f64_num lm) FNaN = FNaN"
  by (simp_all add: wrap_rel_returns_def wrap_rel_def above_half_def while_unfold [of _ _ FNaN]
      while_option_unfold [of _ _ FNaN])

text \<open>The wrapping loops of the picker end, and leave an angle in [-180, 180].\<close>

lemma rel_bearing_in:
  fixes sim thr :: "f64 snap_row"
  assumes "libm_ok lm"
  defines "nm \<equiv> f64_num lm"
  defines "d \<equiv> bearing nm (sr_lat sim) (sr_lon sim) (sr_lat thr) (sr_lon thr)
    - to_compass nm (n_atan2 nm (sr_v_east_mps sim) (sr_v_north_mps sim))"
  shows "wrap_rel_returns lm d" "f64_in (rel_bearing nm sim thr) (- 180) 180"
proof -
  have "f64_in (to_compass nm (n_atan2 nm (sr_v_east_mps sim) (sr_v_north_mps sim))) 0 360"
    unfolding nm_def by (rule to_compass_in) (use assms(1) in \<open>simp add: libm_ok_def\<close>)
  then have d: "f64_in d (- 360) 360" unfolding d_def nm_def by (intro f64_in_diff360 bearing_in assms(1)) simp_all
  have r: "rel_bearing nm sim thr = wrap_rel (f64_num lm) d"
    by (simp add: rel_bearing_def Let_def d_def nm_def)
  have "wrap_rel_returns lm d \<and> f64_in (wrap_rel (f64_num lm) d) (- 180) 180"
  proof (cases "d = FNaN")
    case True
    then show ?thesis using wrap_rel_nan [of lm] by (simp add: f64_in_def)
  next
    case False
    then have "isfinite d" "fp_ok d" "\<bar>fp_val d\<bar> \<le> 2 ^ 40" using d by (auto simp: f64_in_def f64_deg_def)
    from wrap_rel_range [OF this, of lm] show ?thesis by (simp add: f64_in_def)
  qed
  then show "wrap_rel_returns lm d" "f64_in (rel_bearing nm sim thr) (- 180) 180" by (simp_all add: r)
qed

text \<open>On doubles: altitudes more than 1000 ft apart are CLEAR, and CRASH needs a WARNING pair in contact.\<close>

lemma vertical_separation_clears:
  assumes "sr_alt_valid a" "sr_alt_valid b" "\<bar>sint (sr_alt_ft a)\<bar> < 2 ^ 30" "\<bar>sint (sr_alt_ft b)\<bar> < 2 ^ 30"
    "1000 < \<bar>sint (sr_alt_ft a) - sint (sr_alt_ft b)\<bar>"
  shows "pair_level (f64_num lm) a b = COLLISION_CLEAR"
  using apart_clear vertically_apart_iff [OF assms(3,4)] assms by blast

lemma crash_needs_contact:
  assumes "pair_level (f64_num lm) a b = COLLISION_CRASH"
  shows "classify (f64_num lm) (closest_approach (f64_num lm) a b) = COLLISION_WARNING
    \<and> \<not> (sr_alt_valid a \<and> sr_alt_valid b \<and> \<not> abs_diff32 (sr_alt_ft a) (sr_alt_ft b) <s COLLISION_CRASH_VERT_FT)
    \<and> (let dn = (sr_lat b - sr_lat a) / DEG_PER_M_LAT (f64_num lm);
           de = (sr_lon b - sr_lon a) / deg_per_m_lon_at (f64_num lm) (sr_lat a);
           d = fp_sqrt (dn * dn + de * de) in d < fp_lit 100 1 \<or> d < fp_lit 300 1)"
  using crash_conditions [OF assms] by (auto simp: Let_def)

end
