(* ===== verification/Collision_Tracker_Correct.thy ===== *)
theory Collision_Tracker_Correct
  imports Collision_Tracker Collision_Geometry_Correct
begin

text \<open>
  What one tick does to the table of tracked pairs and to the events it sends: the table's
  invariant, the equality of the tracked pairs with the pairs in conflict, the CRASH lock, and
  the shape of every line and frame.
\<close>

section \<open>What the small steps leave alone\<close>

definition tracked :: "tick \<Rightarrow> tracked_pair list" where
  "tracked s = c_tracked (tk_col s)"

definition tp_key :: "tracked_pair \<Rightarrow> string \<times> string" where
  "tp_key t = (tp_icao_a t, tp_icao_b t)"

definition keys_of :: "tracked_pair list \<Rightarrow> (string \<times> string) list" where
  "keys_of ts = map tp_key ts"

lemma emit_simps [simp]:
  "tracked (emit_collision now lo hi lvl a d s) = tracked s"
  "tk_seen (emit_collision now lo hi lvl a d s) = tk_seen s"
  "c_pair_diversion (tk_col (emit_collision now lo hi lvl a d s)) = c_pair_diversion (tk_col s)"
  by (simp_all add: emit_collision_def Let_def tracked_def)

lemma send_simps [simp]:
  "tracked (send_events es s) = tracked s" "tk_seen (send_events es s) = tk_seen s"
  "tk_col (send_events es s) = tk_col s" "tk_out (send_events es s) = tk_out s @ es"
  by (simp_all add: send_events_def tracked_def)

lemma mark_simps [simp]:
  "tracked (mark_seen k s) = tracked s" "tk_seen (mark_seen k s) = (tk_seen s)[k := True]"
  "tk_col (mark_seen k s) = tk_col s" "tk_out (mark_seen k s) = tk_out s"
  by (simp_all add: mark_seen_def tracked_def)

lemma count_simps [simp]:
  "tracked (count_level l s) = tracked s" "tk_seen (count_level l s) = tk_seen s"
  "tk_col (count_level l s) = tk_col s" "tk_out (count_level l s) = tk_out s"
  by (simp_all add: count_level_def tracked_def)

lemma stop_simps [simp]:
  "tracked (stop_impactor lo hi s) = tracked s" "tk_seen (stop_impactor lo hi s) = tk_seen s"
  "c_pair_diversion (tk_col (stop_impactor lo hi s)) = c_pair_diversion (tk_col s)"
  "tk_out (stop_impactor lo hi s) = tk_out s"
  by (simp_all add: stop_impactor_def Let_def tracked_def)

lemma update_simps [simp]:
  "c_tracked (update_pair k f c) = (c_tracked c)[k := f (c_tracked c ! k)]"
  "c_pair_diversion (update_pair k f c) = c_pair_diversion c"
  by (simp_all add: update_pair_def)

lemma tracked_col [simp]: "tracked (s\<lparr>tk_col := c\<rparr>) = c_tracked c"
  by (simp add: tracked_def)

lemma cache_simps [simp]:
  "c_tracked (cache_diversion d tp tk c) =
    (c_tracked c)[tp := (c_tracked c ! tp)\<lparr>tp_diversion := strncpy0 11 (collision_diversion_str d)\<rparr>]"
  "length (c_pair_diversion (cache_diversion d tp tk c)) = length (c_pair_diversion c)"
  by (simp_all add: cache_diversion_def Let_def split: option.splits)

lemma send_to_sim_simps [simp]:
  "tracked (send_to_sim conn now db lo hi lvl thr tp s) =
    (tracked s)[tp := (tracked s ! tp)\<lparr>tp_last_ble_send_ms := now\<rparr>]"
  "tk_seen (send_to_sim conn now db lo hi lvl thr tp s) = tk_seen s"
  "c_pair_diversion (tk_col (send_to_sim conn now db lo hi lvl thr tp s)) = c_pair_diversion (tk_col s)"
  by (simp_all add: send_to_sim_def Let_def tracked_def)

lemma enter_crash_simps [simp]:
  "tracked (enter_crash conn now lo hi other tp s) =
    (case tp of None \<Rightarrow> tracked s | Some k \<Rightarrow> (tracked s)[k := (tracked s ! k)\<lparr>tp_crash_until_ms := now + 15000\<rparr>])"
  "tk_seen (enter_crash conn now lo hi other tp s) = tk_seen s"
  "c_pair_diversion (tk_col (enter_crash conn now lo hi other tp s)) = c_pair_diversion (tk_col s)"
  by (cases tp; simp add: enter_crash_def Let_def; simp add: tracked_def)+

lemma start_simps [simp]:
  "tracked (tick_start c m) = c_tracked c" "tk_seen (tick_start c m) = replicate MAX_TRACKED False"
  "c_pair_diversion (tk_col (tick_start c m)) = c_pair_diversion c" "tk_out (tick_start c m) = []"
  by (simp_all add: tick_start_def tracked_def)

lemma pairs_simps [simp]: "tracked (s\<lparr>tk_pairs := n\<rparr>) = tracked s"
  by (simp add: tracked_def)

section \<open>One pair\<close>

text \<open>
  An entry of the table changes only in its level, diversion, send time and lock, never in its
  key; \<open>reworked\<close> is a table with one entry changed in this way.
\<close>

definition reworked :: "collision_level \<Rightarrow> nat \<Rightarrow> tracked_pair list \<Rightarrow> tracked_pair list \<Rightarrow> bool" where
  "reworked lvl k ts ts' \<longleftrightarrow> (\<exists>t. ts' = ts[k := t] \<and> tp_key t = tp_key (ts ! k) \<and> tp_level t = lvl)"

lemma reworked_keys: "reworked lvl k ts ts' \<Longrightarrow> keys_of ts' = keys_of ts"
  by (cases "k < length ts") (auto simp: reworked_def keys_of_def map_update list_update_same_conv list_update_beyond)

lemma reworked_length: "reworked lvl k ts ts' \<Longrightarrow> length ts' = length ts"
  by (auto simp: reworked_def)

lemma reworked_trans:
  assumes "reworked lvl k ts ts'" "ts'' = ts'[k := f (ts' ! k)]" "\<And>t. tp_key (f t) = tp_key t \<and> tp_level (f t) = tp_level t"
    "k < length ts"
  shows "reworked lvl k ts ts''"
proof -
  obtain t where t: "ts' = ts[k := t]" "tp_key t = tp_key (ts ! k)" "tp_level t = lvl"
    using assms(1) by (auto simp: reworked_def)
  then have "ts'' = ts[k := f t]" using assms(2,4) by simp
  then show ?thesis using t(2,3) assms(3) by (auto simp: reworked_def)
qed

text \<open>After the entry is recorded, the rest of the step reworks it only.\<close>

lemma alert_rest:
  assumes k: "k < length ts" and r: "reworked lvl k ts (tracked s1)"
    and s3: "s3 = (case sim_and_threat side a b of
        Some (sim, thr) \<Rightarrow>
          (let s2 = (if tr then s1\<lparr>tk_col := cache_diversion (pick sim thr) k tk (tk_col s1)\<rparr> else s1);
               stale = (3000 < now - tp_last_ble_send_ms (c_tracked (tk_col s2) ! k))
           in if tr \<or> stale then send_to_sim conn now db lo hi lvl (sr_icao thr) k s2 else s2)
      | None \<Rightarrow> s1)"
    and s4: "s4 = (if crash then enter_crash conn now lo hi other (Some k) s3 else s3)"
  shows "reworked lvl k ts (tracked s4)" "tk_seen s4 = tk_seen s1"
    "length (c_pair_diversion (tk_col s4)) = length (c_pair_diversion (tk_col s1))"
proof -
  have 3: "reworked lvl k ts (tracked s3) \<and> tk_seen s3 = tk_seen s1
      \<and> length (c_pair_diversion (tk_col s3)) = length (c_pair_diversion (tk_col s1))"
  proof (cases "sim_and_threat side a b")
    case None
    then show ?thesis using s3 r by simp
  next
    case (Some p)
    obtain sim thr where p: "p = (sim, thr)" by fastforce
    define s2 where "s2 = (if tr then s1\<lparr>tk_col := cache_diversion (pick sim thr) k tk (tk_col s1)\<rparr> else s1)"
    have 2: "reworked lvl k ts (tracked s2) \<and> tk_seen s2 = tk_seen s1
        \<and> length (c_pair_diversion (tk_col s2)) = length (c_pair_diversion (tk_col s1))"
    proof (cases tr)
      case True
      have "reworked lvl k ts ((tracked s1)[k := (tracked s1 ! k)\<lparr>tp_diversion := strncpy0 11 (collision_diversion_str (pick sim thr))\<rparr>])"
        by (rule reworked_trans [OF r refl _ k]) (simp add: tp_key_def)
      then show ?thesis using True by (simp add: s2_def) (simp add: tracked_def)
    qed (use r in \<open>simp add: s2_def\<close>)
    have "reworked lvl k ts ((tracked s2)[k := (tracked s2 ! k)\<lparr>tp_last_ble_send_ms := now\<rparr>])"
      by (rule reworked_trans [OF 2 [THEN conjunct1] refl _ k]) (simp add: tp_key_def)
    moreover have "s3 = (if tr \<or> 3000 < now - tp_last_ble_send_ms (c_tracked (tk_col s2) ! k)
        then send_to_sim conn now db lo hi lvl (sr_icao thr) k s2 else s2)"
      using s3 Some p by (simp add: s2_def Let_def)
    ultimately show ?thesis using 2 by simp
  qed
  have "reworked lvl k ts ((tracked s3)[k := (tracked s3 ! k)\<lparr>tp_crash_until_ms := now + 15000\<rparr>])"
    by (rule reworked_trans [OF 3 [THEN conjunct1] refl _ k]) (simp add: tp_key_def)
  then show "reworked lvl k ts (tracked s4)" "tk_seen s4 = tk_seen s1"
    "length (c_pair_diversion (tk_col s4)) = length (c_pair_diversion (tk_col s1))"
    using 3 s4 by simp_all
qed

lemma record_known:
  obtains s1 where "record_pair now lo hi lvl app (Some k) s = (Some k, tp_level (tracked s ! k), s1)"
    "tracked s1 = (tracked s)[k := (tracked s ! k)\<lparr>tp_level := lvl\<rparr>]" "reworked lvl k (tracked s) (tracked s1)"
    "tk_seen s1 = (tk_seen s)[k := True]"
    "c_pair_diversion (tk_col s1) = c_pair_diversion (tk_col s)"
proof
  let ?s1 = "snd (snd (record_pair now lo hi lvl app (Some k) s))"
  show "record_pair now lo hi lvl app (Some k) s = (Some k, tp_level (tracked s ! k), ?s1)"
    by (simp add: record_pair_def Let_def tracked_def)
  show t: "tracked ?s1 = (tracked s)[k := (tracked s ! k)\<lparr>tp_level := lvl\<rparr>]"
    by (simp add: record_pair_def Let_def) (simp add: tracked_def)
  show "reworked lvl k (tracked s) (tracked ?s1)"
    unfolding t reworked_def by (intro exI [of _ "(tracked s ! k)\<lparr>tp_level := lvl\<rparr>"]) (simp add: tp_key_def)
  show "tk_seen ?s1 = (tk_seen s)[k := True]" "c_pair_diversion (tk_col ?s1) = c_pair_diversion (tk_col s)"
    by (simp_all add: record_pair_def Let_def)
qed

definition new_pair :: "string \<Rightarrow> string \<Rightarrow> collision_level \<Rightarrow> tracked_pair" where
  "new_pair lo hi lvl = \<lparr>tp_icao_a = strncpy0 6 lo, tp_icao_b = strncpy0 6 hi, tp_level = lvl, tp_diversion = [],
     tp_last_ble_send_ms = 0, tp_crash_until_ms = 0\<rparr>"

lemma record_new:
  assumes "length (tracked s) < MAX_TRACKED"
  obtains s1 where "record_pair now lo hi lvl app None s = (Some (length (tracked s)), COLLISION_CLEAR, s1)"
    "tracked s1 = tracked s @ [new_pair lo hi lvl]" "tk_seen s1 = (tk_seen s)[length (tracked s) := True]"
    "c_pair_diversion (tk_col s1) = c_pair_diversion (tk_col s)"
proof
  let ?s1 = "snd (snd (record_pair now lo hi lvl app None s))"
  show "record_pair now lo hi lvl app None s = (Some (length (tracked s)), COLLISION_CLEAR, ?s1)"
    using assms by (simp add: record_pair_def Let_def tracked_def)
  have n: "length (c_tracked (tk_col s)) < MAX_TRACKED" using assms by (simp add: tracked_def)
  show "tracked ?s1 = tracked s @ [new_pair lo hi lvl]" "tk_seen ?s1 = (tk_seen s)[length (tracked s) := True]"
    "c_pair_diversion (tk_col ?s1) = c_pair_diversion (tk_col s)"
    by (simp add: record_pair_def Let_def n new_pair_def AIRCRAFT_ICAO_BUF_LEN_def; simp add: tracked_def)+
qed

lemma record_full:
  "\<not> length (tracked s) < MAX_TRACKED \<Longrightarrow> record_pair now lo hi lvl app None s = (None, COLLISION_CLEAR, s)"
  by (simp add: record_pair_def Let_def tracked_def)

text \<open>\<open>alert_pair\<close> after \<open>record_pair\<close> gave an entry, and when it gave none.\<close>

lemma alert_pair_entry:
  assumes key: "pair_key (sr_icao a) (sr_icao b) = (lo, hi)"
    and r: "record_pair now lo hi lvl (closest_approach (f64_num lm) a b) tk (count_level lvl s) = (Some k, prev, s1)"
    and k: "k < length ts" "reworked lvl k ts (tracked s1)"
  shows "reworked lvl k ts (tracked (alert_pair lm conn now db a b lvl tk s))"
    "tk_seen (alert_pair lm conn now db a b lvl tk s) = tk_seen s1"
    "length (c_pair_diversion (tk_col (alert_pair lm conn now db a b lvl tk s))) = length (c_pair_diversion (tk_col s1))"
proof -
  define tr where "tr \<longleftrightarrow> prev = COLLISION_CLEAR \<and> lvl \<noteq> COLLISION_CLEAR"
  define s3 where "s3 = (case sim_and_threat (sim_side_of db a b) a b of
        Some (sim, thr) \<Rightarrow>
          (let s2 = (if tr then s1\<lparr>tk_col := cache_diversion (pick_diversion (f64_num lm) sim thr) k tk (tk_col s1)\<rparr> else s1);
               stale = (3000 < now - tp_last_ble_send_ms (c_tracked (tk_col s2) ! k))
           in if tr \<or> stale then send_to_sim conn now db lo hi lvl (sr_icao thr) k s2 else s2)
      | None \<Rightarrow> s1)"
  define crash where "crash \<longleftrightarrow> lvl = COLLISION_CRASH \<and> prev \<noteq> COLLISION_CRASH"
  have e: "alert_pair lm conn now db a b lvl tk s =
      (if crash then enter_crash conn now lo hi (crash_other (sim_side_of db a b) lo a b) (Some k) s3 else s3)"
    by (simp add: alert_pair_def key r s3_def tr_def crash_def Let_def split: option.splits)
  show "reworked lvl k ts (tracked (alert_pair lm conn now db a b lvl tk s))"
    "tk_seen (alert_pair lm conn now db a b lvl tk s) = tk_seen s1"
    "length (c_pair_diversion (tk_col (alert_pair lm conn now db a b lvl tk s))) = length (c_pair_diversion (tk_col s1))"
    using alert_rest [OF k s3_def e] by simp_all
qed

lemma alert_pair_none:
  assumes "pair_key (sr_icao a) (sr_icao b) = (lo, hi)" "\<not> length (tracked s) < MAX_TRACKED"
  shows "tracked (alert_pair lm conn now db a b lvl None s) = tracked s"
    "tk_seen (alert_pair lm conn now db a b lvl None s) = tk_seen s"
    "c_pair_diversion (tk_col (alert_pair lm conn now db a b lvl None s)) = c_pair_diversion (tk_col s)"
  using assms(2) by (auto simp: alert_pair_def assms(1) record_full Let_def)

text \<open>
  The two ways to get an entry, as one: the pair's own entry when it is tracked, the next free
  one otherwise.
\<close>

definition slot_of :: "nat option \<Rightarrow> tracked_pair list \<Rightarrow> nat" where
  "slot_of tk ts = (case tk of Some k \<Rightarrow> k | None \<Rightarrow> length ts)"

definition base_of :: "string \<Rightarrow> string \<Rightarrow> collision_level \<Rightarrow> nat option \<Rightarrow> tracked_pair list \<Rightarrow> tracked_pair list" where
  "base_of lo hi lvl tk ts = (case tk of Some _ \<Rightarrow> ts | None \<Rightarrow> ts @ [new_pair lo hi lvl])"

definition has_slot :: "nat option \<Rightarrow> tracked_pair list \<Rightarrow> bool" where
  "has_slot tk ts = (case tk of Some k \<Rightarrow> k < length ts | None \<Rightarrow> length ts < MAX_TRACKED)"

lemmas slot_defs = slot_of_def base_of_def has_slot_def

lemma has_slot_bound: "has_slot tk ts \<Longrightarrow> slot_of tk ts < length (base_of lo hi lvl tk ts)"
  by (simp add: slot_defs split: option.splits)

lemma record_slot:
  assumes "has_slot tk (tracked s)"
  obtains s1 where "record_pair now lo hi lvl app tk s = (Some (slot_of tk (tracked s)),
      (case tk of Some k \<Rightarrow> tp_level (tracked s ! k) | None \<Rightarrow> COLLISION_CLEAR), s1)"
    "reworked lvl (slot_of tk (tracked s)) (base_of lo hi lvl tk (tracked s)) (tracked s1)"
    "tk_seen s1 = (tk_seen s)[slot_of tk (tracked s) := True]"
    "c_pair_diversion (tk_col s1) = c_pair_diversion (tk_col s)"
proof (cases tk)
  case (Some k)
  obtain s1 where "record_pair now lo hi lvl app (Some k) s = (Some k, tp_level (tracked s ! k), s1)"
    "reworked lvl k (tracked s) (tracked s1)" "tk_seen s1 = (tk_seen s)[k := True]"
    "c_pair_diversion (tk_col s1) = c_pair_diversion (tk_col s)"
    by (rule record_known)
  with Some show ?thesis by (intro that [of s1]) (simp_all add: slot_defs)
next
  case None
  then have room: "length (tracked s) < MAX_TRACKED" using assms by (simp add: slot_defs)
  obtain s1 where q: "record_pair now lo hi lvl app None s = (Some (length (tracked s)), COLLISION_CLEAR, s1)"
    "tracked s1 = tracked s @ [new_pair lo hi lvl]" "tk_seen s1 = (tk_seen s)[length (tracked s) := True]"
    "c_pair_diversion (tk_col s1) = c_pair_diversion (tk_col s)"
    by (rule record_new [OF room])
  have "reworked lvl (length (tracked s)) (tracked s @ [new_pair lo hi lvl]) (tracked s1)"
    using q(2) by (auto simp: reworked_def new_pair_def intro!: exI [of _ "new_pair lo hi lvl"])
  with q None show ?thesis by (intro that [of s1]) (simp_all add: slot_defs)
qed

lemma alert_slot:
  fixes lm :: libm and conn :: bool and db :: aircraft_db and s :: tick and now :: int and lvl :: collision_level
  assumes key: "pair_key (sr_icao a) (sr_icao b) = (lo, hi)" and slot: "has_slot tk (tracked s)"
  defines "r \<equiv> alert_pair lm conn now db a b lvl tk s" and "k \<equiv> slot_of tk (tracked s)"
  shows "reworked lvl k (base_of lo hi lvl tk (tracked s)) (tracked r)"
    "tk_seen r = (tk_seen s)[k := True]"
    "length (c_pair_diversion (tk_col r)) = length (c_pair_diversion (tk_col s))"
proof -
  have slot': "has_slot tk (tracked (count_level lvl s))" using slot by simp
  obtain s1 where q: "record_pair now lo hi lvl (closest_approach (f64_num lm) a b) tk (count_level lvl s) =
      (Some (slot_of tk (tracked (count_level lvl s))), (case tk of Some k \<Rightarrow> tp_level (tracked (count_level lvl s) ! k)
         | None \<Rightarrow> COLLISION_CLEAR), s1)"
    "reworked lvl (slot_of tk (tracked (count_level lvl s))) (base_of lo hi lvl tk (tracked (count_level lvl s))) (tracked s1)"
    "tk_seen s1 = (tk_seen (count_level lvl s))[slot_of tk (tracked (count_level lvl s)) := True]"
    "c_pair_diversion (tk_col s1) = c_pair_diversion (tk_col (count_level lvl s))"
    by (rule record_slot [OF slot'])
  note e = alert_pair_entry [OF key q(1) has_slot_bound [OF slot'] q(2), of conn db]
  show "reworked lvl k (base_of lo hi lvl tk (tracked s)) (tracked r)" "tk_seen r = (tk_seen s)[k := True]"
    "length (c_pair_diversion (tk_col r)) = length (c_pair_diversion (tk_col s))"
    using e q(3,4) by (simp_all add: r_def k_def)
qed

text \<open>One pair, by what is done with it.\<close>

lemma pair_step_cases:
  fixes lm :: libm and s :: tick
  assumes key: "pair_key (sr_icao a) (sr_icao b) = (lo, hi)"
  defines "s' \<equiv> s\<lparr>tk_pairs := tk_pairs s + 1\<rparr>" and "lvl \<equiv> pair_level (f64_num lm) a b"
    and "tk \<equiv> find_tracked lo hi (tracked s)"
  obtains (clear) "lvl = COLLISION_CLEAR" "pair_step lm conn now db s (a, b) = s'"
  | (locked) k where "lvl \<noteq> COLLISION_CLEAR" "tk = Some k" "now < tp_crash_until_ms (tracked s ! k)"
      "pair_step lm conn now db s (a, b) = mark_seen k s'"
  | (full) "lvl \<noteq> COLLISION_CLEAR" "tk = None" "\<not> length (tracked s) < MAX_TRACKED"
      "tracked (pair_step lm conn now db s (a, b)) = tracked s" "tk_seen (pair_step lm conn now db s (a, b)) = tk_seen s"
      "c_pair_diversion (tk_col (pair_step lm conn now db s (a, b))) = c_pair_diversion (tk_col s)"
  | (alert) "lvl \<noteq> COLLISION_CLEAR" "\<forall>k. tk = Some k \<longrightarrow> \<not> now < tp_crash_until_ms (tracked s ! k)"
      "has_slot tk (tracked s)" "pair_step lm conn now db s (a, b) = alert_pair lm conn now db a b lvl tk s'"
proof -
  have step: "pair_step lm conn now db s (a, b) = (if lvl = COLLISION_CLEAR then s'
      else if crash_locked now tk (tk_col s') then mark_seen (the tk) s' else alert_pair lm conn now db a b lvl tk s')"
    by (simp add: pair_step_def key Let_def tracked_def s'_def lvl_def tk_def)
  have lock: "crash_locked now tk (tk_col s') \<longleftrightarrow> (\<exists>k. tk = Some k \<and> now < tp_crash_until_ms (tracked s ! k))"
    by (simp add: crash_locked_def tracked_def s'_def split: option.split)
  have known: "tk = Some k \<Longrightarrow> k < length (tracked s)" for k
    using find_index_Some by (auto simp: tk_def find_tracked_def)
  have none: "tracked (alert_pair lm conn now db a b lvl None s') = tracked s"
    "tk_seen (alert_pair lm conn now db a b lvl None s') = tk_seen s"
    "c_pair_diversion (tk_col (alert_pair lm conn now db a b lvl None s')) = c_pair_diversion (tk_col s)"
    if "\<not> length (tracked s) < MAX_TRACKED"
    using alert_pair_none [OF key, of s' lm conn now db lvl] that by (simp_all add: s'_def)
  consider "lvl = COLLISION_CLEAR" | k where "lvl \<noteq> COLLISION_CLEAR" "tk = Some k" "now < tp_crash_until_ms (tracked s ! k)"
    | "lvl \<noteq> COLLISION_CLEAR" "\<not> crash_locked now tk (tk_col s')" "tk = None" "\<not> length (tracked s) < MAX_TRACKED"
    | "lvl \<noteq> COLLISION_CLEAR" "\<not> crash_locked now tk (tk_col s')" "has_slot tk (tracked s)"
    using lock known by (cases tk) (auto simp: has_slot_def)
  then show ?thesis
  proof cases
    case 1
    then show ?thesis using clear step by simp
  next
    case (2 k)
    then show ?thesis using locked lock step by simp
  next
    case 3
    then show ?thesis using full step none by simp
  next
    case 4
    then have "\<forall>k. tk = Some k \<longrightarrow> \<not> now < tp_crash_until_ms (tracked s ! k)" using lock by simp
    then show ?thesis using 4 step by (intro alert) simp_all
  qed
qed

section \<open>The table's invariant\<close>

definition tick_inv :: "tick \<Rightarrow> bool" where
  "tick_inv s \<longleftrightarrow> length (tracked s) \<le> MAX_TRACKED \<and> length (tk_seen s) = MAX_TRACKED
     \<and> length (c_pair_diversion (tk_col s)) = MAX_TRACKED
     \<and> distinct (keys_of (tracked s)) \<and> (\<forall>t \<in> set (tracked s). tp_level t \<noteq> COLLISION_CLEAR)"

lemma find_tracked_key:
  assumes "length lo \<le> 6" "length hi \<le> 6"
  shows "find_tracked lo hi ts = find_index (\<lambda>t. tp_key t = (lo, hi)) ts"
proof -
  have "strncmp_eq AIRCRAFT_ICAO_BUF_LEN x y \<longleftrightarrow> x = y" if "length y \<le> 6" for x y
    using strncmp_eq_short_left [of y 7 x] that by (auto simp: AIRCRAFT_ICAO_BUF_LEN_def dest: strncmp_eq_sym)
  then show ?thesis using assms by (simp add: find_tracked_def tp_key_def)
qed

definition short_icaos :: "'a snap_row \<times> 'a snap_row \<Rightarrow> bool" where
  "short_icaos ab \<longleftrightarrow> length (sr_icao (fst ab)) \<le> 6 \<and> length (sr_icao (snd ab)) \<le> 6"

text \<open>The key of a pair in conflict, and the keys of the pairs in conflict among some.\<close>

definition key_of :: "'a snap_row \<times> 'a snap_row \<Rightarrow> string \<times> string" where
  "key_of ab = pair_key (sr_icao (fst ab)) (sr_icao (snd ab))"

definition in_conflict :: "libm \<Rightarrow> f64 snap_row \<times> f64 snap_row \<Rightarrow> bool" where
  "in_conflict lm ab \<longleftrightarrow> pair_level (f64_num lm) (fst ab) (snd ab) \<noteq> COLLISION_CLEAR"

definition conflict_keys :: "libm \<Rightarrow> (f64 snap_row \<times> f64 snap_row) list \<Rightarrow> (string \<times> string) set" where
  "conflict_keys lm ps = key_of ` {ab \<in> set ps. in_conflict lm ab}"

text \<open>
  One pair: the table keeps its entries' keys in place, gains the pair's key at the end when it
  is new and there is room, and the pair's entry is marked as seen.
\<close>

definition key_step :: "bool \<Rightarrow> string \<times> string \<Rightarrow> (string \<times> string) list \<times> bool list \<Rightarrow> (string \<times> string) list \<times> bool list" where
  "key_step conflict key s = (case s of (ks, seen) \<Rightarrow>
     if \<not> conflict then (ks, seen)
     else case find_index (\<lambda>k. k = key) ks of
       Some i \<Rightarrow> (ks, seen[i := True])
     | None \<Rightarrow> if length ks < MAX_TRACKED then (ks @ [key], seen[length ks := True]) else (ks, seen))"

lemma find_key_index: "find_index (\<lambda>t. tp_key t = key) ts = find_index (\<lambda>k. k = key) (keys_of ts)"
  by (simp add: keys_of_def find_index_map comp_def)

lemma slot_rework:
  assumes "reworked lvl (slot_of tk ts) (base_of lo hi lvl tk ts) ts'" "lvl \<noteq> COLLISION_CLEAR" "has_slot tk ts"
    "length lo \<le> 6" "length hi \<le> 6" "\<forall>t \<in> set ts. tp_level t \<noteq> COLLISION_CLEAR" "length ts \<le> MAX_TRACKED"
  shows "\<forall>t \<in> set ts'. tp_level t \<noteq> COLLISION_CLEAR" "length ts' \<le> MAX_TRACKED"
    "keys_of ts' = (case tk of Some _ \<Rightarrow> keys_of ts | None \<Rightarrow> keys_of ts @ [(lo, hi)])"
proof -
  obtain t where t: "ts' = (base_of lo hi lvl tk ts)[slot_of tk ts := t]" "tp_level t = lvl"
    using assms(1) by (auto simp: reworked_def)
  then show "\<forall>t \<in> set ts'. tp_level t \<noteq> COLLISION_CLEAR"
    using assms(2,6) set_update_subset_insert [of ts "slot_of tk ts" t]
    by (auto simp: slot_of_def base_of_def split: option.splits)
  show "length ts' \<le> MAX_TRACKED" using t(1) assms(3,7) by (simp add: slot_defs split: option.splits)
  show "keys_of ts' = (case tk of Some _ \<Rightarrow> keys_of ts | None \<Rightarrow> keys_of ts @ [(lo, hi)])"
    using reworked_keys [OF assms(1)] assms(4,5)
    by (simp add: base_of_def keys_of_def new_pair_def tp_key_def strncpy0_id split: option.splits)
qed

lemma pair_step_keys:
  assumes inv: "tick_inv s" and short: "short_icaos ab"
  shows "tick_inv (pair_step lm conn now db s ab)"
    "(keys_of (tracked (pair_step lm conn now db s ab)), tk_seen (pair_step lm conn now db s ab)) =
      key_step (in_conflict lm ab) (key_of ab) (keys_of (tracked s), tk_seen s)"
proof -
  obtain a b where ab: "ab = (a, b)" by fastforce
  obtain lo hi where key: "pair_key (sr_icao a) (sr_icao b) = (lo, hi)" by fastforce
  have len: "length lo \<le> 6" "length hi \<le> 6"
    using short key by (auto simp: ab short_icaos_def pair_key_def split: if_splits)
  let ?r = "pair_step lm conn now db s ab"
  have find: "find_tracked lo hi (tracked s) = find_index (\<lambda>k. k = (lo, hi)) (keys_of (tracked s))"
    by (simp add: find_tracked_key [OF len] find_key_index)
  have k_of: "key_of ab = (lo, hi)" "in_conflict lm ab \<longleftrightarrow> pair_level (f64_num lm) a b \<noteq> COLLISION_CLEAR"
    by (simp_all add: key_of_def in_conflict_def ab key)
  from key have "tick_inv ?r \<and> (keys_of (tracked ?r), tk_seen ?r) = key_step (in_conflict lm ab) (key_of ab) (keys_of (tracked s), tk_seen s)"
  proof (cases rule: pair_step_cases [of a b lo hi lm conn now db s])
    case clear
    then show ?thesis using inv k_of ab by (simp add: key_step_def tick_inv_def)
  next
    case (locked k)
    then show ?thesis using inv k_of ab find by (simp add: key_step_def tick_inv_def)
  next
    case full
    then show ?thesis using inv k_of ab find by (simp add: key_step_def tick_inv_def keys_of_def)
  next
    case alert
    let ?tk = "find_tracked lo hi (tracked s)" and ?lvl = "pair_level (f64_num lm) a b"
    let ?s = "s\<lparr>tk_pairs := tk_pairs s + 1\<rparr>"
    have "has_slot ?tk (tracked ?s)" using alert(3) by simp
    note e = alert_slot [OF key this, where lvl = ?lvl and lm = lm and conn = conn and now = now and db = db]
    have r: "?r = alert_pair lm conn now db a b ?lvl ?tk ?s" using alert(4) ab by simp
    have rw: "reworked ?lvl (slot_of ?tk (tracked s)) (base_of lo hi ?lvl ?tk (tracked s)) (tracked ?r)"
      using e(1) by (simp add: r)
    have length_keys: "length (keys_of (tracked s)) = length (tracked s)" by (simp add: keys_of_def)
    have new: "?tk = None \<Longrightarrow> (lo, hi) \<notin> set (keys_of (tracked s))" by (auto simp: find find_index_None)
    from slot_rework [OF rw alert(1,3) len] inv have "\<forall>t \<in> set (tracked ?r). tp_level t \<noteq> COLLISION_CLEAR"
      "length (tracked ?r) \<le> MAX_TRACKED"
      and ks: "keys_of (tracked ?r) = (case ?tk of Some _ \<Rightarrow> keys_of (tracked s) | None \<Rightarrow> keys_of (tracked s) @ [(lo, hi)])"
      by (simp_all add: tick_inv_def)
    then have "tick_inv ?r" using inv e(2,3) new by (simp add: tick_inv_def r split: option.splits)
    moreover have "(keys_of (tracked ?r), tk_seen ?r) = key_step True (lo, hi) (keys_of (tracked s), tk_seen s)"
      using ks e(2) alert(3) length_keys
      by (cases ?tk) (simp_all add: r key_step_def find [symmetric] slot_of_def has_slot_def)
    ultimately show ?thesis using k_of alert(1) by simp
  qed
  then show "tick_inv (pair_step lm conn now db s ab)"
    "(keys_of (tracked (pair_step lm conn now db s ab)), tk_seen (pair_step lm conn now db s ab)) =
      key_step (in_conflict lm ab) (key_of ab) (keys_of (tracked s), tk_seen s)" by blast+
qed

section \<open>All pairs of a tick\<close>

definition fold_keys :: "libm \<Rightarrow> (f64 snap_row \<times> f64 snap_row) list \<Rightarrow> (string \<times> string) list \<times> bool list
    \<Rightarrow> (string \<times> string) list \<times> bool list" where
  "fold_keys lm ps st = foldl (\<lambda>st ab. key_step (in_conflict lm ab) (key_of ab) st) st ps"

lemma fold_pairs_keys:
  assumes "tick_inv s" "\<forall>ab \<in> set ps. short_icaos ab"
  shows "tick_inv (foldl (pair_step lm conn now db) s ps) \<and>
    (keys_of (tracked (foldl (pair_step lm conn now db) s ps)), tk_seen (foldl (pair_step lm conn now db) s ps)) =
      fold_keys lm ps (keys_of (tracked s), tk_seen s)"
  using assms
proof (induction ps arbitrary: s)
  case (Cons ab ps)
  then show ?case using pair_step_keys [OF Cons.prems(1), of ab lm conn now db] by (simp add: fold_keys_def)
qed (simp add: fold_keys_def)

definition seen_keys :: "'k list \<Rightarrow> bool list \<Rightarrow> 'k set" where
  "seen_keys ks seen = {ks ! i | i. i < length ks \<and> seen ! i}"

definition flags_ok :: "'k list \<Rightarrow> bool list \<Rightarrow> bool" where
  "flags_ok ks seen \<longleftrightarrow> length ks \<le> MAX_TRACKED \<and> length seen = MAX_TRACKED \<and> distinct ks"

lemma seen_keys_mark:
  assumes "i < length ks" "i < length seen"
  shows "seen_keys ks (seen[i := True]) = insert (ks ! i) (seen_keys ks seen)"
  using assms by (auto simp: seen_keys_def nth_list_update)

lemma seen_keys_append:
  assumes "length ks < length seen"
  shows "seen_keys (ks @ [k]) (seen[length ks := True]) = insert k (seen_keys ks seen)"
proof
  show "seen_keys (ks @ [k]) (seen[length ks := True]) \<subseteq> insert k (seen_keys ks seen)"
    by (auto simp: seen_keys_def nth_append nth_list_update split: if_splits)
  show "insert k (seen_keys ks seen) \<subseteq> seen_keys (ks @ [k]) (seen[length ks := True])"
  proof
    fix x assume "x \<in> insert k (seen_keys ks seen)"
    then consider "x = k" | i where "i < length ks" "seen ! i" "x = ks ! i" by (auto simp: seen_keys_def)
    then show "x \<in> seen_keys (ks @ [k]) (seen[length ks := True])"
    proof cases
      case 1
      then show ?thesis using assms unfolding seen_keys_def by (intro CollectI exI [of _ "length ks"]) simp
    next
      case 2
      then show ?thesis using assms unfolding seen_keys_def by (intro CollectI exI [of _ i]) (simp add: nth_append)
    qed
  qed
qed

lemma key_step_result:
  assumes ok: "flags_ok ks seen" and step: "key_step conflict key (ks, seen) = (ks', seen')"
  defines "add \<equiv> (if conflict \<and> (key \<in> set ks \<or> length ks < MAX_TRACKED) then {key} else {})"
  shows "flags_ok ks' seen'" "set ks' = set ks \<union> add" "seen_keys ks' seen' = seen_keys ks seen \<union> add"
proof -
  have "flags_ok ks' seen' \<and> set ks' = set ks \<union> add \<and> seen_keys ks' seen' = seen_keys ks seen \<union> add"
  proof (cases "find_index (\<lambda>k. k = key) ks")
    case None
    then have "key \<notin> set ks" by (auto simp: find_index_None)
    then show ?thesis using ok step None
      by (auto simp: key_step_def flags_ok_def add_def seen_keys_append split: if_splits)
  next
    case (Some i)
    then have i: "i < length ks" "ks ! i = key" using find_index_Some by fastforce+
    then have "key \<in> set ks" "i < length seen" using ok by (auto simp: flags_ok_def)
    then show ?thesis using ok step Some i seen_keys_mark [of i ks seen]
      by (auto simp: key_step_def flags_ok_def add_def split: if_splits)
  qed
  then show "flags_ok ks' seen'" "set ks' = set ks \<union> add" "seen_keys ks' seen' = seen_keys ks seen \<union> add" by blast+
qed

lemma fold_keys_result:
  assumes "flags_ok ks seen" "fold_keys lm ps (ks, seen) = (ks', seen')"
  shows "flags_ok ks' seen'" "set ks \<subseteq> set ks'" "set ks' \<subseteq> set ks \<union> conflict_keys lm ps"
    "seen_keys ks' seen' \<subseteq> seen_keys ks seen \<union> conflict_keys lm ps"
    "card (set ks \<union> conflict_keys lm ps) \<le> MAX_TRACKED \<Longrightarrow> seen_keys ks' seen' = seen_keys ks seen \<union> conflict_keys lm ps"
    "seen_keys ks seen \<union> (set ks \<inter> conflict_keys lm ps) \<subseteq> seen_keys ks' seen'"
proof -
  have "flags_ok ks' seen' \<and> set ks \<subseteq> set ks' \<and> set ks' \<subseteq> set ks \<union> conflict_keys lm ps
    \<and> seen_keys ks' seen' \<subseteq> seen_keys ks seen \<union> conflict_keys lm ps
    \<and> (card (set ks \<union> conflict_keys lm ps) \<le> MAX_TRACKED \<longrightarrow> seen_keys ks' seen' = seen_keys ks seen \<union> conflict_keys lm ps)
    \<and> seen_keys ks seen \<union> (set ks \<inter> conflict_keys lm ps) \<subseteq> seen_keys ks' seen'"
    using assms
  proof (induction ps arbitrary: ks seen)
    case Nil
    then show ?case by (simp add: fold_keys_def conflict_keys_def)
  next
    case (Cons ab ps)
    obtain k1 s1 where st: "key_step (in_conflict lm ab) (key_of ab) (ks, seen) = (k1, s1)" by fastforce
    note r = key_step_result [OF Cons.prems(1) st]
    have f: "fold_keys lm ps (k1, s1) = (ks', seen')" using Cons.prems(2) st by (simp add: fold_keys_def)
    have c: "conflict_keys lm (ab # ps) = (if in_conflict lm ab then {key_of ab} else {}) \<union> conflict_keys lm ps"
      by (auto simp: conflict_keys_def)
    have sub: "set k1 \<union> conflict_keys lm ps \<subseteq> set ks \<union> conflict_keys lm (ab # ps)" using r(2) c by auto
    have fin: "finite (set ks \<union> conflict_keys lm (ab # ps))" by (simp add: conflict_keys_def)
    have room: "card (set ks \<union> conflict_keys lm (ab # ps)) \<le> MAX_TRACKED \<Longrightarrow> in_conflict lm ab
      \<Longrightarrow> key_of ab \<in> set ks \<or> length ks < MAX_TRACKED"
    proof (rule ccontr)
      assume le: "card (set ks \<union> conflict_keys lm (ab # ps)) \<le> MAX_TRACKED" and i: "in_conflict lm ab"
        and n: "\<not> (key_of ab \<in> set ks \<or> length ks < MAX_TRACKED)"
      have "card (insert (key_of ab) (set ks)) = Suc (length ks)"
        using n Cons.prems(1) by (simp add: flags_ok_def distinct_card)
      moreover have "card (insert (key_of ab) (set ks)) \<le> card (set ks \<union> conflict_keys lm (ab # ps))"
        using fin c i by (intro card_mono) auto
      ultimately show False using le n by simp
    qed
    show ?case using Cons.IH [OF r(1) f] r(2,3) sub c card_mono [OF fin sub] room
      by (auto split: if_splits)
  qed
  then show "flags_ok ks' seen'" "set ks \<subseteq> set ks'" "set ks' \<subseteq> set ks \<union> conflict_keys lm ps"
    "seen_keys ks' seen' \<subseteq> seen_keys ks seen \<union> conflict_keys lm ps"
    "card (set ks \<union> conflict_keys lm ps) \<le> MAX_TRACKED \<Longrightarrow> seen_keys ks' seen' = seen_keys ks seen \<union> conflict_keys lm ps"
    "seen_keys ks seen \<union> (set ks \<inter> conflict_keys lm ps) \<subseteq> seen_keys ks' seen'"
    by blast+
qed

section \<open>The sweep\<close>

lemma nths_cong: "(\<And>j. j < length xs \<Longrightarrow> j \<in> A \<longleftrightarrow> j \<in> B) \<Longrightarrow> nths xs A = nths xs B"
  unfolding nths_def by (intro arg_cong [of _ _ "map fst"] filter_cong refl) (auto dest: set_zip_rightD)

lemma nths_delete_at:
  assumes "i < length ts"
  shows "nths (delete_at i ts) {j. i \<le> j \<or> seen ! j} = nths ts {j. Suc i \<le> j \<or> (j < i \<and> seen ! j)}"
proof -
  have "ts = take i ts @ ts ! i # drop (Suc i) ts" using assms by (rule id_take_nth_drop)
  then have "nths ts {j. Suc i \<le> j \<or> (j < i \<and> seen ! j)} =
      nths (take i ts @ ts ! i # drop (Suc i) ts) {j. Suc i \<le> j \<or> (j < i \<and> seen ! j)}" by simp
  also have "\<dots> = nths (take i ts) {j. Suc i \<le> j \<or> (j < i \<and> seen ! j)} @ drop (Suc i) ts"
    using assms by (simp add: nths_append nths_Cons nths_all)
  also have "nths (take i ts) {j. Suc i \<le> j \<or> (j < i \<and> seen ! j)} = nths (take i ts) {j. i \<le> j \<or> seen ! j}"
    using assms by (intro nths_cong) auto
  finally show ?thesis using assms by (simp add: delete_at_def nths_append nths_all)
qed

lemma clear_sweep_tracked:
  "n \<le> length (tracked s) \<Longrightarrow> tracked (clear_sweep now n s) = nths (tracked s) {j. n \<le> j \<or> tk_seen s ! j}"
proof (induction n arbitrary: s)
  case 0
  then show ?case by (simp add: nths_all)
next
  case (Suc i)
  then have i: "i < length (tracked s)" by simp
  show ?case
  proof (cases "tk_seen s ! i")
    case True
    have "tracked (clear_sweep now (Suc i) s) = nths (tracked s) {j. i \<le> j \<or> tk_seen s ! j}"
      using Suc True by simp
    also have "\<dots> = nths (tracked s) {j. Suc i \<le> j \<or> tk_seen s ! j}"
      using True by (intro nths_cong) (auto simp: le_less Suc_le_eq)
    finally show ?thesis .
  next
    case False
    let ?t = "c_tracked (tk_col s) ! i"
    define s1 where "s1 = emit_collision now (tp_icao_a ?t) (tp_icao_b ?t) COLLISION_CLEAR clear_approach [] s"
    let ?s2 = "s1\<lparr>tk_col := tracked_remove i (tk_col s1)\<rparr>"
    have t1: "tracked s1 = tracked s" "tk_seen s1 = tk_seen s" by (simp_all add: s1_def)
    have t2: "tracked ?s2 = delete_at i (tracked s)"
      using i t1(1) by (simp add: tracked_remove_def) (simp add: tracked_def)
    have "tracked (clear_sweep now (Suc i) s) = tracked (clear_sweep now i ?s2)"
      using False by (simp add: s1_def Let_def)
    also have "\<dots> = nths (delete_at i (tracked s)) {j. i \<le> j \<or> tk_seen s ! j}"
      using Suc.IH [of ?s2] i t1(2) unfolding t2 by (simp add: length_delete_at)
    also have "\<dots> = nths (tracked s) {j. Suc i \<le> j \<or> (j < i \<and> tk_seen s ! j)}" by (rule nths_delete_at [OF i])
    also have "\<dots> = nths (tracked s) {j. Suc i \<le> j \<or> tk_seen s ! j}"
      using False by (intro nths_cong) (auto simp: Suc_le_eq not_less nat_less_le)
    finally show ?thesis .
  qed
qed

lemma clear_sweep_diversions [simp]:
  "c_pair_diversion (tk_col (clear_sweep now n s)) = c_pair_diversion (tk_col s)"
proof (induction n arbitrary: s)
  case (Suc i)
  show ?case
    unfolding clear_sweep.simps Let_def Suc.IH by (simp add: tracked_remove_def)
qed simp

section \<open>One tick\<close>

text \<open>The invariant of the detector's static state.\<close>

definition col_inv :: "collision \<Rightarrow> bool" where
  "col_inv c \<longleftrightarrow> length (c_tracked c) \<le> MAX_TRACKED \<and> length (c_pair_diversion c) = MAX_TRACKED
     \<and> distinct (keys_of (c_tracked c)) \<and> (\<forall>t \<in> set (c_tracked c). tp_level t \<noteq> COLLISION_CLEAR)"

definition row_of :: "libm \<Rightarrow> aircraft_db_entry \<Rightarrow> f64 snap_row" where
  "row_of lm e = (case derive_velocity_mps lm e of (vv, vn, ve) \<Rightarrow>
     \<lparr>sr_icao = ac_icao (de_ac e), sr_lat = ac_lat (de_ac e), sr_lon = ac_lon (de_ac e),
      sr_v_north_mps = vn, sr_v_east_mps = ve,
      sr_alt_ft = (if ac_has (de_ac e) AIRCRAFT_VALID_ALT then ac_alt_ft (de_ac e) else 0),
      sr_v_valid = vv, sr_alt_valid = ac_has (de_ac e) AIRCRAFT_VALID_ALT\<rparr>)"

lemma snapshot_rows:
  assumes "length (db_rows db) \<le> AIRCRAFT_DB_MAX_ENTRIES"
  shows "snapshot lm db = map (row_of lm) (db_rows db)"
proof -
  have "walk (snap_cb lm) es rows = rows @ map (row_of lm) es"
    if "length rows + length es \<le> AIRCRAFT_DB_MAX_ENTRIES" for es rows
    using that
  proof (induction es arbitrary: rows)
    case (Cons e es)
    then show ?case by (simp add: snap_cb_def row_of_def Let_def split: prod.splits)
  qed simp
  then show ?thesis using assms by (simp add: snapshot_def for_each_rows)
qed

definition icaos_short :: "aircraft_db \<Rightarrow> bool" where
  "icaos_short db \<longleftrightarrow> (\<forall>e \<in> set (db_rows db). length (ac_icao (de_ac e)) \<le> 6)"

lemma row_pairs_subset: "ab \<in> set (row_pairs rows) \<Longrightarrow> fst ab \<in> set rows \<and> snd ab \<in> set rows"
  by (induction rows) (auto split: if_splits)

lemma snapshot_short:
  assumes "db_inv db" "icaos_short db"
  shows "\<forall>ab \<in> set (row_pairs (snapshot lm db)). short_icaos ab"
proof
  fix ab assume ab: "ab \<in> set (row_pairs (snapshot lm db))"
  have "length (db_rows db) \<le> AIRCRAFT_DB_MAX_ENTRIES" using assms(1) by (simp add: db_inv_def rows_ok_def)
  from snapshot_rows [OF this] ab row_pairs_subset
  have "fst ab \<in> row_of lm ` set (db_rows db)" "snd ab \<in> row_of lm ` set (db_rows db)" by fastforce+
  moreover have "sr_icao (row_of lm e) = ac_icao (de_ac e)" for e by (simp add: row_of_def split: prod.splits)
  ultimately show "short_icaos ab" using assms(2) by (auto simp: short_icaos_def icaos_short_def)
qed

text \<open>The addresses stay short when every stored record fits the six characters of its buffer.\<close>

fun short_op :: "db_op \<Rightarrow> bool" where
  "short_op (DbUpsert now a) \<longleftrightarrow> length (ac_icao a) \<le> 6"
| "short_op op \<longleftrightarrow> True"

definition db_short :: "aircraft_db \<Rightarrow> bool" where
  "db_short db \<longleftrightarrow> db_inv db \<and> icaos_short db"

lemma short_pairs: "db_short db \<Longrightarrow> \<forall>ab \<in> set (row_pairs (snapshot lm db)). short_icaos ab"
  using snapshot_short by (auto simp: db_short_def)

lemma spec_upsert_icaos:
  assumes "spec_upsert lm g now a rows = (rc, rows')" "e \<in> set rows'"
  shows "e \<in> set rows \<or> ac_icao (de_ac e) = ac_icao a"
  using assms by (auto simp: spec_upsert_def refreshed_entry_def fresh_entry_def
      split: if_splits option.splits dest!: set_update_subset_insert [THEN subsetD])

interpretation short_sys: op_system aircraft_db_init "db_step lm g" short_op db_short for lm g
proof
  show "db_short aircraft_db_init" using db_inv_init by (simp add: db_short_def icaos_short_def)
  show "db_short (db_step lm g x s)" if s: "db_short s" and x: "short_op x" for s x
  proof (cases x)
    case (DbUpsert now a)
    obtain rc s' where u: "aircraft_db_upsert lm g now a s = (rc, s')" by fastforce
    have "db_inv s" using s by (simp add: db_short_def)
    note r = upsert_refines [OF this u]
    have "length (ac_icao (de_ac e)) \<le> 6" if "e \<in> set (db_rows s')" for e
      using spec_upsert_icaos [OF conjunct2 [OF r] that] s x DbUpsert by (auto simp: db_short_def icaos_short_def)
    then show ?thesis using r by (simp add: DbUpsert u db_short_def icaos_short_def)
  next
    case (DbReap now)
    then show ?thesis using s by (auto simp: db_short_def icaos_short_def reap_result)
  qed (use s db_inv_init in \<open>auto simp: db_short_def icaos_short_def clear_result\<close>)
qed

text \<open>The state after all pairs and before the sweep.\<close>

definition after_pairs :: "libm \<Rightarrow> bool \<Rightarrow> ms \<Rightarrow> aircraft_db \<Rightarrow> collision \<Rightarrow> missile \<Rightarrow> tick" where
  "after_pairs lm conn now db c m = foldl (pair_step lm conn now db) (tick_start c m) (row_pairs (snapshot lm db))"

lemma work_handler_tracked:
  "c_tracked (fst (work_handler lm conn now db (c, m))) =
   tracked (clear_sweep now (length (tracked (after_pairs lm conn now db c m))) (after_pairs lm conn now db c m))"
  "c_pair_diversion (fst (work_handler lm conn now db (c, m))) = c_pair_diversion (tk_col (after_pairs lm conn now db c m))"
  by (simp_all add: work_handler_def Let_def tick_finish_def after_pairs_def tracked_def)

lemma tick_result:
  fixes conn :: bool and now :: ms and m :: missile
  assumes inv: "col_inv c" and short: "\<forall>ab \<in> set (row_pairs (snapshot lm db)). short_icaos ab"
  defines "c' \<equiv> fst (work_handler lm conn now db (c, m))" and "conf \<equiv> conflict_keys lm (row_pairs (snapshot lm db))"
  shows "col_inv c'" "set (keys_of (c_tracked c')) \<subseteq> conf"
    "card (set (keys_of (c_tracked c)) \<union> conf) \<le> MAX_TRACKED \<Longrightarrow> set (keys_of (c_tracked c')) = conf"
proof -
  let ?s = "after_pairs lm conn now db c m"
  let ?ks = "keys_of (tracked ?s)" and ?seen = "tk_seen ?s"
  have start: "tick_inv (tick_start c m)" using inv by (simp add: tick_inv_def col_inv_def)
  note f = fold_pairs_keys [OF start short, where conn = conn and now = now and db = db and lm = lm, folded after_pairs_def]
  have inv': "tick_inv ?s" and fk: "fold_keys lm (row_pairs (snapshot lm db)) (keys_of (c_tracked c), replicate MAX_TRACKED False) = (?ks, ?seen)"
    using f by simp_all
  have "flags_ok (keys_of (c_tracked c)) (replicate MAX_TRACKED False)"
    using inv by (simp add: flags_ok_def col_inv_def keys_of_def)
  note k = fold_keys_result [OF this fk, folded conf_def]
  have none: "seen_keys (keys_of (c_tracked c)) (replicate MAX_TRACKED False) = {}"
    using inv by (auto simp: seen_keys_def col_inv_def keys_of_def)
  have t: "c_tracked c' = nths (tracked ?s) {j. length (tracked ?s) \<le> j \<or> ?seen ! j}"
    unfolding c'_def work_handler_tracked by (rule clear_sweep_tracked) simp
  have keys: "set (keys_of (c_tracked c')) = seen_keys ?ks ?seen"
    by (auto simp: t keys_of_def set_nths seen_keys_def) (metis nth_map)
  show "set (keys_of (c_tracked c')) \<subseteq> conf" using k(4) none keys by simp
  show "card (set (keys_of (c_tracked c)) \<union> conf) \<le> MAX_TRACKED \<Longrightarrow> set (keys_of (c_tracked c')) = conf"
    using k(5) none keys by simp
  have "keys_of (c_tracked c') = nths ?ks {j. length (tracked ?s) \<le> j \<or> ?seen ! j}"
    by (simp add: t keys_of_def nths_map)
  then have "distinct (keys_of (c_tracked c'))" using inv' by (simp add: tick_inv_def distinct_nthsI)
  moreover have "length (c_tracked c') \<le> length (tracked ?s)" unfolding t length_nths
    by (rule order_trans [OF card_mono [of "{..<length (tracked ?s)}"]]) auto
  moreover have "set (c_tracked c') \<subseteq> set (tracked ?s)" unfolding t by (rule set_nths_subset)
  moreover have "length (c_pair_diversion c') = MAX_TRACKED"
    using inv' unfolding c'_def work_handler_tracked by (simp add: tick_inv_def)
  ultimately show "col_inv c'" using inv' by (auto simp: col_inv_def tick_inv_def)
qed

section \<open>The CRASH lock\<close>

text \<open>One pair leaves the table alone, reworks the entry of an unlocked pair, or adds one.\<close>

lemma pair_step_tracked:
  "tracked (pair_step lm conn now db s ab) = tracked s
   \<or> (\<exists>k. find_tracked (fst (key_of ab)) (snd (key_of ab)) (tracked s) = Some k
        \<and> k < length (tracked s) \<and> \<not> now < tp_crash_until_ms (tracked s ! k)
        \<and> reworked (pair_level (f64_num lm) (fst ab) (snd ab)) k (tracked s) (tracked (pair_step lm conn now db s ab)))
   \<or> (\<exists>t. tracked (pair_step lm conn now db s ab) = tracked s @ [t])"
proof -
  obtain a b where ab: "ab = (a, b)" by fastforce
  obtain lo hi where key: "pair_key (sr_icao a) (sr_icao b) = (lo, hi)" by fastforce
  then show ?thesis
  proof (cases rule: pair_step_cases [of a b lo hi lm conn now db s])
    case alert
    let ?tk = "find_tracked lo hi (tracked s)" and ?s = "s\<lparr>tk_pairs := tk_pairs s + 1\<rparr>"
    have "has_slot ?tk (tracked ?s)" using alert(3) by simp
    note e = alert_slot(1) [OF key this, of "pair_level (f64_num lm) a b" lm conn now db]
    then have rw: "reworked (pair_level (f64_num lm) a b) (slot_of ?tk (tracked s))
        (base_of lo hi (pair_level (f64_num lm) a b) ?tk (tracked s)) (tracked (pair_step lm conn now db s ab))"
      using alert(4) ab by simp
    show ?thesis
    proof (cases ?tk)
      case (Some k)
      then show ?thesis using rw alert(2,3) by (simp add: slot_defs ab key_of_def key)
    next
      case None
      then show ?thesis using rw by (auto simp: slot_of_def base_of_def reworked_def)
    qed
  qed (simp_all add: ab)
qed

lemma locked_entry_pair:
  assumes "k < length (tracked s)" "now < tp_crash_until_ms (tracked s ! k)"
  shows "k < length (tracked (pair_step lm conn now db s ab))"
    "tracked (pair_step lm conn now db s ab) ! k = tracked s ! k"
proof -
  have "k < length (tracked (pair_step lm conn now db s ab)) \<and> tracked (pair_step lm conn now db s ab) ! k = tracked s ! k"
    using pair_step_tracked [of lm conn now db s ab] assms by (auto simp: reworked_def nth_append nth_list_update)
  then show "k < length (tracked (pair_step lm conn now db s ab))"
    "tracked (pair_step lm conn now db s ab) ! k = tracked s ! k" by blast+
qed

lemma locked_entry_fold:
  "k < length (tracked s) \<Longrightarrow> now < tp_crash_until_ms (tracked s ! k) \<Longrightarrow>
   k < length (tracked (foldl (pair_step lm conn now db) s ps))
   \<and> tracked (foldl (pair_step lm conn now db) s ps) ! k = tracked s ! k"
  by (induction ps arbitrary: s) (simp_all add: locked_entry_pair)

lemma locked_entry_tick:
  fixes conn :: bool and now :: ms and m :: missile
  assumes inv: "col_inv c" and short: "\<forall>ab \<in> set (row_pairs (snapshot lm db)). short_icaos ab"
    and t: "t \<in> set (c_tracked c)" "now < tp_crash_until_ms t"
    and conf: "tp_key t \<in> conflict_keys lm (row_pairs (snapshot lm db))"
  shows "t \<in> set (c_tracked (fst (work_handler lm conn now db (c, m))))"
proof -
  let ?s = "after_pairs lm conn now db c m"
  let ?ks = "keys_of (tracked ?s)" and ?seen = "tk_seen ?s"
  obtain k where k: "k < length (c_tracked c)" "c_tracked c ! k = t" using t(1) by (auto simp: in_set_conv_nth)
  have k': "k < length (tracked ?s)" "tracked ?s ! k = t"
    using locked_entry_fold [of k "tick_start c m" now lm conn db "row_pairs (snapshot lm db)"] k t(2)
    by (simp_all add: after_pairs_def)
  have start: "tick_inv (tick_start c m)" using inv by (simp add: tick_inv_def col_inv_def)
  note f = fold_pairs_keys [OF start short, where conn = conn and now = now and db = db and lm = lm, folded after_pairs_def]
  have fk: "fold_keys lm (row_pairs (snapshot lm db)) (keys_of (c_tracked c), replicate MAX_TRACKED False) = (?ks, ?seen)"
    using f by simp
  have "flags_ok (keys_of (c_tracked c)) (replicate MAX_TRACKED False)"
    using inv by (simp add: flags_ok_def col_inv_def keys_of_def)
  from fold_keys_result(6) [OF this fk] conf t(1)
  have "tp_key t \<in> seen_keys ?ks ?seen" by (auto simp: keys_of_def)
  then obtain i where i: "i < length ?ks" "?seen ! i" "tp_key t = ?ks ! i" by (auto simp: seen_keys_def)
  have "distinct ?ks" "?ks ! k = tp_key t" using f k' by (simp_all add: tick_inv_def keys_of_def)
  moreover have "k < length ?ks" using k' by (simp add: keys_of_def)
  ultimately have "i = k" using i nth_eq_iff_index_eq by metis
  moreover have "c_tracked (fst (work_handler lm conn now db (c, m))) =
      nths (tracked ?s) {j. length (tracked ?s) \<le> j \<or> ?seen ! j}"
    unfolding work_handler_tracked by (rule clear_sweep_tracked) simp
  ultimately show ?thesis using i(2) k' by (auto simp: set_nths)
qed

text \<open>
  A pair that newly reaches CRASH: its entry is at CRASH and locked for 15 seconds, and with the
  link up the simulator is sent the CRASH frame.
\<close>

definition crash_frame :: "ms \<Rightarrow> string \<Rightarrow> ble_warning_frame" where
  "crash_frame now other = with_crc (warning_zero\<lparr>wf_msg_type := BLE_WARN_MSG_CRASH,
     wf_icao := pack_icao24_bytes other, wf_severity := BLE_WARN_SEV_URGENT, wf_timestamp := word_of_int now\<rparr>)"

lemma crash_entered:
  fixes s :: tick and conn :: bool and db :: aircraft_db
  assumes key: "pair_key (sr_icao a) (sr_icao b) = (lo, hi)" and lvl: "pair_level (f64_num lm) a b = COLLISION_CRASH"
    and short: "length lo \<le> 6" "length hi \<le> 6"
    and tk: "case find_tracked lo hi (tracked s) of
        Some k \<Rightarrow> tp_level (tracked s ! k) \<noteq> COLLISION_CRASH \<and> \<not> now < tp_crash_until_ms (tracked s ! k)
      | None \<Rightarrow> length (tracked s) < MAX_TRACKED"
  defines "r \<equiv> pair_step lm conn now db s (a, b)"
  shows "\<exists>t \<in> set (tracked r). tp_key t = (lo, hi) \<and> tp_level t = COLLISION_CRASH \<and> tp_crash_until_ms t = now + 15000"
    and "conn \<Longrightarrow> BleSend (crash_frame now (crash_other (sim_side_of db a b) lo a b)) \<in> set (tk_out r)"
proof -
  let ?s = "s\<lparr>tk_pairs := tk_pairs s + 1\<rparr>" and ?tk = "find_tracked lo hi (tracked s)"
  let ?other = "crash_other (sim_side_of db a b) lo a b"
  have "\<not> crash_locked now ?tk (tk_col ?s)" using tk by (cases ?tk) (simp_all add: crash_locked_def tracked_def)
  then have r: "r = alert_pair lm conn now db a b COLLISION_CRASH ?tk ?s"
    by (simp add: r_def pair_step_def key Let_def tracked_def lvl)
  define k where "k = slot_of ?tk (tracked s)"
  define ts where "ts = base_of lo hi COLLISION_CRASH ?tk (tracked s)"
  have found: "?tk = Some i \<Longrightarrow> i < length (tracked s) \<and> tp_key (tracked s ! i) = (lo, hi)" for i
    using find_index_Some [of "\<lambda>t. tp_key t = (lo, hi)" "tracked s"] by (auto simp: find_tracked_key [OF short])
  then have slot: "has_slot ?tk (tracked (count_level COLLISION_CRASH ?s))" and kk: "tp_key (ts ! k) = (lo, hi)"
    using tk by (auto simp: slot_defs ts_def k_def new_pair_def tp_key_def strncpy0_id short split: option.splits)
  obtain prev s1 where q: "record_pair now lo hi COLLISION_CRASH (closest_approach (f64_num lm) a b) ?tk
      (count_level COLLISION_CRASH ?s) = (Some k, prev, s1)" "prev \<noteq> COLLISION_CRASH"
    using record_slot [OF slot, of now lo hi COLLISION_CRASH "closest_approach (f64_num lm) a b"] tk
    by (auto simp: k_def split: option.splits)
  obtain s3 where s3: "r = enter_crash conn now lo hi ?other (Some k) s3"
    using q(2) by (simp add: r alert_pair_def key q(1) Let_def split: option.splits prod.splits)
  have k: "k < length ts" using has_slot_bound [OF slot] by (simp add: k_def ts_def)
  have "has_slot ?tk (tracked ?s)" using slot by simp
  then have rw: "reworked COLLISION_CRASH k ts (tracked r)"
    unfolding r using alert_slot(1) [OF key, of ?tk ?s COLLISION_CRASH lm conn now db] by (simp add: k_def ts_def)
  then have len: "k < length (tracked r)" using k by (auto simp: reworked_def)
  then have "tp_crash_until_ms (tracked r ! k) = now + 15000" by (simp add: s3)
  moreover have "tp_level (tracked r ! k) = COLLISION_CRASH" "tp_key (tracked r ! k) = (lo, hi)"
    using rw k kk by (auto simp: reworked_def)
  ultimately show "\<exists>t \<in> set (tracked r). tp_key t = (lo, hi) \<and> tp_level t = COLLISION_CRASH \<and> tp_crash_until_ms t = now + 15000"
    using len nth_mem by blast
  show "conn \<Longrightarrow> BleSend (crash_frame now ?other) \<in> set (tk_out r)"
    by (simp add: s3 enter_crash_def Let_def send_ble_crash_def crash_frame_def)
qed

section \<open>What is sent\<close>

text \<open>
  A line fits the 320-byte buffer with its NUL; a frame is well formed, its sixteen bytes with
  the checksum sum up to zero, it has one of the three message types, and is only sent with the link up.
\<close>

fun event_ok :: "bool \<Rightarrow> col_event \<Rightarrow> bool" where
  "event_ok conn (UsbLine l) \<longleftrightarrow> length l < 320"
| "event_ok conn (BleSend w) \<longleftrightarrow> conn \<and> warning_ok w \<and> xor_bytes (warning_encode w) = 0
     \<and> wf_msg_type w \<in> {BLE_WARN_MSG_COLLISION, BLE_WARN_MSG_DIVERSION, BLE_WARN_MSG_CRASH}"

definition out_ok :: "bool \<Rightarrow> tick \<Rightarrow> bool" where
  "out_ok conn s \<longleftrightarrow> (\<forall>e \<in> set (tk_out s). event_ok conn e)"

lemma length_pack [simp]: "length (pack_icao24_bytes s) = 3"
  by (simp add: pack_icao24_bytes_def)

lemma with_crc_ok: "warning_ok w \<Longrightarrow> warning_ok (with_crc w) \<and> xor_bytes (warning_encode (with_crc w)) = 0"
  using warning_encode_crc [of w] by (simp add: with_crc_def warning_ok_def)

lemma with_crc_type [simp]: "wf_msg_type (with_crc w) = wf_msg_type w"
  by (simp add: with_crc_def)

lemma warning_zero_ok: "length i = 3 \<Longrightarrow>
   warning_ok (warning_zero\<lparr>wf_msg_type := m, wf_icao := i, wf_severity := v, wf_timestamp := t\<rparr>)"
  by (simp add: warning_ok_def warning_zero_def)

lemma diversion_fields_ok [simp]:
  "warning_ok (diversion_fields d w) = warning_ok w" "wf_msg_type (diversion_fields d w) = wf_msg_type w"
  by (cases d; simp add: warning_ok_def)+

lemma send_events_ok:
  "e \<in> set (send_ble_warning conn now db lo hi) \<Longrightarrow> event_ok conn e"
  "e \<in> set (send_ble_crash conn now other) \<Longrightarrow> event_ok conn e"
  "e \<in> set (send_ble_diversion conn now other d) \<Longrightarrow> event_ok conn e"
  by (auto simp: send_ble_warning_def send_ble_crash_def send_ble_diversion_def Let_def with_crc_ok warning_zero_ok
      split: if_splits)

lemma out_ok_emit: "out_ok conn s \<Longrightarrow> out_ok conn (emit_collision now lo hi lvl a d s)"
  by (auto simp: out_ok_def emit_collision_def Let_def not_le)

lemma out_ok_more:
  "out_ok conn (mark_seen k s) = out_ok conn s" "out_ok conn (count_level l s) = out_ok conn s"
  "out_ok conn (stop_impactor lo hi s) = out_ok conn s" "out_ok conn (s\<lparr>tk_col := c\<rparr>) = out_ok conn s"
  "out_ok conn (s\<lparr>tk_pairs := n\<rparr>) = out_ok conn s"
  by (simp_all add: out_ok_def)

lemma out_ok_send: "out_ok conn s \<Longrightarrow> (\<And>e. e \<in> set es \<Longrightarrow> event_ok conn e) \<Longrightarrow> out_ok conn (send_events es s)"
  by (auto simp: out_ok_def)

lemma out_ok_send_to_sim: "out_ok conn s \<Longrightarrow> out_ok conn (send_to_sim conn now db lo hi lvl thr tp s)"
  by (auto simp: send_to_sim_def Let_def out_ok_more intro!: out_ok_send dest: send_events_ok)

lemma out_ok_enter_crash: "out_ok conn s \<Longrightarrow> out_ok conn (enter_crash conn now lo hi other tp s)"
  by (auto simp: enter_crash_def Let_def out_ok_more intro!: out_ok_send dest: send_events_ok split: option.splits)

lemma out_ok_record: "out_ok conn s \<Longrightarrow> out_ok conn (snd (snd (record_pair now lo hi lvl app tk s)))"
  by (auto simp: record_pair_def Let_def out_ok_more intro!: out_ok_emit split: option.splits)

lemma out_ok_alert: "out_ok conn s \<Longrightarrow> out_ok conn (alert_pair lm conn now db a b lvl tk s)"
proof -
  assume s: "out_ok conn s"
  obtain lo hi where key: "pair_key (sr_icao a) (sr_icao b) = (lo, hi)" by fastforce
  obtain tp prev s1 where r: "record_pair now lo hi lvl (closest_approach (f64_num lm) a b) tk (count_level lvl s) = (tp, prev, s1)"
    using prod_cases3 by blast
  have "out_ok conn s1" using out_ok_record [of conn "count_level lvl s"] s r by (metis out_ok_more(2) snd_conv)
  then show ?thesis
    by (auto simp: alert_pair_def key r Let_def out_ok_more intro!: out_ok_enter_crash out_ok_send_to_sim
        split: option.splits prod.splits)
qed

lemma out_ok_pair: "out_ok conn s \<Longrightarrow> out_ok conn (pair_step lm conn now db s ab)"
  by (auto simp: pair_step_def Let_def out_ok_more intro!: out_ok_alert split: prod.splits)

lemma out_ok_fold: "out_ok conn s \<Longrightarrow> out_ok conn (foldl (pair_step lm conn now db) s ps)"
  by (induction ps arbitrary: s) (simp_all add: out_ok_pair)

lemma out_ok_sweep: "out_ok conn s \<Longrightarrow> out_ok conn (clear_sweep now n s)"
  by (induction n arbitrary: s) (simp_all add: Let_def out_ok_more out_ok_emit)

lemma work_handler_out: "e \<in> set (snd (snd (work_handler lm conn now db (c, m)))) \<Longrightarrow> event_ok conn e"
proof -
  have "out_ok conn (tick_start c m)" by (simp add: out_ok_def)
  then have "out_ok conn (clear_sweep now (length (tracked (after_pairs lm conn now db c m))) (after_pairs lm conn now db c m))"
    unfolding after_pairs_def by (intro out_ok_sweep out_ok_fold)
  then show "e \<in> set (snd (snd (work_handler lm conn now db (c, m)))) \<Longrightarrow> event_ok conn e"
    by (simp add: work_handler_def Let_def tick_finish_def out_ok_def after_pairs_def tracked_def)
qed

section \<open>The stale diversion cache\<close>

text \<open>
  The diversion text kept with a pair and the cached direction that is sent should agree.
  Removing an entry moves the entries behind it but not the cache.
\<close>

definition cache_agrees :: "collision \<Rightarrow> bool" where
  "cache_agrees c \<longleftrightarrow> (\<forall>k < length (c_tracked c). tp_diversion (c_tracked c ! k) \<noteq> [] \<longrightarrow>
     tp_diversion (c_tracked c ! k) = collision_diversion_str (c_pair_diversion c ! k))"

lemma tracked_remove_moves:
  assumes "i < length (c_tracked c)" "j < length (c_tracked c) - 1"
  shows "c_tracked (tracked_remove i c) ! j = c_tracked c ! (if j < i then j else Suc j)"
    "c_pair_diversion (tracked_remove i c) = c_pair_diversion c"
  using assms by (simp_all add: tracked_remove_def nth_delete_at)

section \<open>The detector as a system\<close>

text \<open>Ticks at any time, with the link up or down, on any database the other threads leave.\<close>

datatype col_op = ColInit ms | ColTick bool ms aircraft_db missile

fun col_step :: "libm \<Rightarrow> col_op \<Rightarrow> collision \<Rightarrow> collision" where
  "col_step lm (ColInit now) c = collision_init now c"
| "col_step lm (ColTick conn now db m) c = fst (work_handler lm conn now db (c, m))"

fun col_legal :: "col_op \<Rightarrow> bool" where
  "col_legal (ColInit now) \<longleftrightarrow> True"
| "col_legal (ColTick conn now db m) \<longleftrightarrow> db_inv db \<and> icaos_short db"

interpretation tracker_sys: op_system collision_boot "col_step lm" col_legal col_inv for lm
proof
  show "col_inv collision_boot" by (simp add: col_inv_def collision_boot_def keys_of_def)
  show "col_inv (col_step lm x s)" if "col_inv s" "col_legal x" for s x
  proof (cases x)
    case (ColInit now)
    then show ?thesis using that(1) by (auto simp: col_inv_def collision_init_def keys_of_def)
  next
    case (ColTick conn now db m)
    then show ?thesis using that tick_result(1) [OF that(1) snapshot_short] by simp
  qed
qed

text \<open>
  After any ticks and restarts, on whatever sound databases they find, the table holds at
  most 32 pairs, no pair twice, none at CLEAR, and the diversion cache keeps its 32 entries.
\<close>

lemma tracker_invariant:
  assumes "\<forall>x \<in> set ops. col_legal x"
  shows "col_inv (run (col_step lm) collision_boot ops)"
  by (rule tracker_sys.inv_run [OF assms])

end
