(* ===== verification/Bridge.thy ===== *)
theory Bridge
  imports Ble_Packet Printf Aircraft_Db_Correct
begin

text \<open>
  \<open>bridge.c\<close>: frames from the BLE callback go through a message queue to a thread that
  validates them, converts them to the common record and stores them in the database.  The
  queue is Zephyr's \<open>k_msgq\<close>, a parameter; \<open>msgq_spec\<close> is its documented behaviour: first in
  first out, and a put without waiting fails exactly when the queue holds its maximum.  Log
  output is left out.
\<close>

section \<open>Message queue\<close>

record ('a, 'q) msgq =
  msgq_put :: "'a \<Rightarrow> 'q \<Rightarrow> bool \<times> 'q"
  msgq_get :: "'q \<Rightarrow> ('a \<times> 'q) option"

definition msgq_spec :: "nat \<Rightarrow> ('q \<Rightarrow> 'a list) \<Rightarrow> ('a, 'q) msgq \<Rightarrow> bool" where
  "msgq_spec depth contents ops \<longleftrightarrow>
     (\<forall>q x. length (contents q) \<le> depth \<longrightarrow>
        (case msgq_put ops x q of (stored, q') \<Rightarrow>
           stored = (length (contents q) < depth)
           \<and> contents q' = (if stored then contents q @ [x] else contents q)))
   \<and> (\<forall>q. case msgq_get ops q of None \<Rightarrow> contents q = []
        | Some (x, q') \<Rightarrow> contents q = x # contents q')"

text \<open>A queue with this behaviour.\<close>

definition list_msgq :: "nat \<Rightarrow> ('a, 'a list) msgq" where
  [sky_eval]: "list_msgq depth = \<lparr>msgq_put = (\<lambda>x q. if length q < depth then (True, q @ [x]) else (False, q)),
     msgq_get = (\<lambda>q. case q of [] \<Rightarrow> None | x # q' \<Rightarrow> Some (x, q'))\<rparr>"

lemma list_msgq_spec: "msgq_spec depth (\<lambda>q. q) (list_msgq depth)"
  by (auto simp: msgq_spec_def list_msgq_def split: list.splits)

lemma msgq_putD:
  assumes "msgq_spec d contents ops" "length (contents q) \<le> d" "msgq_put ops x q = (stored, q')"
  shows "stored = (length (contents q) < d)"
    "contents q' = (if length (contents q) < d then contents q @ [x] else contents q)"
proof -
  have "case msgq_put ops x q of (stored, q') \<Rightarrow> stored = (length (contents q) < d)
      \<and> contents q' = (if stored then contents q @ [x] else contents q)"
    by (rule assms(1) [unfolded msgq_spec_def, THEN conjunct1, rule_format, OF assms(2)])
  then show "stored = (length (contents q) < d)"
    "contents q' = (if length (contents q) < d then contents q @ [x] else contents q)"
    unfolding assms(3) by simp_all
qed

lemma msgq_getD:
  assumes "msgq_spec d contents ops"
  shows "msgq_get ops q = None \<Longrightarrow> contents q = []"
    "msgq_get ops q = Some (x, q') \<Longrightarrow> contents q = x # contents q'"
proof -
  have "case msgq_get ops q of None \<Rightarrow> contents q = [] | Some (x, q') \<Rightarrow> contents q = x # contents q'"
    by (rule assms [unfolded msgq_spec_def, THEN conjunct2, rule_format])
  then show "msgq_get ops q = None \<Longrightarrow> contents q = []"
    "msgq_get ops q = Some (x, q') \<Longrightarrow> contents q = x # contents q'"
    by simp_all
qed

section \<open>State\<close>

definition BRIDGE_QUEUE_DEPTH :: nat where [sky_eval]: "BRIDGE_QUEUE_DEPTH = 8"

record bridge_stats =
  bs_submitted :: u32
  bs_drops :: u32
  bs_converted :: u32
  bs_rej_source :: u32
  bs_rej_icao :: u32
  bs_rej_latlon :: u32

definition bridge_stats_zero :: bridge_stats where
  [sky_eval]: "bridge_stats_zero = \<lparr>bs_submitted = 0, bs_drops = 0, bs_converted = 0, bs_rej_source = 0,
     bs_rej_icao = 0, bs_rej_latlon = 0\<rparr>"

record 'q bridge =
  br_stats :: bridge_stats
  br_msgq :: 'q

section \<open>Operations\<close>

definition bridge_convert :: "ble_aircraft_frame \<Rightarrow> bridge_stats \<Rightarrow> (errno + aircraft_t) \<times> bridge_stats" where
  "bridge_convert f st =
     (if bf_source f \<noteq> BLE_SRC_ADS_B \<and> bf_source f \<noteq> BLE_SRC_BLE_SIM
      then (Inl EINVAL, st\<lparr>bs_rej_source := bs_rej_source st + 1\<rparr>)
      else if bf_icao24 f > 0xFFFFFF
      then (Inl EINVAL, st\<lparr>bs_rej_icao := bs_rej_icao st + 1\<rparr>)
      else if bf_lat f < fp_lit (- 90) 1 \<or> fp_lit 90 1 < bf_lat f
           \<or> bf_lon f < fp_lit (- 180) 1 \<or> fp_lit 180 1 < bf_lon f
      then (Inl EINVAL, st\<lparr>bs_rej_latlon := bs_rej_latlon st + 1\<rparr>)
      else
        let o0 = aircraft_zero
                   \<lparr>ac_icao := fst (snprintf AIRCRAFT_ICAO_BUF_LEN (show_hex 6 (uint (bf_icao24 f AND 0xFFFFFF)))),
                    ac_lat := bf_lat f, ac_lon := bf_lon f,
                    ac_ts := fp_of_int (uint (bf_ts_ms f)) / fp_lit 1000 1,
                    ac_source := (if bf_source f = BLE_SRC_BLE_SIM then SRC_BLE_SIM else SRC_ADS_B)\<rparr>;
            o1 = (if bf_flags f AND BLE_FLAG_ALT_VALID \<noteq> 0
                  then o0\<lparr>ac_valid_mask := ac_valid_mask o0 OR AIRCRAFT_VALID_ALT, ac_alt_ft := scast (bf_alt_ft f)\<rparr>
                  else o0);
            o2 = (if bf_flags f AND BLE_FLAG_VEL_VALID \<noteq> 0
                  then o1\<lparr>ac_valid_mask := ac_valid_mask o1 OR AIRCRAFT_VALID_VEL, ac_vel_kt := fp_of_int (sint (bf_vel_kt f))\<rparr>
                  else o1);
            o3 = (if bf_flags f AND BLE_FLAG_HDG_VALID \<noteq> 0
                  then o2\<lparr>ac_valid_mask := ac_valid_mask o2 OR AIRCRAFT_VALID_HDG, ac_hdg_deg := fp_of_int (sint (bf_hdg_deg f))\<rparr>
                  else o2)
        in (Inr o3, st))"

definition bridge_submit_frame ::
  "(ble_aircraft_frame, 'q) msgq \<Rightarrow> ble_aircraft_frame \<Rightarrow> 'q bridge \<Rightarrow> 'q bridge" where
  "bridge_submit_frame ops f br =
     (let st = (br_stats br)\<lparr>bs_submitted := bs_submitted (br_stats br) + 1\<rparr>;
          (stored, q) = msgq_put ops f (br_msgq br)
      in br\<lparr>br_stats := (if stored then st else st\<lparr>bs_drops := bs_drops st + 1\<rparr>), br_msgq := q\<rparr>)"

text \<open>One round of \<open>bridge_thread_fn\<close>; on an empty queue the thread waits.\<close>

definition bridge_thread_step ::
  "(ble_aircraft_frame, 'q) msgq \<Rightarrow> libm \<Rightarrow> f64 kalman_tuning \<Rightarrow> ms \<Rightarrow> 'q bridge \<times> aircraft_db
     \<Rightarrow> 'q bridge \<times> aircraft_db" where
  "bridge_thread_step ops lm g now s = (case s of (br, db) \<Rightarrow>
     (case msgq_get ops (br_msgq br) of
        None \<Rightarrow> (br, db)
      | Some (f, q) \<Rightarrow>
          (let (rc, st) = bridge_convert f (br_stats br); br1 = br\<lparr>br_stats := st, br_msgq := q\<rparr>
           in case rc of
                Inl _ \<Rightarrow> (br1, db)
              | Inr a \<Rightarrow> (br1\<lparr>br_stats := st\<lparr>bs_converted := bs_converted st + 1\<rparr>\<rparr>,
                          snd (aircraft_db_upsert lm g now a db)))))"

definition bridge_init :: "'q bridge \<Rightarrow> 'q bridge" where
  "bridge_init br = br\<lparr>br_stats := bridge_stats_zero\<rparr>"

definition bridge_get_stats :: "'q bridge \<Rightarrow> bridge_stats" where
  "bridge_get_stats br = br_stats br"

lemmas bridge_defs [sky_eval] = bridge_convert_def bridge_submit_frame_def bridge_thread_step_def
  bridge_init_def bridge_get_stats_def

section \<open>What conversion accepts and produces\<close>

definition frame_accepted :: "ble_aircraft_frame \<Rightarrow> bool" where
  "frame_accepted f \<longleftrightarrow> bf_source f \<in> {BLE_SRC_ADS_B, BLE_SRC_BLE_SIM} \<and> uint (bf_icao24 f) < 2 ^ 24
     \<and> (isfinite (bf_lat f) \<longrightarrow> \<bar>fp_val (bf_lat f)\<bar> \<le> 90) \<and> (isfinite (bf_lon f) \<longrightarrow> \<bar>fp_val (bf_lon f)\<bar> \<le> 180)
     \<and> (\<forall>s. bf_lat f \<noteq> FInf s) \<and> (\<forall>s. bf_lon f \<noteq> FInf s)"

definition icao_string :: "int \<Rightarrow> string" where
  "icao_string n = show_hex 6 n"

text \<open>
  The record a frame stands for: an absent optional field leaves its value zero and its bit
  clear.
\<close>

definition frame_observation :: "ble_aircraft_frame \<Rightarrow> aircraft_t" where
  "frame_observation f = (let has = (\<lambda>b. bf_flags f AND b \<noteq> 0) in
     \<lparr>ac_icao = icao_string (uint (bf_icao24 f)), ac_lat = bf_lat f, ac_lon = bf_lon f,
      ac_ts = fp_of_int (uint (bf_ts_ms f)) / fp_lit 1000 1,
      ac_source = (if bf_source f = BLE_SRC_BLE_SIM then SRC_BLE_SIM else SRC_ADS_B),
      ac_valid_mask = (if has BLE_FLAG_ALT_VALID then AIRCRAFT_VALID_ALT else 0)
        OR (if has BLE_FLAG_VEL_VALID then AIRCRAFT_VALID_VEL else 0)
        OR (if has BLE_FLAG_HDG_VALID then AIRCRAFT_VALID_HDG else 0),
      ac_alt_ft = (if has BLE_FLAG_ALT_VALID then scast (bf_alt_ft f) else 0),
      ac_vel_kt = (if has BLE_FLAG_VEL_VALID then fp_of_int (sint (bf_vel_kt f)) else 0),
      ac_hdg_deg = (if has BLE_FLAG_HDG_VALID then fp_of_int (sint (bf_hdg_deg f)) else 0),
      ac_pred_lat = 0, ac_pred_lon = 0\<rparr>)"

lemma within_limits:
  assumes "\<bar>n\<bar> < 2 ^ 53"
  shows "(\<not> x < fp_lit (- n) 1 \<and> \<not> fp_lit n 1 < (x :: f64)) \<longleftrightarrow>
    (isfinite x \<longrightarrow> \<bar>fp_val x\<bar> \<le> of_int n) \<and> (\<forall>s. x \<noteq> FInf s)"
proof (cases x)
  case (FInf s)
  have "isfinite (fp_of_int n :: f64)" "isfinite (fp_of_int (- n) :: f64)" using assms by simp_all
  then obtain s1 m1 e1 s2 m2 e2 where "(fp_of_int n :: f64) = Fin s1 m1 e1" "(fp_of_int (- n) :: f64) = Fin s2 m2 e2"
    by (metis isfinite_cases)
  with FInf show ?thesis by (cases s) (auto simp: fp_lit_int less_fp_def)
next
  case (Fin s m e)
  then have "isfinite x" by simp
  then show ?thesis using assms by (auto simp: fp_lit_int fp_less_val)
qed (simp add: fp_lit_int)

lemma length_icao_string: "0 \<le> n \<Longrightarrow> n < 2 ^ 24 \<Longrightarrow> length (icao_string n) = 6"
  using length_digits_base [of 16 n 5]
  by (simp add: icao_string_def show_hex_def length_pad0 show_base_def)

lemma uint_and_24: "uint w < 2 ^ 24 \<Longrightarrow> uint ((w :: u32) AND 0xFFFFFF) = uint w"
proof -
  assume w: "uint w < 2 ^ 24"
  have "uint (w AND 0xFFFFFF) = uint w AND mask 24" by (simp add: uint_and mask_eq_exp_minus_1)
  then have "uint (w AND 0xFFFFFF) = take_bit 24 (uint w)" by (simp only: take_bit_eq_mask)
  then show ?thesis using w by (simp add: take_bit_int_eq_self_iff)
qed

lemma icao_above: "(0xFFFFFF < (w :: u32)) \<longleftrightarrow> \<not> uint w < 2 ^ 24"
  by (simp add: word_less_def) linarith

lemma convert_accepts:
  assumes "frame_accepted f"
  shows "bridge_convert f st = (Inr (frame_observation f), st)"
proof -
  have n: "uint (bf_icao24 f) < 2 ^ 24" using assms by (simp add: frame_accepted_def)
  have "length (icao_string (uint (bf_icao24 f))) = 6" using n by (intro length_icao_string) simp_all
  then have s: "fst (snprintf AIRCRAFT_ICAO_BUF_LEN (show_hex 6 (uint (bf_icao24 f)))) = icao_string (uint (bf_icao24 f))"
    by (simp add: snprintf_def AIRCRAFT_ICAO_BUF_LEN_def icao_string_def)
  show ?thesis
    using assms within_limits [of 90 "bf_lat f"] within_limits [of 180 "bf_lon f"]
    unfolding bridge_convert_def Let_def icao_above uint_and_24 [OF n] s
    by (simp add: frame_accepted_def frame_observation_def Let_def aircraft_zero_def or.assoc)
qed

lemma convert_rejects:
  assumes "\<not> frame_accepted f"
  shows "\<exists>st'. bridge_convert f st = (Inl EINVAL, st') \<and>
    (st' = st\<lparr>bs_rej_source := bs_rej_source st + 1\<rparr> \<or> st' = st\<lparr>bs_rej_icao := bs_rej_icao st + 1\<rparr>
     \<or> st' = st\<lparr>bs_rej_latlon := bs_rej_latlon st + 1\<rparr>)"
proof -
  have "bf_source f \<noteq> BLE_SRC_ADS_B \<and> bf_source f \<noteq> BLE_SRC_BLE_SIM \<or> bf_icao24 f > 0xFFFFFF
    \<or> (bf_lat f < fp_lit (- 90) 1 \<or> fp_lit 90 1 < bf_lat f \<or> bf_lon f < fp_lit (- 180) 1 \<or> fp_lit 180 1 < bf_lon f)"
    using assms within_limits [of 90 "bf_lat f"] within_limits [of 180 "bf_lon f"]
    by (auto simp: frame_accepted_def icao_above)
  then show ?thesis unfolding bridge_convert_def by (auto simp: Let_def)
qed

section \<open>The bridge as a system\<close>

datatype bridge_event = Submit ble_aircraft_frame | Drain ms

fun bridge_step ::
  "(ble_aircraft_frame, 'q) msgq \<Rightarrow> libm \<Rightarrow> f64 kalman_tuning \<Rightarrow> bridge_event \<Rightarrow> 'q bridge \<times> aircraft_db
     \<Rightarrow> 'q bridge \<times> aircraft_db" where
  "bridge_step ops lm g (Submit f) s = (bridge_submit_frame ops f (fst s), snd s)"
| "bridge_step ops lm g (Drain now) s = bridge_thread_step ops lm g now s"

text \<open>Every frame submitted is dropped, converted, rejected for one reason, or still queued.\<close>

definition frames_balance :: "bridge_stats \<Rightarrow> nat \<Rightarrow> bool" where
  "frames_balance st queued \<longleftrightarrow> bs_submitted st =
     bs_drops st + bs_converted st + bs_rej_source st + bs_rej_icao st + bs_rej_latlon st + of_nat queued"

definition bridge_inv :: "('q \<Rightarrow> ble_aircraft_frame list) \<Rightarrow> 'q bridge \<times> aircraft_db \<Rightarrow> bool" where
  "bridge_inv contents s \<longleftrightarrow> frames_balance (br_stats (fst s)) (length (contents (br_msgq (fst s))))
     \<and> length (contents (br_msgq (fst s))) \<le> BRIDGE_QUEUE_DEPTH \<and> db_inv (snd s)"

lemma bridge_inv_submit:
  assumes sp: "msgq_spec BRIDGE_QUEUE_DEPTH contents ops" and inv: "bridge_inv contents (br, db)"
  shows "bridge_inv contents (bridge_submit_frame ops f br, db)"
proof -
  obtain stored q where p: "msgq_put ops f (br_msgq br) = (stored, q)" by fastforce
  have "length (contents (br_msgq br)) \<le> BRIDGE_QUEUE_DEPTH" using inv by (simp add: bridge_inv_def)
  note q = msgq_putD [OF sp this p]
  show ?thesis using inv q
    by (auto simp: bridge_inv_def frames_balance_def bridge_submit_frame_def Let_def p split: if_splits)
qed

lemma bridge_inv_thread:
  assumes sp: "msgq_spec BRIDGE_QUEUE_DEPTH contents ops" and inv: "bridge_inv contents (br, db)"
  shows "bridge_inv contents (bridge_thread_step ops lm g now (br, db))"
proof (cases "msgq_get ops (br_msgq br)")
  case None
  then show ?thesis using inv by (simp add: bridge_thread_step_def)
next
  case (Some fq)
  obtain f q where [simp]: "fq = (f, q)" by fastforce
  have q: "contents (br_msgq br) = f # contents q" using msgq_getD(2) [OF sp] Some by simp
  show ?thesis
  proof (cases "frame_accepted f")
    case True
    show ?thesis using inv q
      by (auto simp: bridge_thread_step_def Some convert_accepts [OF True] bridge_inv_def frames_balance_def
          db_inv_upsert)
  next
    case False
    obtain st' where c: "bridge_convert f (br_stats br) = (Inl EINVAL, st')"
      and st': "st' = (br_stats br)\<lparr>bs_rej_source := bs_rej_source (br_stats br) + 1\<rparr>
        \<or> st' = (br_stats br)\<lparr>bs_rej_icao := bs_rej_icao (br_stats br) + 1\<rparr>
        \<or> st' = (br_stats br)\<lparr>bs_rej_latlon := bs_rej_latlon (br_stats br) + 1\<rparr>"
      using convert_rejects [OF False] by blast
    show ?thesis using inv q st'
      by (auto simp: bridge_thread_step_def Some c bridge_inv_def frames_balance_def)
  qed
qed

lemma bridge_system:
  assumes "msgq_spec BRIDGE_QUEUE_DEPTH contents ops" "bridge_inv contents s0"
  shows "op_system s0 (bridge_step ops lm g) (\<lambda>_. True) (bridge_inv contents)"
proof
  fix s x assume "bridge_inv contents s"
  then show "bridge_inv contents (bridge_step ops lm g x s)"
    using bridge_inv_submit [OF assms(1)] bridge_inv_thread [OF assms(1)] by (cases s; cases x) auto
qed (rule assms(2))

lemma upsert_room:
  assumes "db_inv db" "aircraft_db_count db < int AIRCRAFT_DB_MAX_ENTRIES"
  shows "fst (aircraft_db_upsert lm g now a db) \<noteq> Inl ENOMEM"
proof -
  obtain rc db' where u: "aircraft_db_upsert lm g now a db = (rc, db')" by fastforce
  show ?thesis using upsert_refines [OF assms(1) u] assms(2)
    by (auto simp: u spec_upsert_def count_rows split: if_splits option.splits)
qed

text \<open>
  A valid frame at the head of the queue is in the database after one round of the thread,
  unless a new aircraft finds the pool full.
\<close>

lemma thread_stores:
  assumes sp: "msgq_spec BRIDGE_QUEUE_DEPTH contents ops" and inv: "db_inv db"
    and head: "contents (br_msgq br) = f # fs" and ok: "frame_accepted f"
    and room: "fst (aircraft_db_upsert lm g now (frame_observation f) db) \<noteq> Inl ENOMEM"
  shows "\<exists>a. aircraft_db_lookup (icao_string (uint (bf_icao24 f)))
      (snd (bridge_thread_step ops lm g now (br, db))) = Inr a \<and> same_observation a (frame_observation f)"
proof -
  obtain q where get: "msgq_get ops (br_msgq br) = Some (f, q)"
    using msgq_getD [OF sp] head by (cases "msgq_get ops (br_msgq br)") auto
  let ?a = "frame_observation f"
  have icao: "ac_icao ?a = icao_string (uint (bf_icao24 f))" by (simp add: frame_observation_def Let_def)
  obtain rc db' where u: "aircraft_db_upsert lm g now ?a db = (rc, db')" by fastforce
  have "length (ac_icao ?a) = 6" unfolding icao using ok by (intro length_icao_string) (simp_all add: frame_accepted_def)
  then have "ac_icao ?a \<noteq> []" by auto
  then have "rc \<noteq> Inl EINVAL \<or> rc = Inl ENOMEM" "\<exists>r. rc = Inr r \<or> rc = Inl ENOMEM"
    using u by (auto simp: aircraft_db_upsert_def Let_def split: option.splits)
  then obtain r where "rc = Inr r" using room u by auto
  then show ?thesis
    using db_store.get_put [OF inv, of lm g now ?a r db'] u
    by (simp add: bridge_thread_step_def get convert_accepts [OF ok] icao)
qed

text \<open>
  With any queue that behaves as Zephyr documents it, after any interleaving of
  notifications and rounds of the thread, every frame submitted is accounted for once (dropped,
  converted, rejected for one reason, or still queued, modulo \<open>2 ^ 32\<close>), at most 8 are queued,
  and the database is sound.
\<close>

lemma bridge_accounts:
  assumes "msgq_spec BRIDGE_QUEUE_DEPTH contents ops" "contents q = []"
  shows "bridge_inv contents (run (bridge_step ops lm g) (bridge_init \<lparr>br_stats = st, br_msgq = q\<rparr>, aircraft_db_init) evs)"
proof -
  have "bridge_inv contents (bridge_init \<lparr>br_stats = st, br_msgq = q\<rparr>, aircraft_db_init)"
    using assms(2) db_inv_init by (simp add: bridge_inv_def frames_balance_def bridge_init_def bridge_stats_zero_def)
  from op_system.inv_run [OF bridge_system [OF assms(1) this]] show ?thesis by simp
qed

end
