(* ===== verification/Collision_Scenarios.thy ===== *)
theory Collision_Scenarios
  imports Collision_Tracker_Correct Bridge
begin

text \<open>
  The test scenarios of \<open>collision.c\<close>: the injected pair, the ghost that is put on a head-on
  course with an aircraft, the manual CRASH trigger and the manual diversion.  They act on the
  detector's static state and the database; \<open>c_inject_due\<close> and \<open>c_ghost_due\<close> are when the work
  queue is to run their handlers next.
\<close>

section \<open>Injected pair\<close>

definition INJECT_SPEED_KT :: f64 where [sky_eval]: "INJECT_SPEED_KT = fp_lit 250 1"
definition INJECT_TICK_MS :: ms where [sky_eval]: "INJECT_TICK_MS = 1000"

definition inject_reset_state :: "ms \<Rightarrow> collision \<Rightarrow> collision" where
  "inject_reset_state now c = c\<lparr>c_inj_a_lat := fp_lit (- 2755) 100, c_inj_a_lon := fp_lit 15297 100,
     c_inj_b_lat := fp_lit (- 2755) 100, c_inj_b_lon := fp_lit 15303 100, c_inj_last_step_ms := now\<rparr>"

definition inject_step_and_upsert ::
  "libm \<Rightarrow> f64 kalman_tuning \<Rightarrow> ms \<Rightarrow> f64 \<Rightarrow> collision \<times> aircraft_db \<Rightarrow> collision \<times> aircraft_db" where
  "inject_step_and_upsert lm g now dt s = (case s of (c, db) \<Rightarrow>
     let nm = f64_num lm;
         speed_mps = INJECT_SPEED_KT * KT_TO_MPS nm;
         dlon_a = (speed_mps * dt) * deg_per_m_lon_at nm (c_inj_a_lat c);
         dlon_b = (speed_mps * dt) * deg_per_m_lon_at nm (c_inj_b_lat c);
         c1 = c\<lparr>c_inj_a_lon := c_inj_a_lon c + dlon_a, c_inj_b_lon := c_inj_b_lon c - dlon_b\<rparr>;
         a = fict_aircraft ''c011a1'' now (c_inj_a_lat c1) (c_inj_a_lon c1) INJECT_SPEED_KT (fp_lit 90 1);
         b = fict_aircraft ''c011b2'' now (c_inj_b_lat c1) (c_inj_b_lon c1) INJECT_SPEED_KT (fp_lit 270 1)
     in (c1, snd (aircraft_db_upsert lm g now b (snd (aircraft_db_upsert lm g now a db)))))"

definition inject_keepalive_handler ::
  "libm \<Rightarrow> f64 kalman_tuning \<Rightarrow> ms \<Rightarrow> collision \<times> aircraft_db \<Rightarrow> collision \<times> aircraft_db" where
  "inject_keepalive_handler lm g now s = (case s of (c0, db) \<Rightarrow>
     let c = c0\<lparr>c_inject_due := None\<rparr> in
     if \<not> c_inject_active c then (c, db)
     else let dt = step_dt INJECT_TICK_MS now (c_inj_last_step_ms c);
              (c1, db1) = inject_step_and_upsert lm g now dt (c\<lparr>c_inj_last_step_ms := now\<rparr>, db)
          in (c1\<lparr>c_inject_due := Some (now + INJECT_TICK_MS)\<rparr>, db1))"

definition collision_inject_scenario ::
  "libm \<Rightarrow> f64 kalman_tuning \<Rightarrow> ms \<Rightarrow> collision \<times> aircraft_db \<Rightarrow> collision \<times> aircraft_db" where
  "collision_inject_scenario lm g now s = (case s of (c, db) \<Rightarrow>
     let (c1, db1) = inject_step_and_upsert lm g now (fp_lit 0 1) (inject_reset_state now c, db)
     in (c1\<lparr>c_inject_active := True, c_inject_due := Some (now + INJECT_TICK_MS)\<rparr>, db1))"

definition collision_inject_stop :: "collision \<Rightarrow> collision" where
  "collision_inject_stop c = c\<lparr>c_inject_active := False\<rparr>"

section \<open>Ghost\<close>

definition GHOST_SPEED_KT :: f64 where [sky_eval]: "GHOST_SPEED_KT = fp_lit 250 1"
definition GHOST_TCA_TARGET_S :: f64 where [sky_eval]: "GHOST_TCA_TARGET_S = fp_lit 23 1"
definition GHOST_TICK_MS :: ms where [sky_eval]: "GHOST_TICK_MS = 3000"

definition ghost_upsert :: "libm \<Rightarrow> f64 kalman_tuning \<Rightarrow> ms \<Rightarrow> collision \<Rightarrow> aircraft_db \<Rightarrow> aircraft_db" where
  "ghost_upsert lm g now c db = snd (aircraft_db_upsert lm g now
     ((fict_aircraft GHOST_ICAO now (c_ghost_lat c) (c_ghost_lon c) GHOST_SPEED_KT (c_ghost_hdg_deg c))
        \<lparr>ac_valid_mask := AIRCRAFT_VALID_ALT OR AIRCRAFT_VALID_VEL OR AIRCRAFT_VALID_HDG,
         ac_alt_ft := c_ghost_alt_ft c\<rparr>) db)"

definition ghost_keepalive_handler ::
  "libm \<Rightarrow> f64 kalman_tuning \<Rightarrow> ms \<Rightarrow> collision \<times> aircraft_db \<Rightarrow> collision \<times> aircraft_db" where
  "ghost_keepalive_handler lm g now s = (case s of (c0, db) \<Rightarrow>
     let c = c0\<lparr>c_ghost_due := None\<rparr>; nm = f64_num lm in
     if \<not> c_ghost_active c then (c, db)
     else let dt = step_dt GHOST_TICK_MS now (c_ghost_last_step_ms c);
              lat' = c_ghost_lat c + c_ghost_v_north_mps c * dt * DEG_PER_M_LAT nm;
              lon' = c_ghost_lon c + c_ghost_v_east_mps c * dt * deg_per_m_lon_at nm lat';
              c1 = c\<lparr>c_ghost_last_step_ms := now, c_ghost_lat := lat', c_ghost_lon := lon'\<rparr>
          in (c1\<lparr>c_ghost_due := Some (now + GHOST_TICK_MS)\<rparr>, ghost_upsert lm g now c1 db))"

text \<open>The loop that drops the tracked pairs of the ghost, from the last entry down.\<close>

fun drop_ghost_pairs :: "nat \<Rightarrow> collision \<Rightarrow> collision" where
  "drop_ghost_pairs 0 c = c"
| "drop_ghost_pairs (Suc i) c =
     drop_ghost_pairs i
       (if strncmp_eq AIRCRAFT_ICAO_BUF_LEN (tp_icao_a (c_tracked c ! i)) GHOST_ICAO
           \<or> strncmp_eq AIRCRAFT_ICAO_BUF_LEN (tp_icao_b (c_tracked c ! i)) GHOST_ICAO
        then tracked_remove i c else c)"

definition ghost_altitude :: "aircraft_t \<Rightarrow> s32 \<Rightarrow> s32" where
  "ghost_altitude target alt_ft =
     (if alt_ft <s 0 then if ac_has target AIRCRAFT_VALID_ALT then ac_alt_ft target else 5000 else alt_ft)"

definition ghost_start_internal ::
  "libm \<Rightarrow> f64 kalman_tuning \<Rightarrow> ms \<Rightarrow> aircraft_t \<Rightarrow> f64 \<Rightarrow> f64 \<Rightarrow> s32 \<Rightarrow> collision \<times> aircraft_db
     \<Rightarrow> collision \<times> aircraft_db" where
  "ghost_start_internal lm g now target tca_s miss_m alt_ft s = (case s of (c0, db) \<Rightarrow>
     let nm = f64_num lm;
         c = (if c_ghost_active c0
              then drop_ghost_pairs (length (c_tracked c0)) (c0\<lparr>c_ghost_due := None, c_ghost_active := False\<rparr>) else c0);
         tca = (if tca_s \<le> 0 then GHOST_TCA_TARGET_S else tca_s);
         miss = (if miss_m < 0 then fp_lit 0 1 else miss_m);
         target_hdg = (if ac_has target AIRCRAFT_VALID_HDG then ac_hdg_deg target else fp_lit 0 1);
         hdg = fp_fmod (target_hdg + fp_lit 180 1) (fp_lit 360 1);
         speed_mps = GHOST_SPEED_KT * KT_TO_MPS nm;
         hdg_rad = hdg * deg2rad nm;
         closing_speed_mps = fp_lit 2 1 * speed_mps;
         range_m = closing_speed_mps * tca;
         t_hdg_rad = target_hdg * deg2rad nm;
         along_dn = m_cos lm t_hdg_rad; along_de = m_sin lm t_hdg_rad;
         perp_dn = - m_sin lm t_hdg_rad; perp_de = m_cos lm t_hdg_rad;
         dn = range_m * along_dn + miss * perp_dn;
         de = range_m * along_de + miss * perp_de;
         c1 = c\<lparr>c_ghost_alt_ft := ghost_altitude target alt_ft, c_ghost_hdg_deg := hdg,
                c_ghost_v_north_mps := speed_mps * m_cos lm hdg_rad,
                c_ghost_v_east_mps := speed_mps * m_sin lm hdg_rad,
                c_ghost_lat := ac_lat target + dn * DEG_PER_M_LAT nm,
                c_ghost_lon := ac_lon target + de * deg_per_m_lon_at nm (ac_lat target),
                c_ghost_last_step_ms := now\<rparr>
     in (c1\<lparr>c_ghost_active := True, c_ghost_due := Some (now + GHOST_TICK_MS)\<rparr>, ghost_upsert lm g now c1 db))"

definition collision_ghost_start ::
  "libm \<Rightarrow> f64 kalman_tuning \<Rightarrow> ms \<Rightarrow> f64 \<Rightarrow> f64 \<Rightarrow> s32 \<Rightarrow> collision \<times> aircraft_db
     \<Rightarrow> (errno + unit) \<times> collision \<times> aircraft_db" where
  "collision_ghost_start lm g now tca_s miss_m alt_ft s = (case find_ble_sim (snd s) of
     None \<Rightarrow> (Inl ENOENT, s)
   | Some target \<Rightarrow> (Inr (), ghost_start_internal lm g now target tca_s miss_m alt_ft s))"

text \<open>The target's address; the empty string for NULL.\<close>

definition collision_ghost_start_at ::
  "libm \<Rightarrow> f64 kalman_tuning \<Rightarrow> ms \<Rightarrow> string \<Rightarrow> f64 \<Rightarrow> f64 \<Rightarrow> s32 \<Rightarrow> collision \<times> aircraft_db
     \<Rightarrow> (errno + unit) \<times> collision \<times> aircraft_db" where
  "collision_ghost_start_at lm g now icao tca_s miss_m alt_ft s =
     (if icao = [] then collision_ghost_start lm g now tca_s miss_m alt_ft s
      else case aircraft_db_lookup icao (snd s) of
        Inl _ \<Rightarrow> (Inl ENOENT, s)
      | Inr target \<Rightarrow> (Inr (), ghost_start_internal lm g now target tca_s miss_m alt_ft s))"

definition collision_ghost_stop :: "collision \<Rightarrow> collision" where
  "collision_ghost_stop c = c\<lparr>c_ghost_active := False\<rparr>"

section \<open>Manual CRASH and diversion\<close>

text \<open>\<open>strcmp(a, b) > 0\<close>.\<close>

definition strcmp_gt :: "string \<Rightarrow> string \<Rightarrow> bool" where
  "strcmp_gt a b \<longleftrightarrow> \<not> a \<le> b"

definition trigger_other :: "aircraft_t \<Rightarrow> aircraft_t \<Rightarrow> string \<Rightarrow> string \<Rightarrow> string" where
  "trigger_other a b icao_a icao_b =
     (let lo = (if strcmp_gt icao_a icao_b then icao_b else icao_a)
      in if ac_source a = SRC_BLE_SIM then (if strcmp_gt icao_a icao_b then icao_b else icao_a)
         else if ac_source b = SRC_BLE_SIM then (if strcmp_gt icao_a icao_b then icao_a else icao_b)
         else lo)"

definition collision_crash_trigger ::
  "bool \<Rightarrow> ms \<Rightarrow> aircraft_db \<Rightarrow> string \<Rightarrow> string \<Rightarrow> collision \<times> missile
     \<Rightarrow> (errno + unit) \<times> collision \<times> col_event list" where
  "collision_crash_trigger conn now db icao_a icao_b cm = (case cm of (c, m) \<Rightarrow>
     (case aircraft_db_lookup icao_a db of Inl _ \<Rightarrow> (Inl ENOENT, c, [])
      | Inr a \<Rightarrow> (case aircraft_db_lookup icao_b db of Inl _ \<Rightarrow> (Inl ENOENT, c, [])
      | Inr b \<Rightarrow>
          (let (lo, hi) = (if strcmp_gt icao_a icao_b then (icao_b, icao_a) else (icao_a, icao_b));
               app = clear_approach\<lparr>ap_tca_s := fp_lit 0 1, ap_diverging := False,
                       ap_alt_valid := (ac_has a AIRCRAFT_VALID_ALT \<and> ac_has b AIRCRAFT_VALID_ALT)\<rparr>;
               s0 = \<lparr>tk_col = c, tk_missile = m, tk_seen = [], tk_pairs = 0, tk_adv = 0, tk_warn = 0, tk_out = []\<rparr>;
               s1 = emit_collision now lo hi COLLISION_CRASH app [] s0;
               s2 = send_events (send_ble_crash conn now (trigger_other a b icao_a icao_b)) s1
           in (Inr (), tk_col s2, tk_out s2)))))"

definition collision_diversion_send ::
  "bool \<Rightarrow> ms \<Rightarrow> aircraft_db \<Rightarrow> collision_diversion \<Rightarrow> (errno + unit) \<times> col_event list" where
  "collision_diversion_send conn now db d = (case find_ble_sim db of
     None \<Rightarrow> (Inl ENOENT, [])
   | Some target \<Rightarrow> (Inr (), send_ble_diversion conn now (ac_icao target) d))"

lemmas scenario_defs [sky_eval] = inject_reset_state_def inject_step_and_upsert_def inject_keepalive_handler_def
  collision_inject_scenario_def collision_inject_stop_def ghost_upsert_def ghost_keepalive_handler_def
  ghost_altitude_def ghost_start_internal_def collision_ghost_start_def collision_ghost_start_at_def
  collision_ghost_stop_def strcmp_gt_def trigger_other_def collision_crash_trigger_def collision_diversion_send_def

text \<open>What the operator has sent is as well formed as what a tick sends.\<close>

lemma scenario_out:
  "e \<in> set (snd (snd (collision_crash_trigger conn now db a b (c, m)))) \<Longrightarrow> event_ok conn e"
  "e \<in> set (snd (collision_diversion_send conn now db d)) \<Longrightarrow> event_ok conn e"
proof -
  have emit: "event_ok conn e" if "e \<in> set (tk_out (emit_collision now lo hi lvl app [] s))" "tk_out s = []" for lo hi lvl app s
    using out_ok_emit [of conn s] that by (simp add: out_ok_def)
  show "e \<in> set (snd (snd (collision_crash_trigger conn now db a b (c, m)))) \<Longrightarrow> event_ok conn e"
    by (auto simp: collision_crash_trigger_def Let_def split: sum.splits if_splits dest: emit send_events_ok)
  show "e \<in> set (snd (collision_diversion_send conn now db d)) \<Longrightarrow> event_ok conn e"
    by (auto simp: collision_diversion_send_def send_events_ok split: option.splits)
qed

section \<open>The addresses in the frames\<close>

fun hex_digits :: "nat \<Rightarrow> int \<Rightarrow> int list" where
  "hex_digits 0 n = []"
| "hex_digits (Suc k) n = hex_digits k (n div 16) @ [n mod 16]"

lemma length_hex_digits [simp]: "length (hex_digits k n) = k"
  by (induction k arbitrary: n) simp_all

lemma hex_digits_zero: "hex_digits k 0 = replicate k 0"
  by (induction k) (simp_all add: replicate_append_same)

lemma pad0_show_base:
  "0 \<le> n \<Longrightarrow> n < 16 ^ Suc k \<Longrightarrow> pad0 (Suc k) (show_base 16 n) = map digit_char (hex_digits (Suc k) n)"
proof (induction k arbitrary: n)
  case 0
  then show ?case by (subst show_base_def, subst digits_base.simps) (simp add: pad0_def)
next
  case (Suc k)
  show ?case
  proof (cases "n < 16")
    case True
    then have "digits_base 16 n = [n]" by (subst digits_base.simps) simp
    moreover have "n div 16 = 0" "n mod 16 = n" "n div 16 div 16 = 0" "n div 16 mod 16 = 0" using True Suc.prems by simp_all
    moreover have "digit_char 0 = CHR ''0''" by (simp add: digit_char_def)
    ultimately show ?thesis
      by (simp add: show_base_def pad0_def hex_digits_zero replicate_append_same)
  next
    case False
    have d: "digits_base 16 n = digits_base 16 (n div 16) @ [n mod 16]"
      using False by (subst digits_base.simps) simp
    have "n div 16 < 16 ^ Suc k" using Suc.prems int_div_pos_less [of 16 n "16 ^ Suc k"] by simp
    from Suc.IH [OF _ this] Suc.prems(1)
    have "pad0 (Suc k) (show_base 16 (n div 16)) = map digit_char (hex_digits (Suc k) (n div 16))" by simp
    moreover have "pad0 (Suc (Suc k)) (xs @ [x]) = pad0 (Suc k) xs @ [x]" for xs :: string and x by (simp add: pad0_def)
    ultimately show ?thesis by (simp add: show_base_def d)
  qed
qed

lemma icao_string_digits: "0 \<le> n \<Longrightarrow> n < 2 ^ 24 \<Longrightarrow> icao_string n = map digit_char (hex_digits 6 n)"
  using pad0_show_base [of n 5] by (simp add: icao_string_def show_hex_def)

lemma digit_char_not_nul [simp]: "0 \<le> d \<Longrightarrow> d < 16 \<Longrightarrow> digit_char d \<noteq> CHR 0x00"
  by (erule (1) digit_cases) (simp_all add: digit_char_def)

text \<open>The three bytes of a frame are the address, most significant byte first.\<close>

lemma pack_icao_string:
  assumes "0 \<le> n" "n < 2 ^ 24"
  shows "pack_icao24_bytes (icao_string n) =
    [word_of_int (n div 65536), word_of_int (n div 256 mod 256), word_of_int (n mod 256)]"
proof -
  have q: "n div 16 div 16 = n div 256" "n div 256 div 16 = n div 4096" "n div 4096 div 16 = n div 65536"
    "n div 65536 div 16 = n div 1048576"
    by (simp_all add: zdiv_zmult2_eq [symmetric])
  have d: "icao_string n = map digit_char [n div 1048576 mod 16, n div 65536 mod 16, n div 4096 mod 16,
      n div 256 mod 16, n div 16 mod 16, n mod 16]"
    unfolding icao_string_digits [OF assms] by (simp add: numeral_eq_Suc) (simp add: q)
  have split: "16 * (m div 16 mod 16) + m mod 16 = m mod 256" for m :: int
    using zmod_zmult2_eq [of 16 m 16] by simp
  have "n div 65536 < 256" using assms int_div_pos_less [of 65536 n 256] by simp
  moreover have "0 \<le> n div 65536" using assms(1) by (simp add: pos_imp_zdiv_nonneg_iff)
  ultimately have "n div 65536 mod 256 = n div 65536" by simp
  then have e1: "16 * (n div 1048576 mod 16) + n div 65536 mod 16 = n div 65536"
    using split [of "n div 65536", unfolded q] by (rule trans [rotated])
  have e2: "16 * (n div 4096 mod 16) + n div 256 mod 16 = n div 256 mod 256"
    by (rule split [of "n div 256", unfolded q])
  note e = e1 e2 split [of n]
  show ?thesis
    unfolding d by (simp add: pack_icao24_bytes_def char_at_def strtoul16_two e)
qed

text \<open>The three address bytes of a warning are the address of the frame the aircraft came from.\<close>

lemma address_roundtrip:
  assumes "frame_accepted f"
  shows "pack_icao24_bytes (ac_icao (frame_observation f)) =
    [word_of_int (uint (bf_icao24 f) div 65536), word_of_int (uint (bf_icao24 f) div 256 mod 256),
     word_of_int (uint (bf_icao24 f) mod 256)]"
  using pack_icao_string [of "uint (bf_icao24 f)"] assms by (simp add: frame_accepted_def frame_observation_def Let_def)

end
