(* ===== verification/Ble_Central.thy ===== *)
theory Ble_Central
  imports Bridge
begin

text \<open>
  \<open>ble_central.c\<close>: scanning, connecting, service discovery, notifications and the write of
  warnings.  The Bluetooth stack is an input: every callback is an event, and the results of
  the stack calls a callback makes come in with it (\<open>bt_rc\<close>).  The calls themselves are
  the output.  Reference counts of connection objects are left out.
\<close>

section \<open>State\<close>

type_synonym bt_addr = "u8 list"

definition SCAN_MAX_RESULTS :: nat where [sky_eval]: "SCAN_MAX_RESULTS = 8"
definition RECONNECT_RETRY_MS :: ms where [sky_eval]: "RECONNECT_RETRY_MS = 2000"
definition DEVICE_NAME_MAX :: nat where [sky_eval]: "DEVICE_NAME_MAX = 24"
definition SKYWATCH_BLE_DEVICE_NAME :: string where [sky_eval]: "SKYWATCH_BLE_DEVICE_NAME = ''skywatch-sim''"
definition BT_DATA_NAME_SHORTENED :: u8 where [sky_eval]: "BT_DATA_NAME_SHORTENED = 8"
definition BT_DATA_NAME_COMPLETE :: u8 where [sky_eval]: "BT_DATA_NAME_COMPLETE = 9"
definition BT_GAP_ADV_TYPE_ADV_IND :: u8 where [sky_eval]: "BT_GAP_ADV_TYPE_ADV_IND = 0"
definition BT_GAP_ADV_TYPE_ADV_DIRECT_IND :: u8 where [sky_eval]: "BT_GAP_ADV_TYPE_ADV_DIRECT_IND = 1"

datatype disc_state = DISC_SVC | DISC_CHR | DISC_WARN_SVC | DISC_WARN_CHR

datatype bt_uuid = UUID_SKY_SVC | UUID_SKY_CHR | UUID_WARN_SVC | UUID_WARN_CHR

datatype bt_call = ScanStart | ScanStop | ConnCreate bt_addr | ExchangeMtu | Discover bt_uuid u16 u16
  | Subscribe u16 u16 | Disconnect | WriteNoRsp u16 "u8 list"

record scan_result =
  sc_name :: string
  sc_addr :: bt_addr

record ble_central_stats =
  bcs_notify_count :: u32
  bcs_bad_length :: u32
  bcs_submitted :: u32
  bcs_connect_count :: u32
  bcs_disconnect_count :: u32
  bcs_connected :: bool

text \<open>\<open>g_conn\<close> is whether a connection is held; the scan results up to \<open>g_scan_count\<close> are a list.\<close>

record ble_central =
  g_conn :: bool
  g_aircraft_handle :: u16
  g_warn_handle :: u16
  g_scanning :: bool
  g_connected :: bool
  g_connecting :: bool
  g_scan_results :: "scan_result list"
  g_last_connected :: "bt_addr option"
  g_last_attempt_ms :: ms
  g_stats :: ble_central_stats
  g_disc_state :: disc_state

text \<open>What the stack answers to the calls of one event.\<close>

record bt_rc =
  rc_scan_start :: "errno + unit"
  rc_conn_create :: "errno + unit"
  rc_exchange_mtu :: "errno + unit"
  rc_write :: "errno + unit"

definition ble_stats_zero :: ble_central_stats where
  "ble_stats_zero = \<lparr>bcs_notify_count = 0, bcs_bad_length = 0, bcs_submitted = 0, bcs_connect_count = 0,
     bcs_disconnect_count = 0, bcs_connected = False\<rparr>"

definition ble_central_boot :: ble_central where
  "ble_central_boot = \<lparr>g_conn = False, g_aircraft_handle = 0, g_warn_handle = 0, g_scanning = False,
     g_connected = False, g_connecting = False, g_scan_results = [], g_last_connected = None,
     g_last_attempt_ms = 0, g_stats = ble_stats_zero, g_disc_state = DISC_SVC\<rparr>"

section \<open>Operations\<close>

definition ble_central_scan_start :: "bt_rc \<Rightarrow> ble_central \<Rightarrow> ble_central \<times> bt_call list" where
  "ble_central_scan_start rc s =
     (if g_scanning s \<or> g_connected s then (s, [])
      else if rc_scan_start rc \<noteq> Inr () \<and> rc_scan_start rc \<noteq> Inl EALREADY then (s, [ScanStart])
      else (s\<lparr>g_scanning := True\<rparr>, [ScanStart]))"

definition ble_central_scan_stop :: "ble_central \<Rightarrow> ble_central \<times> bt_call list" where
  "ble_central_scan_stop s = (if \<not> g_scanning s then (s, []) else (s\<lparr>g_scanning := False\<rparr>, [ScanStop]))"

definition ble_central_is_connected :: "ble_central \<Rightarrow> bool" where
  "ble_central_is_connected s = g_connected s"

definition ble_central_disconnect :: "ble_central \<Rightarrow> bt_call list" where
  "ble_central_disconnect s = (if \<not> g_connected s \<or> \<not> g_conn s then [] else [Disconnect])"

definition do_connect :: "bt_rc \<Rightarrow> ms \<Rightarrow> bt_addr \<Rightarrow> ble_central \<Rightarrow> ble_central \<times> bt_call list" where
  "do_connect rc now addr s =
     (if g_connecting s \<or> g_connected s then (s, [])
      else let (s1, c1) = (if g_scanning s then (s\<lparr>g_scanning := False\<rparr>, [ScanStop]) else (s, []));
               s2 = s1\<lparr>g_connecting := True, g_last_attempt_ms := now\<rparr>;
               c2 = c1 @ [ConnCreate addr]
           in if rc_conn_create rc \<noteq> Inr ()
              then let (s3, c3) = ble_central_scan_start rc (s2\<lparr>g_connecting := False\<rparr>) in (s3, c2 @ c3)
              else (s2, c2))"

text \<open>\<open>bt_data_parse\<close> with \<open>parse_name_cb\<close>: the first name structure, cut to the buffer.\<close>

fun parse_name :: "(u8 \<times> string) list \<Rightarrow> string option" where
  "parse_name [] = None"
| "parse_name ((t, d) # ds) =
     (if t \<noteq> BT_DATA_NAME_COMPLETE \<and> t \<noteq> BT_DATA_NAME_SHORTENED then parse_name ds
      else Some (takeWhile (\<lambda>c. c \<noteq> CHR 0x00) (take (DEVICE_NAME_MAX - 1) d)))"

definition device_found ::
  "bt_rc \<Rightarrow> ms \<Rightarrow> bt_addr \<Rightarrow> u8 \<Rightarrow> (u8 \<times> string) list \<Rightarrow> ble_central \<Rightarrow> ble_central \<times> bt_call list" where
  "device_found rc now addr type ad s =
     (if g_connected s \<or> g_connecting s then (s, [])
      else if type \<noteq> BT_GAP_ADV_TYPE_ADV_IND \<and> type \<noteq> BT_GAP_ADV_TYPE_ADV_DIRECT_IND then (s, [])
      else if parse_name ad \<noteq> Some SKYWATCH_BLE_DEVICE_NAME then (s, [])
      else let already = (\<exists>r \<in> set (g_scan_results s). sc_addr r = addr);
               s1 = (if \<not> already \<and> length (g_scan_results s) < SCAN_MAX_RESULTS
                     then s\<lparr>g_scan_results := g_scan_results s @
                            [\<lparr>sc_name = strncpy0 (DEVICE_NAME_MAX - 1) SKYWATCH_BLE_DEVICE_NAME, sc_addr = addr\<rparr>]\<rparr>
                     else s)
           in do_connect rc now addr (s1\<lparr>g_last_connected := Some addr\<rparr>))"

definition start_discovery :: "ble_central \<Rightarrow> ble_central \<times> bt_call list" where
  "start_discovery s = (s\<lparr>g_disc_state := DISC_SVC\<rparr>, [Discover UUID_SKY_SVC 1 0xffff])"

definition mtu_exchange_cb :: "ble_central \<Rightarrow> ble_central \<times> bt_call list" where
  "mtu_exchange_cb s = start_discovery s"

text \<open>The attribute found: its handle, and the value handle of a characteristic; or none.\<close>

definition discover_cb :: "(u16 \<times> u16) option \<Rightarrow> ble_central \<Rightarrow> ble_central \<times> bt_call list" where
  "discover_cb attr s = (case attr of
     None \<Rightarrow> (s, [])
   | Some (handle, value_handle) \<Rightarrow>
       (case g_disc_state s of
          DISC_SVC \<Rightarrow> (s\<lparr>g_disc_state := DISC_CHR\<rparr>, [Discover UUID_SKY_CHR (handle + 1) 0xffff])
        | DISC_CHR \<Rightarrow>
            (s\<lparr>g_aircraft_handle := value_handle, g_disc_state := DISC_WARN_SVC\<rparr>,
             [Subscribe value_handle (value_handle + 1), Discover UUID_WARN_SVC 1 0xffff])
        | DISC_WARN_SVC \<Rightarrow> (s\<lparr>g_disc_state := DISC_WARN_CHR\<rparr>, [Discover UUID_WARN_CHR (handle + 1) 0xffff])
        | DISC_WARN_CHR \<Rightarrow> (s\<lparr>g_warn_handle := value_handle\<rparr>, [])))"

definition connected_cb :: "bt_rc \<Rightarrow> bool \<Rightarrow> ble_central \<Rightarrow> ble_central \<times> bt_call list" where
  "connected_cb rc err s =
     (if err then ble_central_scan_start rc (s\<lparr>g_connecting := False\<rparr>)
      else let s1 = s\<lparr>g_conn := True, g_connected := True, g_connecting := False, g_aircraft_handle := 0,
                      g_warn_handle := 0,
                      g_stats := (g_stats s)\<lparr>bcs_connect_count := bcs_connect_count (g_stats s) + 1, bcs_connected := True\<rparr>\<rparr>
           in if rc_exchange_mtu rc \<noteq> Inr ()
              then let (s2, c) = start_discovery s1 in (s2, ExchangeMtu # c)
              else (s1, [ExchangeMtu]))"

definition disconnected_cb :: "bt_rc \<Rightarrow> ble_central \<Rightarrow> ble_central \<times> bt_call list" where
  "disconnected_cb rc s = ble_central_scan_start rc
     (s\<lparr>g_conn := False, g_connected := False, g_aircraft_handle := 0, g_warn_handle := 0,
        g_stats := (g_stats s)\<lparr>bcs_disconnect_count := bcs_disconnect_count (g_stats s) + 1, bcs_connected := False\<rparr>\<rparr>)"

text \<open>One round of the watchdog thread, which sleeps \<open>WD_PERIOD_MS\<close> before each.\<close>

definition WD_PERIOD_MS :: ms where [sky_eval]: "WD_PERIOD_MS = 2000"

definition watchdog :: "bt_rc \<Rightarrow> ms \<Rightarrow> ble_central \<Rightarrow> ble_central \<times> bt_call list" where
  "watchdog rc now s =
     (if \<not> g_connected s \<and> \<not> g_connecting s \<and> \<not> g_scanning s \<and> RECONNECT_RETRY_MS < now - g_last_attempt_ms s
      then ble_central_scan_start rc s else (s, []))"

definition ble_central_init :: "bt_rc \<Rightarrow> errno + unit \<Rightarrow> ble_central \<Rightarrow> (errno + unit) \<times> ble_central \<times> bt_call list" where
  "ble_central_init rc enable s =
     (let s1 = s\<lparr>g_stats := ble_stats_zero, g_scan_results := [], g_last_connected := None, g_last_attempt_ms := 0\<rparr>
      in case enable of Inl e \<Rightarrow> (Inl e, s1, []) | Inr _ \<Rightarrow> (Inr (), ble_central_scan_start rc s1))"

text \<open>A notification; without data the subscription has ended.\<close>

definition notify_cb ::
  "(ble_aircraft_frame, 'q) msgq \<Rightarrow> u8 list option \<Rightarrow> ble_central \<times> 'q bridge \<Rightarrow> ble_central \<times> 'q bridge" where
  "notify_cb ops data sb = (case sb of (s, br) \<Rightarrow> (case data of
     None \<Rightarrow> (s, br)
   | Some bs \<Rightarrow>
       (let st = (g_stats s)\<lparr>bcs_notify_count := bcs_notify_count (g_stats s) + 1\<rparr>
        in case frame_decode bs of
             None \<Rightarrow> (s\<lparr>g_stats := st\<lparr>bcs_bad_length := bcs_bad_length st + 1\<rparr>\<rparr>, br)
           | Some f \<Rightarrow> (s\<lparr>g_stats := st\<lparr>bcs_submitted := bcs_submitted st + 1\<rparr>\<rparr>, bridge_submit_frame ops f br))))"

definition ble_central_send_warning ::
  "bt_rc \<Rightarrow> ble_warning_frame \<Rightarrow> ble_central \<Rightarrow> (errno + unit) \<times> bt_call list" where
  "ble_central_send_warning rc f s =
     (if \<not> g_connected s \<or> \<not> g_conn s then (Inl ENOTCONN, [])
      else if g_warn_handle s = 0 then (Inl EAGAIN, [])
      else (rc_write rc, [WriteNoRsp (g_warn_handle s) (warning_encode f)]))"

definition ble_central_get_stats :: "ble_central \<Rightarrow> ble_central_stats" where
  "ble_central_get_stats s = g_stats s"

text \<open>
  The lines \<open>ble_central_scan_list\<close> prints; the text of an address is Zephyr's
  \<open>bt_addr_le_to_str\<close>, a parameter.
\<close>

definition ble_central_scan_list :: "(bt_addr \<Rightarrow> string) \<Rightarrow> ble_central \<Rightarrow> string list" where
  "ble_central_scan_list addr_str s =
     (if g_scan_results s = []
      then [''no peers yet '' @ [CHR 0xE2, CHR 0x80, CHR 0x94] @ '' wait or '' @ [CHR 0x27] @ ''skywatch ble scan start''
              @ [CHR 0x27]]
      else [''discovered ('' @ show_dec (int (length (g_scan_results s))) @ ''):'']
        @ map (\<lambda>(i, r). '' ['' @ show_dec (int i + 1) @ ''] '' @ padr 16 (sc_name r) @ '' '' @ addr_str (sc_addr r))
            (enumerate 0 (g_scan_results s))
        @ [''state: '' @ (if g_connected s then ''CONNECTED'' else if g_scanning s then ''scanning'' else ''idle'')])"

lemmas ble_defs [sky_eval] = ble_stats_zero_def ble_central_boot_def ble_central_scan_start_def ble_central_scan_stop_def
  ble_central_is_connected_def ble_central_disconnect_def do_connect_def device_found_def start_discovery_def
  mtu_exchange_cb_def discover_cb_def connected_cb_def disconnected_cb_def watchdog_def ble_central_init_def
  notify_cb_def ble_central_send_warning_def ble_central_get_stats_def ble_central_scan_list_def

section \<open>The link as a state machine\<close>

text \<open>
  The stack's side, as its documentation states it: a connection is reported only while one is
  being made, its loss only while it is up, the MTU result once after it was asked for, and a
  found attribute only for a discovery under way on a link that is up.
\<close>

datatype link = LinkDown | LinkPending | LinkUp

record bt_env =
  be_link :: link
  be_mtu :: bool
  be_disc :: bool

definition env_boot :: bt_env where
  "env_boot = \<lparr>be_link = LinkDown, be_mtu = False, be_disc = False\<rparr>"

text \<open>The stack after the calls of an event.\<close>

definition env_call :: "bt_rc \<Rightarrow> bt_env \<Rightarrow> bt_call \<Rightarrow> bt_env" where
  "env_call rc e c = (case c of
     ConnCreate _ \<Rightarrow> if rc_conn_create rc = Inr () then e\<lparr>be_link := LinkPending\<rparr> else e
   | ExchangeMtu \<Rightarrow> if rc_exchange_mtu rc = Inr () then e\<lparr>be_mtu := True\<rparr> else e
   | Discover _ _ _ \<Rightarrow> e\<lparr>be_disc := True\<rparr>
   | _ \<Rightarrow> e)"

definition env_calls :: "bt_rc \<Rightarrow> bt_env \<Rightarrow> bt_call list \<Rightarrow> bt_env" where
  "env_calls rc e cs = foldl (env_call rc) e cs"

definition respond :: "bt_rc \<Rightarrow> bt_env \<Rightarrow> ble_central \<times> bt_call list \<Rightarrow> ble_central \<times> bt_env" where
  "respond rc e sc = (fst sc, env_calls rc e (snd sc))"

text \<open>\<open>ble_step operator\<close>: with \<open>operator\<close> the shell commands that start and stop a scan may come too.\<close>

inductive ble_step :: "bool \<Rightarrow> ble_central \<times> bt_env \<Rightarrow> ble_central \<times> bt_env \<Rightarrow> bool" for operator where
  Advert: "ble_step operator (s, e) (respond rc e (device_found rc now addr type ad s))"
| Connected: "be_link e = LinkPending \<Longrightarrow> ble_step operator (s, e) (respond rc (e\<lparr>be_link := LinkUp, be_mtu := False, be_disc := False\<rparr>) (connected_cb rc False s))"
| ConnectFailed: "be_link e = LinkPending \<Longrightarrow> ble_step operator (s, e) (respond rc (e\<lparr>be_link := LinkDown\<rparr>) (connected_cb rc True s))"
| Disconnected: "be_link e = LinkUp \<Longrightarrow> ble_step operator (s, e) (respond rc (e\<lparr>be_link := LinkDown, be_mtu := False, be_disc := False\<rparr>) (disconnected_cb rc s))"
| MtuDone: "be_link e = LinkUp \<Longrightarrow> be_mtu e \<Longrightarrow> ble_step operator (s, e) (respond rc (e\<lparr>be_mtu := False\<rparr>) (mtu_exchange_cb s))"
| Found: "be_link e = LinkUp \<Longrightarrow> be_disc e \<Longrightarrow> ble_step operator (s, e) (respond rc (e\<lparr>be_disc := False\<rparr>) (discover_cb (Some a) s))"
| NotFound: "be_disc e \<Longrightarrow> ble_step operator (s, e) (respond rc (e\<lparr>be_disc := False\<rparr>) (discover_cb None s))"
| Watchdog: "ble_step operator (s, e) (respond rc e (watchdog rc now s))"
| Notify: "be_link e = LinkUp \<Longrightarrow> ble_step operator (s, e) (fst (notify_cb (list_msgq BRIDGE_QUEUE_DEPTH) data (s, br)), e)"
| ShellScan: "operator \<Longrightarrow> ble_step operator (s, e) (respond rc e (ble_central_scan_start rc s))"
| ShellStop: "operator \<Longrightarrow> ble_step operator (s, e) (respond rc e (ble_central_scan_stop s))"

inductive_cases ble_stepE: "ble_step operator se se'"

inductive ble_reachable :: "bool \<Rightarrow> ble_central \<times> bt_env \<Rightarrow> bool" for operator where
  Boot: "ble_reachable operator (respond rc env_boot (snd (ble_central_init rc (Inr ()) ble_central_boot)))"
| Step: "ble_reachable operator se \<Longrightarrow> ble_step operator se se' \<Longrightarrow> ble_reachable operator se'"

section \<open>What holds in every reachable state\<close>

definition ble_inv :: "bool \<Rightarrow> ble_central \<times> bt_env \<Rightarrow> bool" where
  "ble_inv operator se \<longleftrightarrow> (case se of (s, e) \<Rightarrow>
     (g_connected s \<longleftrightarrow> be_link e = LinkUp) \<and> (g_connecting s \<longleftrightarrow> be_link e = LinkPending)
   \<and> g_conn s = g_connected s \<and> bcs_connected (g_stats s) = g_connected s
   \<and> bcs_connect_count (g_stats s) = bcs_disconnect_count (g_stats s) + (if g_connected s then 1 else 0)
   \<and> (g_warn_handle s \<noteq> 0 \<longrightarrow> g_connected s \<and> g_disc_state s = DISC_WARN_CHR)
   \<and> (g_aircraft_handle s \<noteq> 0 \<longrightarrow> g_connected s \<and> g_disc_state s \<in> {DISC_WARN_SVC, DISC_WARN_CHR})
   \<and> (be_mtu e \<longrightarrow> \<not> be_disc e \<and> g_warn_handle s = 0 \<and> g_aircraft_handle s = 0)
   \<and> length (g_scan_results s) \<le> SCAN_MAX_RESULTS \<and> distinct (map sc_addr (g_scan_results s))
   \<and> (\<not> operator \<longrightarrow> g_scanning s \<longrightarrow> \<not> g_connected s \<and> \<not> g_connecting s))"

lemma env_calls_simps [simp]:
  "env_calls rc e [] = e" "env_calls rc e (c # cs) = env_calls rc (env_call rc e c) cs"
  "env_calls rc e (cs @ ds) = env_calls rc (env_calls rc e cs) ds"
  by (simp_all add: env_calls_def)

lemmas ble_inv_simps = ble_inv_def respond_def env_call_def ble_central_scan_start_def ble_central_scan_stop_def
  do_connect_def start_discovery_def mtu_exchange_cb_def Let_def

lemma ble_inv_boot: "ble_inv operator (respond rc env_boot (snd (ble_central_init rc (Inr ()) ble_central_boot)))"
  by (simp add: ble_inv_simps ble_central_init_def ble_central_boot_def ble_stats_zero_def env_boot_def)

lemma device_found_cases:
  obtains "device_found rc now addr type ad s = (s, [])"
  | rs where "device_found rc now addr type ad s =
        do_connect rc now addr (s\<lparr>g_scan_results := rs, g_last_connected := Some addr\<rparr>)"
      "\<not> g_connected s" "\<not> g_connecting s" "parse_name ad = Some SKYWATCH_BLE_DEVICE_NAME"
      "rs = g_scan_results s \<or> (length (g_scan_results s) < SCAN_MAX_RESULTS \<and>
        (\<exists>r. rs = g_scan_results s @ [r] \<and> sc_addr r \<notin> sc_addr ` set (g_scan_results s)))"
proof (cases "g_connected s \<or> g_connecting s \<or> (type \<noteq> BT_GAP_ADV_TYPE_ADV_IND \<and> type \<noteq> BT_GAP_ADV_TYPE_ADV_DIRECT_IND)
    \<or> parse_name ad \<noteq> Some SKYWATCH_BLE_DEVICE_NAME")
  case True
  then show thesis using that(1) by (auto simp: device_found_def)
next
  case False
  let ?r = "\<lparr>sc_name = strncpy0 (DEVICE_NAME_MAX - 1) SKYWATCH_BLE_DEVICE_NAME, sc_addr = addr\<rparr>"
  show thesis
  proof (cases "(\<exists>r \<in> set (g_scan_results s). sc_addr r = addr) \<or> \<not> length (g_scan_results s) < SCAN_MAX_RESULTS")
    case True
    show thesis by (rule that(2) [of "g_scan_results s"]) (use False True in \<open>auto simp: device_found_def Let_def\<close>)
  next
    case new: False
    have r: "sc_addr ?r \<notin> sc_addr ` set (g_scan_results s)" using new by auto
    show thesis
      by (rule that(2) [of "g_scan_results s @ [?r]"]) (use False new r in \<open>auto simp: device_found_def Let_def\<close>)
  qed
qed

lemma ble_inv_connect:
  assumes "ble_inv operator (t, e)" "\<not> g_connected t" "\<not> g_connecting t"
  shows "ble_inv operator (respond rc e (do_connect rc now addr t))"
  using assms by (cases "g_scanning t"; cases "be_link e") (auto simp: ble_inv_simps)

lemma ble_inv_advert:
  assumes "ble_inv operator (s, e)" shows "ble_inv operator (respond rc e (device_found rc now addr type ad s))"
proof (rule device_found_cases [of rc now addr type ad s])
  assume "device_found rc now addr type ad s = (s, [])"
  then show ?thesis using assms by (simp add: respond_def)
next
  fix rs
  assume d: "device_found rc now addr type ad s =
      do_connect rc now addr (s\<lparr>g_scan_results := rs, g_last_connected := Some addr\<rparr>)"
    and n: "\<not> g_connected s" "\<not> g_connecting s"
    and rs: "rs = g_scan_results s \<or> (length (g_scan_results s) < SCAN_MAX_RESULTS \<and>
        (\<exists>r. rs = g_scan_results s @ [r] \<and> sc_addr r \<notin> sc_addr ` set (g_scan_results s)))"
  have "length rs \<le> SCAN_MAX_RESULTS \<and> distinct (map sc_addr rs)" using rs assms by (auto simp: ble_inv_def)
  then have "ble_inv operator (s\<lparr>g_scan_results := rs, g_last_connected := Some addr\<rparr>, e)"
    using assms unfolding ble_inv_def prod.case by (elim conjE, intro conjI) simp_all
  then show ?thesis unfolding d by (rule ble_inv_connect) (use n in simp_all)
qed

lemma ble_inv_step: "ble_inv operator se \<Longrightarrow> ble_step operator se se' \<Longrightarrow> ble_inv operator se'"
proof (erule ble_stepE)
  fix s e rc now addr type ad
  assume "ble_inv operator se" "se = (s, e)" "se' = respond rc e (device_found rc now addr type ad s)"
  then show ?thesis by (simp add: ble_inv_advert)
next
  fix s e a rc
  assume "ble_inv operator se" "se = (s, e)" "be_link e = LinkUp" "be_disc e"
    "se' = respond rc (e\<lparr>be_disc := False\<rparr>) (discover_cb (Some a) s)"
  then show ?thesis by (cases "g_disc_state s"; cases a) (auto simp: ble_inv_simps discover_cb_def)
next
  fix s e data br
  assume "ble_inv operator se" "se = (s, e)" "se' = (fst (notify_cb (list_msgq BRIDGE_QUEUE_DEPTH) data (s, br)), e)"
  then show ?thesis by (auto simp: ble_inv_def notify_cb_def Let_def split: option.splits)
qed (auto simp: ble_inv_simps connected_cb_def disconnected_cb_def discover_cb_def watchdog_def)

lemma ble_inv_reachable: "ble_reachable operator se \<Longrightarrow> ble_inv operator se"
  by (induction rule: ble_reachable.induct) (auto intro: ble_inv_boot ble_inv_step)

section \<open>Recovery, sending, and the operator's scan\<close>

text \<open>A warning is written exactly when its characteristic has been found, and then the link is up.\<close>

lemma ble_send_warning_spec:
  assumes "ble_reachable operator (s, e)"
  shows "ble_central_send_warning rc w s =
      (if g_warn_handle s \<noteq> 0 then (rc_write rc, [WriteNoRsp (g_warn_handle s) (warning_encode w)])
       else (Inl (if g_connected s then EAGAIN else ENOTCONN), []))
    \<and> (g_warn_handle s \<noteq> 0 \<longrightarrow> be_link e = LinkUp)"
  using ble_inv_reachable [OF assms] by (auto simp: ble_inv_def ble_central_send_warning_def)

definition rc_ok :: bt_rc where
  "rc_ok = \<lparr>rc_scan_start = Inr (), rc_conn_create = Inr (), rc_exchange_mtu = Inr (), rc_write = Inr ()\<rparr>"

lemma link_down_idle: "ble_inv operator (s, e) \<Longrightarrow> be_link e = LinkDown \<Longrightarrow> \<not> g_connected s \<and> \<not> g_connecting s"
  by (simp add: ble_inv_def)

lemma watchdog_scans:
  assumes "\<not> g_connected s" "\<not> g_connecting s" "RECONNECT_RETRY_MS < now - g_last_attempt_ms s"
    "rc_scan_start rc = Inr () \<or> rc_scan_start rc = Inl EALREADY"
  shows "g_scanning (fst (watchdog rc now s))" "\<not> g_connected (fst (watchdog rc now s))" "\<not> g_connecting (fst (watchdog rc now s))"
  using assms by (auto simp: watchdog_def ble_central_scan_start_def)

lemma advert_connects:
  assumes "\<not> g_connected s" "\<not> g_connecting s" "parse_name ad = Some SKYWATCH_BLE_DEVICE_NAME"
    "type = BT_GAP_ADV_TYPE_ADV_IND \<or> type = BT_GAP_ADV_TYPE_ADV_DIRECT_IND" "rc_conn_create rc = Inr ()"
  shows "g_connecting (fst (device_found rc now addr type ad s))" "\<not> g_connected (fst (device_found rc now addr type ad s))"
    "ConnCreate addr \<in> set (snd (device_found rc now addr type ad s))"
    "be_link (snd (respond rc e (device_found rc now addr type ad s))) = LinkPending"
  using assms by (auto simp: device_found_def do_connect_def respond_def env_call_def Let_def)

text \<open>
  An operator's scan command is not refused while a connection is being made, so the central
  can end up scanning and connected at once.
\<close>

lemma scan_while_connected: "\<exists>s e. ble_reachable True (s, e) \<and> g_scanning s \<and> g_connected s"
proof -
  let ?ad = "[(BT_DATA_NAME_COMPLETE, SKYWATCH_BLE_DEVICE_NAME)]"
  define s1 where "s1 = respond rc_ok env_boot (snd (ble_central_init rc_ok (Inr ()) ble_central_boot))"
  define s2 where "s2 = respond rc_ok (snd s1) (device_found rc_ok 0 [] BT_GAP_ADV_TYPE_ADV_IND ?ad (fst s1))"
  define s3 where "s3 = respond rc_ok (snd s2) (ble_central_scan_start rc_ok (fst s2))"
  define s4 where "s4 = respond rc_ok ((snd s3)\<lparr>be_link := LinkUp, be_mtu := False, be_disc := False\<rparr>) (connected_cb rc_ok False (fst s3))"
  have name: "parse_name ?ad = Some SKYWATCH_BLE_DEVICE_NAME"
    by (simp add: SKYWATCH_BLE_DEVICE_NAME_def DEVICE_NAME_MAX_def)
  have 1: "\<not> g_connected (fst s1)" "\<not> g_connecting (fst s1)"
    by (simp_all add: s1_def respond_def ble_central_init_def ble_central_boot_def ble_central_scan_start_def Let_def rc_ok_def)
  have c: "rc_conn_create rc_ok = Inr ()" by (simp add: rc_ok_def)
  have 2: "g_connecting (fst s2)" "be_link (snd s2) = LinkPending" "\<not> g_connected (fst s2)"
    unfolding s2_def using advert_connects [OF 1 name disjI1 [OF refl] c] by (simp_all add: respond_def)
  have 3: "g_scanning (fst s3)" "be_link (snd s3) = LinkPending"
    using 2 by (auto simp: s3_def respond_def ble_central_scan_start_def rc_ok_def env_call_def)
  have 4: "g_scanning (fst s4)" "g_connected (fst s4)"
    using 3 by (auto simp: s4_def respond_def connected_cb_def rc_ok_def Let_def)
  have "ble_reachable True s1" unfolding s1_def by (rule ble_reachable.Boot)
  moreover have "ble_step True s1 s2" using ble_step.Advert [of True "fst s1" "snd s1"] by (simp add: s2_def)
  moreover have "ble_step True s2 s3" using ble_step.ShellScan [of True "fst s2" "snd s2"] by (simp add: s3_def)
  moreover have "ble_step True s3 s4" using ble_step.Connected [of "snd s3" True "fst s3"] 3(2) by (simp add: s4_def)
  ultimately have "ble_reachable True s4" by (blast intro: ble_reachable.Step)
  then show ?thesis using 4 by (metis prod.collapse)
qed

text \<open>
  The link can always come back: from every reachable state with the link down, a round of
  the watchdog more than two seconds after the last attempt leaves the central scanning, and the
  next advertisement of the simulator starts a connection.
\<close>

lemma ble_link_recovers:
  assumes "ble_reachable operator (s, e)" "be_link e = LinkDown" "RECONNECT_RETRY_MS < now - g_last_attempt_ms s"
    "rc_scan_start rc = Inr () \<or> rc_scan_start rc = Inl EALREADY" "rc_conn_create rc = Inr ()"
    "parse_name ad = Some SKYWATCH_BLE_DEVICE_NAME" "type = BT_GAP_ADV_TYPE_ADV_IND \<or> type = BT_GAP_ADV_TYPE_ADV_DIRECT_IND"
  shows "g_scanning (fst (watchdog rc now s))
    \<and> ConnCreate addr \<in> set (snd (device_found rc now' addr type ad (fst (watchdog rc now s))))
    \<and> be_link (snd (respond rc e (device_found rc now' addr type ad (fst (watchdog rc now s))))) = LinkPending"
proof -
  have "\<not> g_connected s" "\<not> g_connecting s" using link_down_idle [OF ble_inv_reachable [OF assms(1)] assms(2)] by simp_all
  from watchdog_scans [OF this assms(3,4)] advert_connects [OF _ _ assms(6,7,5)] show ?thesis by blast
qed

end
