(* ===== verification/Json_Parser.thy ===== *)
theory Json_Parser
  imports Aircraft
begin

text \<open>
  \<open>json_parser.c\<close>: one JSON object to the common record.  Zephyr's \<open>json_obj_parse\<close> is a
  parameter: it gets the text, the descriptor table and the zeroed wire structure, and returns
  its 64-bit result (negative on an error, else one bit per member seen) with the structure as
  it left it.  A \<open>const char *\<close> member is an optional string, \<open>None\<close> for NULL.
\<close>

section \<open>Wire structure\<close>

record ac_json =
  aj_type :: "string option"
  aj_icao :: "string option"
  aj_lat :: f64
  aj_lon :: f64
  aj_alt :: s32
  aj_vel :: f64
  aj_hdg :: f64
  aj_ts :: f64
  aj_source :: "string option"

definition ac_json_zero :: ac_json where
  [sky_eval]: "ac_json_zero = \<lparr>aj_type = None, aj_icao = None, aj_lat = 0, aj_lon = 0, aj_alt = 0, aj_vel = 0,
     aj_hdg = 0, aj_ts = 0, aj_source = None\<rparr>"

datatype json_tok = JSON_TOK_STRING | JSON_TOK_NUMBER | JSON_TOK_DOUBLE_FP

definition ac_descr :: "(string \<times> json_tok) list" where
  [sky_eval]: "ac_descr = [(''type'', JSON_TOK_STRING), (''icao'', JSON_TOK_STRING), (''lat'', JSON_TOK_DOUBLE_FP),
     (''lon'', JSON_TOK_DOUBLE_FP), (''alt'', JSON_TOK_NUMBER), (''vel'', JSON_TOK_DOUBLE_FP),
     (''hdg'', JSON_TOK_DOUBLE_FP), (''ts'', JSON_TOK_DOUBLE_FP), (''source'', JSON_TOK_STRING)]"

type_synonym json_obj_parse = "string \<Rightarrow> (string \<times> json_tok) list \<Rightarrow> ac_json \<Rightarrow> int \<times> ac_json"

definition IDX_BIT :: "nat \<Rightarrow> 64 word" where
  [sky_eval]: "IDX_BIT n = push_bit n 1"

definition REQUIRED :: "64 word" where
  [sky_eval]: "REQUIRED = IDX_BIT 0 OR IDX_BIT 1 OR IDX_BIT 2 OR IDX_BIT 3 OR IDX_BIT 7 OR IDX_BIT 8"

section \<open>The parser\<close>

definition source_of_name :: "string \<Rightarrow> aircraft_source" where
  "source_of_name s = (if s = ''ADS_B'' then SRC_ADS_B else if s = ''BLE_SIM'' then SRC_BLE_SIM else SRC_UNKNOWN)"

definition fill_aircraft :: "64 word \<Rightarrow> string \<Rightarrow> string \<Rightarrow> ac_json \<Rightarrow> aircraft_t" where
  "fill_aircraft present icao source src =
     (let o0 = aircraft_zero\<lparr>ac_icao := take (AIRCRAFT_ICAO_BUF_LEN - 1) icao, ac_lat := aj_lat src,
                 ac_lon := aj_lon src, ac_ts := aj_ts src, ac_source := source_of_name source\<rparr>;
          o1 = (if present AND IDX_BIT 4 \<noteq> 0
                then o0\<lparr>ac_valid_mask := ac_valid_mask o0 OR AIRCRAFT_VALID_ALT, ac_alt_ft := aj_alt src\<rparr> else o0);
          o2 = (if present AND IDX_BIT 5 \<noteq> 0
                then o1\<lparr>ac_valid_mask := ac_valid_mask o1 OR AIRCRAFT_VALID_VEL, ac_vel_kt := aj_vel src\<rparr> else o1)
      in if present AND IDX_BIT 6 \<noteq> 0
         then o2\<lparr>ac_valid_mask := ac_valid_mask o2 OR AIRCRAFT_VALID_HDG, ac_hdg_deg := aj_hdg src\<rparr> else o2)"

definition json_parse_aircraft :: "json_obj_parse \<Rightarrow> string \<Rightarrow> errno + aircraft_t" where
  "json_parse_aircraft parse buf =
     (if buf = [] then Inl EINVAL
      else let (r, src) = parse buf ac_descr ac_json_zero; present = word_of_int r :: 64 word in
        if r < 0 then Inl (EStack r)
        else if present AND REQUIRED \<noteq> REQUIRED then Inl EINVAL
        else if aj_type src \<noteq> Some ''aircraft'' then Inl EINVAL
        else case (aj_icao src, aj_source src) of
               (Some icao, Some source) \<Rightarrow> Inr (fill_aircraft present icao source src)
             | _ \<Rightarrow> Inl EINVAL)"

lemmas json_defs [sky_eval] = source_of_name_def fill_aircraft_def json_parse_aircraft_def

section \<open>What it accepts\<close>

text \<open>The members an object must have, by their place in the table, and the optional ones.\<close>

definition seen :: "int \<Rightarrow> nat \<Rightarrow> bool" where
  "seen r i \<longleftrightarrow> bit r i"

lemma present_bit: "i < 64 \<Longrightarrow> ((word_of_int r :: 64 word) AND IDX_BIT i \<noteq> 0) = seen r i"
  unfolding IDX_BIT_def word_and_neq_0_iff by (simp add: seen_def bit_word_of_int_iff)

lemma bit_IDX_BIT: "bit (IDX_BIT k) i \<longleftrightarrow> i = k \<and> i < 64"
  unfolding IDX_BIT_def bit_push_bit_iff bit_1_iff by auto

lemma bit_REQUIRED: "bit REQUIRED i \<longleftrightarrow> i \<in> {0, 1, 2, 3, 7, 8}"
  unfolding REQUIRED_def bit_or_iff bit_IDX_BIT by auto

lemma required_seen:
  "(word_of_int r :: 64 word) AND REQUIRED = REQUIRED \<longleftrightarrow> (\<forall>i \<in> {0, 1, 2, 3, 7, 8}. seen r i)"
proof -
  let ?S = "{0, 1, 2, 3, 7, 8} :: nat set"
  have b: "i < 64" if "i \<in> ?S" for i using that by auto
  have "(word_of_int r :: 64 word) AND REQUIRED = REQUIRED \<longleftrightarrow>
      (\<forall>i < 64. bit (word_of_int r AND REQUIRED) i = bit REQUIRED i)"
    by (auto intro: bit_word_eqI)
  also have "\<dots> \<longleftrightarrow> (\<forall>i < 64. i \<in> ?S \<longrightarrow> seen r i)"
    unfolding bit_and_iff bit_REQUIRED bit_word_of_int_iff seen_def by (simp del: insert_iff) blast
  also have "\<dots> \<longleftrightarrow> (\<forall>i \<in> ?S. seen r i)"
    using b by blast
  finally show ?thesis .
qed

text \<open>
  An object is accepted exactly when the library parses it, every required member is seen and
  the type is right; the record then carries the members, absent ones as zero with their bit
  clear.
\<close>

definition json_accepted :: "json_obj_parse \<Rightarrow> string \<Rightarrow> bool" where
  "json_accepted parse buf \<longleftrightarrow> (case parse buf ac_descr ac_json_zero of (r, src) \<Rightarrow>
     buf \<noteq> [] \<and> 0 \<le> r \<and> (\<forall>i \<in> {0, 1, 2, 3, 7, 8}. seen r i) \<and> aj_type src = Some ''aircraft''
     \<and> aj_icao src \<noteq> None \<and> aj_source src \<noteq> None)"

definition json_observation :: "int \<Rightarrow> ac_json \<Rightarrow> aircraft_t" where
  "json_observation r src =
     \<lparr>ac_icao = take 6 (the (aj_icao src)), ac_lat = aj_lat src, ac_lon = aj_lon src, ac_ts = aj_ts src,
      ac_source = source_of_name (the (aj_source src)),
      ac_valid_mask = (if seen r 4 then 1 else 0) OR (if seen r 5 then 2 else 0) OR (if seen r 6 then 4 else 0),
      ac_alt_ft = (if seen r 4 then aj_alt src else 0), ac_vel_kt = (if seen r 5 then aj_vel src else 0),
      ac_hdg_deg = (if seen r 6 then aj_hdg src else 0), ac_pred_lat = 0, ac_pred_lon = 0\<rparr>"

lemma fill_observation:
  "fill_aircraft (word_of_int r) icao source src = json_observation r (src\<lparr>aj_icao := Some icao, aj_source := Some source\<rparr>)"
  by (simp add: fill_aircraft_def json_observation_def present_bit Let_def aircraft_zero_def
      AIRCRAFT_ICAO_BUF_LEN_def valid_bits)

lemma json_parse_accepts:
  assumes "json_accepted parse buf" "parse buf ac_descr ac_json_zero = (r, src)"
  shows "json_parse_aircraft parse buf = Inr (json_observation r src)"
  using assms by (auto simp: json_accepted_def json_parse_aircraft_def required_seen fill_observation json_observation_def
      split: option.splits)

lemma json_parse_rejects:
  assumes "\<not> json_accepted parse buf"
  shows "\<exists>e. json_parse_aircraft parse buf = Inl e"
  using assms by (auto simp: json_accepted_def json_parse_aircraft_def required_seen Let_def
      split: prod.splits option.splits)

lemma json_parsed_short: "json_parse_aircraft parse buf = Inr a \<Longrightarrow> length (ac_icao a) \<le> 6"
  using json_parse_accepts [of parse buf] json_parse_rejects [of parse buf]
  by (cases "json_accepted parse buf"; cases "parse buf ac_descr ac_json_zero") (auto simp: json_observation_def)

end
