(* ===== verification/Usb_Handler.thy ===== *)
theory Usb_Handler
  imports Json_Parser Aircraft_Db_Correct
begin

text \<open>
  \<open>usb_handler.c\<close>: bytes from the data port go from the interrupt handler through a ring buffer
  to a thread that cuts them into lines, parses each line and stores the aircraft.  The ring
  buffer is Zephyr's, a parameter; \<open>ring_spec\<close> is its documented behaviour.  The binary
  semaphore \<open>rx_sem\<close> is a flag, and \<open>ux_phase\<close> says where in its loop the thread is, so that
  interrupts can come between any two of its steps.  Log output is left out.
\<close>

section \<open>Ring buffer\<close>

record 'r ring_buf =
  rb_put :: "string \<Rightarrow> 'r \<Rightarrow> nat \<times> 'r"
  rb_get :: "nat \<Rightarrow> 'r \<Rightarrow> string \<times> 'r"
  rb_space :: "'r \<Rightarrow> nat"

text \<open>
  A put stores as much as fits and says how much, a get takes up to the number of bytes asked
  for from the front, and the space is what is left of the capacity.
\<close>

definition ring_spec :: "nat \<Rightarrow> ('r \<Rightarrow> string) \<Rightarrow> 'r ring_buf \<Rightarrow> bool" where
  "ring_spec cap contents ops \<longleftrightarrow> (\<forall>r. length (contents r) \<le> cap \<longrightarrow>
     rb_space ops r = cap - length (contents r)
     \<and> (\<forall>bs. let n = min (length bs) (cap - length (contents r))
        in fst (rb_put ops bs r) = n \<and> contents (snd (rb_put ops bs r)) = contents r @ take n bs)
     \<and> (\<forall>k. fst (rb_get ops k r) = take k (contents r) \<and> contents (snd (rb_get ops k r)) = drop k (contents r)))"

definition list_ring :: "nat \<Rightarrow> string ring_buf" where
  [sky_eval]: "list_ring cap = \<lparr>rb_put = (\<lambda>bs r. let n = min (length bs) (cap - length r) in (n, r @ take n bs)),
     rb_get = (\<lambda>k r. (take k r, drop k r)), rb_space = (\<lambda>r. cap - length r)\<rparr>"

lemma list_ring_spec: "ring_spec cap (\<lambda>r. r) (list_ring cap)"
  by (simp add: ring_spec_def list_ring_def Let_def)

lemma ring_specD:
  assumes "ring_spec cap contents ops" "length (contents r) \<le> cap"
  shows "rb_space ops r = cap - length (contents r)"
    "fst (rb_put ops bs r) = min (length bs) (cap - length (contents r))"
    "contents (snd (rb_put ops bs r)) = contents r @ take (min (length bs) (cap - length (contents r))) bs"
    "fst (rb_get ops k r) = take k (contents r)" "contents (snd (rb_get ops k r)) = drop k (contents r)"
  using assms by (simp_all add: ring_spec_def Let_def)

section \<open>State\<close>

definition RINGBUF_BYTES :: nat where [sky_eval]: "RINGBUF_BYTES = 2048"
definition LINE_BUF_BYTES :: nat where [sky_eval]: "LINE_BUF_BYTES = 512"

record usb_handler_stats =
  us_bytes_rx :: u32
  us_frames_rx :: u32
  us_ringbuf_drops :: u32
  us_line_overruns :: u32
  us_parse_errors :: u32

definition usb_stats_zero :: usb_handler_stats where
  [sky_eval]: "usb_stats_zero = \<lparr>us_bytes_rx = 0, us_frames_rx = 0, us_ringbuf_drops = 0, us_line_overruns = 0,
     us_parse_errors = 0\<rparr>"

text \<open>Waiting for the semaphore, draining the ring buffer, and about to look at the throttle.\<close>

datatype rx_phase = RxWait | RxDrain | RxCheck

record 'r usb_rx =
  ux_ring :: 'r
  ux_line :: string
  ux_stats :: usb_handler_stats
  ux_throttled :: bool
  ux_armed :: bool
  ux_sem :: bool
  ux_phase :: rx_phase

section \<open>Operations\<close>

text \<open>
  One round of the loop of \<open>interrupt_handler\<close> with the bytes \<open>fifo\<close> waiting in the UART: what
  was read, and the new state.
\<close>

definition interrupt_handler :: "'r ring_buf \<Rightarrow> string \<Rightarrow> 'r usb_rx \<Rightarrow> string \<times> 'r usb_rx" where
  "interrupt_handler ops fifo u =
     (if ux_throttled u \<or> fifo = [] then ([], u)
      else let want = min 64 (rb_space ops (ux_ring u)) in
        if want = 0 then ([], u\<lparr>ux_armed := False, ux_throttled := True\<rparr>)
        else let bs = take want fifo; (put, ring) = rb_put ops bs (ux_ring u); st = ux_stats u;
                 st1 = (if put < length bs
                        then st\<lparr>us_ringbuf_drops := us_ringbuf_drops st + of_nat (length bs - put)\<rparr> else st)
             in (bs, u\<lparr>ux_ring := ring, ux_stats := st1\<lparr>us_bytes_rx := us_bytes_rx st1 + of_nat put\<rparr>, ux_sem := True\<rparr>))"

text \<open>The line buffer, the counters and the database, as the characters of a chunk change them.\<close>

type_synonym rx_state = "string \<times> usb_handler_stats \<times> aircraft_db"

definition end_of_line :: "json_obj_parse \<Rightarrow> libm \<Rightarrow> f64 kalman_tuning \<Rightarrow> ms \<Rightarrow> rx_state \<Rightarrow> rx_state" where
  "end_of_line parse lm g now s = (case s of (line, st, db) \<Rightarrow>
     if line = [] then ([], st, db)
     else case json_parse_aircraft parse line of
            Inr ac \<Rightarrow> ([], st\<lparr>us_frames_rx := us_frames_rx st + 1\<rparr>, snd (aircraft_db_upsert lm g now ac db))
          | Inl _ \<Rightarrow> ([], st\<lparr>us_parse_errors := us_parse_errors st + 1\<rparr>, db))"

definition rx_char :: "json_obj_parse \<Rightarrow> libm \<Rightarrow> f64 kalman_tuning \<Rightarrow> ms \<Rightarrow> rx_state \<Rightarrow> char \<Rightarrow> rx_state" where
  "rx_char parse lm g now s c = (case s of (line, st, db) \<Rightarrow>
     if c = CHR 0x0D then s
     else if c = CHR 0x0A then end_of_line parse lm g now s
     else if LINE_BUF_BYTES - 1 \<le> length line
     then ([], st\<lparr>us_line_overruns := us_line_overruns st + 1\<rparr>, db)
     else (line @ [c], st, db))"

text \<open>One step of \<open>rx_thread_fn\<close>.\<close>

definition rx_thread_step ::
  "'r ring_buf \<Rightarrow> json_obj_parse \<Rightarrow> libm \<Rightarrow> f64 kalman_tuning \<Rightarrow> ms \<Rightarrow> 'r usb_rx \<times> aircraft_db
     \<Rightarrow> 'r usb_rx \<times> aircraft_db" where
  "rx_thread_step ops parse lm g now s = (case s of (u, db) \<Rightarrow>
     (case ux_phase u of
        RxWait \<Rightarrow> if ux_sem u then (u\<lparr>ux_sem := False, ux_phase := RxDrain\<rparr>, db) else (u, db)
      | RxDrain \<Rightarrow>
          (let (chunk, ring) = rb_get ops 128 (ux_ring u) in
           if chunk = [] then (u\<lparr>ux_ring := ring, ux_phase := RxCheck\<rparr>, db)
           else let (line, st, db') = foldl (rx_char parse lm g now) (ux_line u, ux_stats u, db) chunk
                in (u\<lparr>ux_ring := ring, ux_line := line, ux_stats := st\<rparr>, db'))
      | RxCheck \<Rightarrow>
          (if ux_throttled u \<and> 256 < rb_space ops (ux_ring u)
           then (u\<lparr>ux_throttled := False, ux_armed := True, ux_phase := RxWait\<rparr>, db)
           else (u\<lparr>ux_phase := RxWait\<rparr>, db))))"

definition usb_handler_init :: "bool \<Rightarrow> errno + unit \<Rightarrow> 'r usb_rx \<Rightarrow> (errno + unit) \<times> 'r usb_rx" where
  "usb_handler_init ready rc u =
     (if \<not> ready then (Inl ENODEV, u)
      else case rc of Inl e \<Rightarrow> (Inl e, u) | Inr _ \<Rightarrow> (Inr (), u\<lparr>ux_armed := True\<rparr>))"

definition usb_handler_get_stats :: "'r usb_rx \<Rightarrow> usb_handler_stats" where
  "usb_handler_get_stats u = ux_stats u"

definition usb_rx_boot :: "'r \<Rightarrow> 'r usb_rx" where
  "usb_rx_boot ring = \<lparr>ux_ring = ring, ux_line = [], ux_stats = usb_stats_zero, ux_throttled = False,
     ux_armed = False, ux_sem = False, ux_phase = RxWait\<rparr>"

lemmas usb_defs [sky_eval] = interrupt_handler_def end_of_line_def rx_char_def rx_thread_step_def
  usb_handler_init_def usb_handler_get_stats_def usb_rx_boot_def

section \<open>Lines\<close>

text \<open>
  What one line does, whatever its length: carriage returns go, every 512 characters are an
  overrun that is thrown away, and what is left is parsed, if anything is.
\<close>

definition line_result ::
  "json_obj_parse \<Rightarrow> libm \<Rightarrow> f64 kalman_tuning \<Rightarrow> ms \<Rightarrow> string \<Rightarrow> usb_handler_stats \<times> aircraft_db
     \<Rightarrow> usb_handler_stats \<times> aircraft_db" where
  "line_result parse lm g now line s = (case s of (st, db) \<Rightarrow>
     let l = filter (\<lambda>c. c \<noteq> CHR 0x0D) line;
         st1 = st\<lparr>us_line_overruns := us_line_overruns st + of_nat (length l div 512)\<rparr>;
         rest = drop (512 * (length l div 512)) l
     in if rest = [] then (st1, db)
        else case json_parse_aircraft parse rest of
               Inr ac \<Rightarrow> (st1\<lparr>us_frames_rx := us_frames_rx st1 + 1\<rparr>, snd (aircraft_db_upsert lm g now ac db))
             | Inl _ \<Rightarrow> (st1\<lparr>us_parse_errors := us_parse_errors st1 + 1\<rparr>, db))"

definition rx_stream ::
  "json_obj_parse \<Rightarrow> libm \<Rightarrow> f64 kalman_tuning \<Rightarrow> rx_state \<Rightarrow> (ms \<times> char) list \<Rightarrow> rx_state" where
  "rx_stream parse lm g s tcs = foldl (\<lambda>s (now, c). rx_char parse lm g now s c) s tcs"

lemma rx_stream_append: "rx_stream parse lm g s (xs @ ys) = rx_stream parse lm g (rx_stream parse lm g s xs) ys"
  by (simp add: rx_stream_def)

lemma rx_stream_chunk: "rx_stream parse lm g s (map (Pair now) cs) = foldl (rx_char parse lm g now) s cs"
  by (simp add: rx_stream_def foldl_map)

text \<open>Characters other than the newline fill the buffer; 512 of them are one overrun.\<close>

lemma overrun_tail:
  assumes "length t = 512 * q + r" "r < 512"
  shows "drop (512 * (length t div 512)) t = drop (512 * q) t" "length t div 512 = q"
    "length (drop (512 * q) t) = r"
  using assms by simp_all

lemma overrun_full: "length t = 512 * q + 511 \<Longrightarrow> length (t @ [c]) div 512 = Suc q \<and> drop (512 * Suc q) (t @ [c]) = []"
  by simp

lemma overrun_more:
  "length t = 512 * q + r \<Longrightarrow> r < 511 \<Longrightarrow>
    length (t @ [c]) div 512 = q \<and> drop (512 * q) (t @ [c]) = drop (512 * q) t @ [c]"
  by simp

lemma rx_stream_snoc: "rx_stream parse lm g s (xs @ [(now, c)]) = rx_char parse lm g now (rx_stream parse lm g s xs) c"
  by (simp add: rx_stream_def)

lemma rx_stream_fill:
  assumes "CHR 0x0A \<notin> snd ` set tcs"
  shows "rx_stream parse lm g ([], st, db) tcs =
    (let l = filter (\<lambda>c. c \<noteq> CHR 0x0D) (map snd tcs)
     in (drop (512 * (length l div 512)) l,
         st\<lparr>us_line_overruns := us_line_overruns st + of_nat (length l div 512)\<rparr>, db))"
  using assms
proof (induction tcs rule: rev_induct)
  case Nil
  then show ?case by (simp add: rx_stream_def)
next
  case (snoc tc tcs)
  obtain now c where tc: "tc = (now, c)" by fastforce
  let ?l = "filter (\<lambda>c. c \<noteq> CHR 0x0D) (map snd tcs)"
  have ih: "rx_stream parse lm g ([], st, db) tcs = (drop (512 * (length ?l div 512)) ?l,
      st\<lparr>us_line_overruns := us_line_overruns st + of_nat (length ?l div 512)\<rparr>, db)"
    using snoc by (simp add: Let_def)
  have c: "c \<noteq> CHR 0x0A" using snoc.prems tc by force
  define q where "q = length ?l div 512"
  define r where "r = length ?l mod 512"
  have l: "length ?l = 512 * q + r" "r < 512" by (simp_all add: q_def r_def)
  note t = overrun_tail [OF l]
  consider "c = CHR 0x0D" | "c \<noteq> CHR 0x0D" "r = 511" | "c \<noteq> CHR 0x0D" "r < 511" using l(2) by linarith
  then show ?case
  proof cases
    case 1
    then show ?thesis by (simp add: tc rx_stream_snoc ih rx_char_def)
  next
    case 2
    then have "rx_stream parse lm g ([], st, db) (tcs @ [tc]) =
        ([], st\<lparr>us_line_overruns := us_line_overruns st + of_nat (Suc q)\<rparr>, db)"
      using c t by (simp add: tc rx_stream_snoc ih rx_char_def LINE_BUF_BYTES_def)
    moreover have "length (?l @ [c]) div 512 = Suc q" "drop (512 * Suc q) (?l @ [c]) = []"
      using overrun_full [of ?l q c] l(1) 2(2) by simp_all
    ultimately show ?thesis using 2(1) by (simp add: tc Let_def)
  next
    case 3
    then have "rx_stream parse lm g ([], st, db) (tcs @ [tc]) =
        (drop (512 * q) ?l @ [c], st\<lparr>us_line_overruns := us_line_overruns st + of_nat q\<rparr>, db)"
      using c t by (simp add: tc rx_stream_snoc ih rx_char_def LINE_BUF_BYTES_def)
    moreover have "length (?l @ [c]) div 512 = q" "drop (512 * q) (?l @ [c]) = drop (512 * q) ?l @ [c]"
      using overrun_more [OF l(1) 3(2), of c] by simp_all
    ultimately show ?thesis using 3(1) by (simp add: tc Let_def)
  qed
qed

lemma rx_stream_line:
  assumes "CHR 0x0A \<notin> snd ` set tcs"
  shows "rx_stream parse lm g ([], st, db) (tcs @ [(now, CHR 0x0A)]) =
    ([], line_result parse lm g now (map snd tcs) (st, db))"
  unfolding rx_stream_append rx_stream_fill [OF assms]
  by (simp add: rx_stream_def rx_char_def end_of_line_def line_result_def Let_def split: sum.splits)

lemma rx_stream_lines:
  assumes "\<forall>(tcs, now) \<in> set ls. CHR 0x0A \<notin> snd ` set tcs"
  shows "rx_stream parse lm g ([], s) (concat (map (\<lambda>(tcs, now). tcs @ [(now, CHR 0x0A)]) ls)) =
    ([], foldl (\<lambda>s (tcs, now). line_result parse lm g now (map snd tcs) s) s ls)"
  using assms
proof (induction ls arbitrary: s)
  case Nil
  then show ?case by (simp add: rx_stream_def)
next
  case (Cons l ls)
  obtain tcs now st db where [simp]: "l = (tcs, now)" "s = (st, db)" by (cases l, cases s) auto
  have "rx_stream parse lm g ([], st, db) (tcs @ [(now, CHR 0x0A)]) = ([], line_result parse lm g now (map snd tcs) (st, db))"
    using Cons.prems by (intro rx_stream_line) simp
  then have "rx_stream parse lm g ([], s) (concat (map (\<lambda>(tcs, now). tcs @ [(now, CHR 0x0A)]) (l # ls))) =
      rx_stream parse lm g ([], line_result parse lm g now (map snd tcs) (st, db))
        (concat (map (\<lambda>(tcs, now). tcs @ [(now, CHR 0x0A)]) ls))"
    by (simp add: rx_stream_def)
  also have "\<dots> = ([], foldl (\<lambda>s (tcs, now). line_result parse lm g now (map snd tcs) s)
      (line_result parse lm g now (map snd tcs) (st, db)) ls)"
    by (rule Cons.IH) (use Cons.prems in simp)
  finally show ?case by simp
qed

section \<open>The receive path as a system\<close>

text \<open>
  Interrupts and thread steps in any order.  The history beside the state is every byte read from
  the UART so far; an interrupt only comes while it is armed.
\<close>

datatype usb_event = UsbIrq string | UsbThread ms

type_synonym 'r usb_system = "('r usb_rx \<times> aircraft_db) \<times> string"

fun usb_step ::
  "'r ring_buf \<Rightarrow> json_obj_parse \<Rightarrow> libm \<Rightarrow> f64 kalman_tuning \<Rightarrow> usb_event \<Rightarrow> 'r usb_system \<Rightarrow> 'r usb_system" where
  "usb_step ops parse lm g (UsbIrq fifo) ((u, db), hist) =
     (if ux_armed u then let (bs, u') = interrupt_handler ops fifo u in ((u', db), hist @ bs) else ((u, db), hist))"
| "usb_step ops parse lm g (UsbThread now) (s, hist) = (rx_thread_step ops parse lm g now s, hist)"

text \<open>
  Every byte read is either in the ring buffer or was handed to the line assembler, once and in
  order; nothing is lost.  Whenever the thread waits with work to do or with the receiver
  throttled, the semaphore is up.
\<close>

definition rx_in_order ::
  "json_obj_parse \<Rightarrow> libm \<Rightarrow> f64 kalman_tuning \<Rightarrow> aircraft_db \<Rightarrow> ('r \<Rightarrow> string) \<Rightarrow> 'r usb_system \<Rightarrow> bool" where
  "rx_in_order parse lm g db0 contents s \<longleftrightarrow> (case s of ((u, db), hist) \<Rightarrow>
     \<exists>tcs line st. map snd tcs @ contents (ux_ring u) = hist
       \<and> rx_stream parse lm g ([], usb_stats_zero, db0) tcs = (line, st, db)
       \<and> ux_line u = line \<and> ux_stats u = st\<lparr>us_bytes_rx := of_nat (length hist)\<rparr>)"

definition rx_awake :: "('r \<Rightarrow> string) \<Rightarrow> 'r usb_rx \<Rightarrow> bool" where
  "rx_awake contents u \<longleftrightarrow> length (contents (ux_ring u)) \<le> RINGBUF_BYTES
     \<and> ux_armed u = (\<not> ux_throttled u)
     \<and> (ux_phase u = RxWait \<and> (contents (ux_ring u) \<noteq> [] \<or> ux_throttled u) \<longrightarrow> ux_sem u)
     \<and> (ux_phase u = RxCheck \<and> contents (ux_ring u) \<noteq> [] \<longrightarrow> ux_sem u)"

definition usb_inv ::
  "json_obj_parse \<Rightarrow> libm \<Rightarrow> f64 kalman_tuning \<Rightarrow> aircraft_db \<Rightarrow> ('r \<Rightarrow> string) \<Rightarrow> 'r usb_system \<Rightarrow> bool" where
  "usb_inv parse lm g db0 contents s \<longleftrightarrow>
     rx_in_order parse lm g db0 contents s \<and> rx_awake contents (fst (fst s))"

lemma rx_awakeD:
  assumes "rx_awake contents u"
  shows "length (contents (ux_ring u)) \<le> RINGBUF_BYTES" "ux_armed u = (\<not> ux_throttled u)"
    "ux_phase u = RxWait \<Longrightarrow> contents (ux_ring u) \<noteq> [] \<or> ux_throttled u \<Longrightarrow> ux_sem u"
    "ux_phase u = RxCheck \<Longrightarrow> contents (ux_ring u) \<noteq> [] \<Longrightarrow> ux_sem u"
  using assms by (auto simp: rx_awake_def)

text \<open>The interrupt: what it reads always fits.\<close>

lemma interrupt_result:
  assumes sp: "ring_spec RINGBUF_BYTES contents ops" and aw: "rx_awake contents u"
    and i: "interrupt_handler ops fifo u = (bs, u')"
  shows "contents (ux_ring u') = contents (ux_ring u) @ bs
    \<and> ux_stats u' = (ux_stats u)\<lparr>us_bytes_rx := us_bytes_rx (ux_stats u) + of_nat (length bs)\<rparr>
    \<and> ux_line u' = ux_line u \<and> rx_awake contents u'"
proof -
  let ?r = "ux_ring u" and ?w = "min 64 (rb_space ops (ux_ring u))"
  have le: "length (contents ?r) \<le> RINGBUF_BYTES" using aw by (rule rx_awakeD)
  note ring = ring_specD [OF sp le]
  consider "ux_throttled u \<or> fifo = []" | "\<not> (ux_throttled u \<or> fifo = [])" "?w = 0"
    | "\<not> (ux_throttled u \<or> fifo = [])" "0 < ?w" by linarith
  then show ?thesis
  proof cases
    case 1
    then have "bs = []" "u' = u" using i by (auto simp: interrupt_handler_def)
    with aw show ?thesis by simp
  next
    case 2
    then have e: "bs = []" "u' = u\<lparr>ux_armed := False, ux_throttled := True\<rparr>"
      using i by (simp_all add: interrupt_handler_def Let_def)
    have "contents ?r \<noteq> []" using 2(2) ring(1) by (cases "contents ?r") (simp_all add: RINGBUF_BYTES_def)
    with e aw show ?thesis by (auto simp: rx_awake_def)
  next
    case 3
    define d where "d = take ?w fifo"
    have fit: "min (length d) (RINGBUF_BYTES - length (contents ?r)) = length d"
      unfolding d_def ring(1) by simp
    obtain put ring' where p: "rb_put ops d ?r = (put, ring')" by fastforce
    have put: "put = length d" "contents ring' = contents ?r @ d"
      using ring(2,3) [of d] unfolding fit p by simp_all
    have e: "bs = d" "u' = u\<lparr>ux_ring := ring', ux_stats := (ux_stats u)
        \<lparr>us_bytes_rx := us_bytes_rx (ux_stats u) + of_nat (length d)\<rparr>, ux_sem := True\<rparr>"
      using i 3 p unfolding put(1) interrupt_handler_def Let_def d_def [symmetric] by auto
    have "length (contents ring') \<le> RINGBUF_BYTES" unfolding put(2) using fit le by simp
    with e put aw show ?thesis by (simp add: rx_awake_def)
  qed
qed

text \<open>The thread: it takes a prefix of the ring buffer and assembles it.\<close>

lemma thread_result:
  assumes sp: "ring_spec RINGBUF_BYTES contents ops" and aw: "rx_awake contents u"
    and t: "rx_thread_step ops parse lm g now (u, db) = (u', db')"
  shows "\<exists>cs. contents (ux_ring u) = cs @ contents (ux_ring u')
    \<and> foldl (rx_char parse lm g now) (ux_line u, ux_stats u, db) cs = (ux_line u', ux_stats u', db')
    \<and> rx_awake contents u'"
proof -
  let ?r = "ux_ring u"
  have le: "length (contents ?r) \<le> RINGBUF_BYTES" using aw by (rule rx_awakeD)
  note ring = ring_specD [OF sp le]
  show ?thesis
  proof (cases "ux_phase u")
    case RxWait
    with t aw show ?thesis by (intro exI [of _ "[]"]) (auto simp: rx_thread_step_def rx_awake_def split: if_splits)
  next
    case RxCheck
    with t aw ring(1) show ?thesis
      by (intro exI [of _ "[]"]) (auto simp: rx_thread_step_def rx_awake_def RINGBUF_BYTES_def split: if_splits)
  next
    case RxDrain
    obtain chunk ring' where g: "rb_get ops 128 ?r = (chunk, ring')" by fastforce
    have c: "chunk = take 128 (contents ?r)" "contents ring' = drop 128 (contents ?r)"
      using ring(4,5) [of 128] g by simp_all
    show ?thesis
    proof (cases "chunk = []")
      case True
      then have "u' = u\<lparr>ux_ring := ring', ux_phase := RxCheck\<rparr>" "db' = db" "contents ?r = []" "contents ring' = []"
        using t g c RxDrain by (simp_all add: rx_thread_step_def)
      with aw show ?thesis by (intro exI [of _ "[]"]) (simp add: rx_awake_def)
    next
      case False
      obtain line st d where f: "foldl (rx_char parse lm g now) (ux_line u, ux_stats u, db) chunk = (line, st, d)"
        by (cases "foldl (rx_char parse lm g now) (ux_line u, ux_stats u, db) chunk") auto
      then have "u' = u\<lparr>ux_ring := ring', ux_line := line, ux_stats := st\<rparr>" "db' = d"
        using t g False RxDrain by (simp_all add: rx_thread_step_def)
      with f c aw RxDrain show ?thesis by (intro exI [of _ chunk]) (auto simp: rx_awake_def)
    qed
  qed
qed

text \<open>The byte counter is the interrupt's, the other counters the thread's.\<close>

definition with_bytes :: "u32 \<Rightarrow> rx_state \<Rightarrow> rx_state" where
  "with_bytes n s = (case s of (line, st, db) \<Rightarrow> (line, st\<lparr>us_bytes_rx := n\<rparr>, db))"

lemma rx_char_bytes: "rx_char parse lm g now (with_bytes n s) c = with_bytes n (rx_char parse lm g now s c)"
  by (cases s) (simp add: with_bytes_def rx_char_def end_of_line_def split: sum.splits)

lemma foldl_rx_char_bytes:
  "foldl (rx_char parse lm g now) (with_bytes n s) cs = with_bytes n (foldl (rx_char parse lm g now) s cs)"
  by (induction cs arbitrary: s) (simp_all add: rx_char_bytes)

lemma usb_inv_irq:
  assumes sp: "ring_spec RINGBUF_BYTES contents ops" and inv: "usb_inv parse lm g db0 contents ((u, db), hist)"
  shows "usb_inv parse lm g db0 contents (usb_step ops parse lm g (UsbIrq fifo) ((u, db), hist))"
proof (cases "ux_armed u")
  case True
  obtain bs u' where i: "interrupt_handler ops fifo u = (bs, u')" by fastforce
  from inv obtain tcs line st where f: "map snd tcs @ contents (ux_ring u) = hist"
      "rx_stream parse lm g ([], usb_stats_zero, db0) tcs = (line, st, db)"
      "ux_line u = line" "ux_stats u = st\<lparr>us_bytes_rx := of_nat (length hist)\<rparr>" "rx_awake contents u"
    by (auto simp: usb_inv_def rx_in_order_def)
  from interrupt_result [OF sp f(5) i] f(1-4)
  have "rx_in_order parse lm g db0 contents ((u', db), hist @ bs)" "rx_awake contents u'"
    by (auto simp: rx_in_order_def intro!: exI [of _ tcs])
  then show ?thesis using True i by (simp add: usb_inv_def)
qed (use inv in simp)

lemma usb_inv_thread:
  assumes sp: "ring_spec RINGBUF_BYTES contents ops" and inv: "usb_inv parse lm g db0 contents ((u, db), hist)"
  shows "usb_inv parse lm g db0 contents (usb_step ops parse lm g (UsbThread now) ((u, db), hist))"
proof -
  obtain u' db' where t: "rx_thread_step ops parse lm g now (u, db) = (u', db')" by fastforce
  from inv obtain tcs line st where f: "map snd tcs @ contents (ux_ring u) = hist"
      "rx_stream parse lm g ([], usb_stats_zero, db0) tcs = (line, st, db)"
      "ux_line u = line" "ux_stats u = st\<lparr>us_bytes_rx := of_nat (length hist)\<rparr>" "rx_awake contents u"
    by (auto simp: usb_inv_def rx_in_order_def)
  from thread_result [OF sp f(5) t] obtain cs where cs: "contents (ux_ring u) = cs @ contents (ux_ring u')"
      "foldl (rx_char parse lm g now) (ux_line u, ux_stats u, db) cs = (ux_line u', ux_stats u', db')"
      "rx_awake contents u'"
    by blast
  have "(ux_line u, ux_stats u, db) = with_bytes (of_nat (length hist)) (line, st, db)"
    using f by (simp add: with_bytes_def)
  with cs(2) have w: "with_bytes (of_nat (length hist)) (foldl (rx_char parse lm g now) (line, st, db) cs) =
      (ux_line u', ux_stats u', db')"
    by (simp add: foldl_rx_char_bytes)
  obtain line' st' d' where r: "foldl (rx_char parse lm g now) (line, st, db) cs = (line', st', d')"
    by (cases "foldl (rx_char parse lm g now) (line, st, db) cs") auto
  have "rx_stream parse lm g ([], usb_stats_zero, db0) (tcs @ map (Pair now) cs) = (line', st', d')"
    unfolding rx_stream_append f(2) rx_stream_chunk by (rule r)
  moreover have "map snd (tcs @ map (Pair now) cs) @ contents (ux_ring u') = hist"
    using f(1) cs(1) by (simp add: comp_def)
  moreover have "ux_line u' = line'" "ux_stats u' = st'\<lparr>us_bytes_rx := of_nat (length hist)\<rparr>" "db' = d'"
    using w unfolding r by (simp_all add: with_bytes_def)
  ultimately have "rx_in_order parse lm g db0 contents ((u', db'), hist)"
    unfolding rx_in_order_def prod.case by blast
  with cs(3) t show ?thesis by (simp add: usb_inv_def)
qed

lemma usb_system:
  assumes sp: "ring_spec RINGBUF_BYTES contents ops" and empty: "contents ring = []"
  shows "op_system ((snd (usb_handler_init True (Inr ()) (usb_rx_boot ring)), db0), [])
    (usb_step ops parse lm g) (\<lambda>_. True) (usb_inv parse lm g db0 contents)"
proof
  show "usb_inv parse lm g db0 contents ((snd (usb_handler_init True (Inr ()) (usb_rx_boot ring)), db0), [])"
    using empty by (auto simp: usb_inv_def rx_in_order_def rx_awake_def usb_handler_init_def usb_rx_boot_def
        rx_stream_def usb_stats_zero_def)
next
  fix s x assume inv: "usb_inv parse lm g db0 contents s"
  obtain u db hist where s: "s = ((u, db), hist)" by (cases s) auto
  show "usb_inv parse lm g db0 contents (usb_step ops parse lm g x s)"
    using usb_inv_irq [OF sp] usb_inv_thread [OF sp] inv unfolding s by (cases x) auto
qed

text \<open>The counters of dropped bytes and of what the assembler did stay apart.\<close>

lemma rx_stream_no_drops:
  "us_ringbuf_drops (fst (snd (rx_stream parse lm g s tcs))) = us_ringbuf_drops (fst (snd s))"
  by (induction tcs arbitrary: s)
    (auto simp: rx_stream_def rx_char_def end_of_line_def split: prod.splits sum.splits if_splits)

section \<open>The receiver does not stall\<close>

text \<open>
  However the buffer, the throttle and the thread stand, the thread alone, without further
  interrupts, empties the buffer and leaves the receiver armed (\<open>drains\<close>).
\<close>

definition drained :: "('r \<Rightarrow> string) \<Rightarrow> 'r usb_rx \<Rightarrow> bool" where
  "drained contents u \<longleftrightarrow> contents (ux_ring u) = [] \<and> ux_armed u \<and> ux_phase u = RxWait"

definition drains ::
  "'r ring_buf \<Rightarrow> json_obj_parse \<Rightarrow> libm \<Rightarrow> f64 kalman_tuning \<Rightarrow> ms \<Rightarrow> ('r \<Rightarrow> string) \<Rightarrow> 'r usb_rx \<times> aircraft_db \<Rightarrow> bool" where
  "drains ops parse lm g now contents s \<longleftrightarrow>
     (\<exists>n. drained contents (fst ((rx_thread_step ops parse lm g now ^^ n) s)))"

lemma drains_step: "drains ops parse lm g now contents (rx_thread_step ops parse lm g now s) \<Longrightarrow> drains ops parse lm g now contents s"
  unfolding drains_def by (metis funpow_Suc_right comp_apply)

lemma drains_now: "drained contents (fst s) \<Longrightarrow> drains ops parse lm g now contents s"
  unfolding drains_def by (intro exI [of _ 0]) simp

lemma awake_step:
  assumes "ring_spec RINGBUF_BYTES contents ops" "rx_awake contents (fst s)"
  shows "rx_awake contents (fst (rx_thread_step ops parse lm g now s))"
proof -
  obtain u db where s: "s = (u, db)" by fastforce
  obtain u' db' where "rx_thread_step ops parse lm g now (u, db) = (u', db')" by fastforce
  from thread_result [OF assms(1) _ this] assms(2) this s show ?thesis by auto
qed

lemma drains_check_empty:
  assumes "ring_spec RINGBUF_BYTES contents ops" "rx_awake contents (fst s)" "ux_phase (fst s) = RxCheck"
    "contents (ux_ring (fst s)) = []"
  shows "drains ops parse lm g now contents s"
proof (rule drains_step, rule drains_now)
  have "rb_space ops (ux_ring (fst s)) = 2048"
    using ring_specD(1) [OF assms(1) rx_awakeD(1) [OF assms(2)]] assms(4) by (simp add: RINGBUF_BYTES_def)
  then show "drained contents (fst (rx_thread_step ops parse lm g now s))"
    using assms(2-4) by (cases s) (auto simp: rx_thread_step_def drained_def rx_awake_def)
qed

lemma drains_drain:
  assumes "ring_spec RINGBUF_BYTES contents ops" "rx_awake contents (fst s)" "ux_phase (fst s) = RxDrain"
  shows "drains ops parse lm g now contents s"
  using assms(2,3)
proof (induction "length (contents (ux_ring (fst s)))" arbitrary: s rule: less_induct)
  case less
  obtain u db where s: "s = (u, db)" by fastforce
  note ring = ring_specD(4,5) [OF assms(1) rx_awakeD(1) [OF less.prems(1)], of 128]
  let ?s' = "rx_thread_step ops parse lm g now s"
  have aw: "rx_awake contents (fst ?s')" by (rule awake_step [OF assms(1) less.prems(1)])
  show ?case
  proof (rule drains_step, cases "contents (ux_ring u) = []")
    case True
    then have "ux_phase (fst ?s') = RxCheck" "contents (ux_ring (fst ?s')) = []"
      using ring less.prems(2) s by (auto simp: rx_thread_step_def split: prod.splits)
    with aw show "drains ops parse lm g now contents ?s'" by (intro drains_check_empty [OF assms(1)])
  next
    case False
    then have "ux_phase (fst ?s') = RxDrain" "contents (ux_ring (fst ?s')) = drop 128 (contents (ux_ring u))"
      using ring less.prems(2) s by (auto simp: rx_thread_step_def split: prod.splits)
    moreover have "length (drop 128 (contents (ux_ring u))) < length (contents (ux_ring u))" using False by simp
    ultimately show "drains ops parse lm g now contents ?s'" using less.hyps aw s by simp
  qed
qed

lemma drains_wait:
  assumes "ring_spec RINGBUF_BYTES contents ops" "rx_awake contents (fst s)" "ux_phase (fst s) = RxWait"
  shows "drains ops parse lm g now contents s"
proof (cases "drained contents (fst s)")
  case True
  then show ?thesis by (rule drains_now)
next
  case False
  then have "ux_sem (fst s)" using assms(2,3) by (auto simp: drained_def rx_awake_def)
  then have "ux_phase (fst (rx_thread_step ops parse lm g now s)) = RxDrain"
    using assms(3) by (cases s) (simp add: rx_thread_step_def)
  with awake_step [OF assms(1,2)] show ?thesis by (intro drains_step [OF drains_drain [OF assms(1)]])
qed

lemma awake_drains:
  assumes "ring_spec RINGBUF_BYTES contents ops" "rx_awake contents (fst s)"
  shows "drains ops parse lm g now contents s"
proof (cases "ux_phase (fst s)")
  case RxCheck
  then have "ux_phase (fst (rx_thread_step ops parse lm g now s)) = RxWait" by (cases s) (simp add: rx_thread_step_def)
  with awake_step [OF assms] show ?thesis by (intro drains_step [OF drains_wait [OF assms(1)]])
qed (use assms drains_wait drains_drain in blast)+

end
