(* ===== verification/Db_Publisher.thy ===== *)
theory Db_Publisher
  imports Aircraft_Db_Correct Printf
begin

text \<open>
  \<open>db_publisher.c\<close> and \<open>usb_serial.c\<close>: twice a second every aircraft of the database is written
  to the data port as one line of JSON.  A line that does not fit the 256-byte buffer is
  counted and left out.  \<open>usb_serial_println\<close> writes to the UART only while the host has the
  port open; what it writes is a string of characters.
\<close>

section \<open>Data port\<close>

definition usb_serial_init :: "bool \<Rightarrow> errno + unit" where
  [sky_eval]: "usb_serial_init ready = (if \<not> ready then Inl ENODEV else Inr ())"

definition usb_serial_println :: "bool \<Rightarrow> bool \<Rightarrow> string \<Rightarrow> string" where
  [sky_eval]: "usb_serial_println ready dtr str = (if \<not> ready then [] else if \<not> dtr then [] else str @ [CHR 0x0A])"

section \<open>State\<close>

definition PUBLISH_PERIOD_MS :: ms where [sky_eval]: "PUBLISH_PERIOD_MS = 500"
definition LINE_CAP :: nat where [sky_eval]: "LINE_CAP = 256"

record db_publisher_stats =
  ps_ticks :: u32
  ps_frames_emitted :: u32
  ps_format_errors :: u32

definition publisher_stats_zero :: db_publisher_stats where
  [sky_eval]: "publisher_stats_zero = \<lparr>ps_ticks = 0, ps_frames_emitted = 0, ps_format_errors = 0\<rparr>"

record publisher =
  pb_stats :: db_publisher_stats
  pb_snapshot :: "aircraft_t list"
  pb_due :: "ms option"

section \<open>Operations\<close>

definition snapshot_cb :: "aircraft_db_entry \<Rightarrow> aircraft_t list \<Rightarrow> bool \<times> aircraft_t list" where
  "snapshot_cb e acs = (if AIRCRAFT_DB_MAX_ENTRIES \<le> length acs then (False, acs) else (True, acs @ [de_ac e]))"

text \<open>
  One \<open>snprintf\<close> behind the text so far: \<open>None\<close> when the text with it would not fit \<open>cap\<close> bytes
  with its terminating NUL.
\<close>

definition append_fmt :: "nat \<Rightarrow> string \<Rightarrow> string \<Rightarrow> string option" where
  "append_fmt cap buf s = (if cap \<le> length buf + length s then None else Some (buf @ s))"

definition format_aircraft_json :: "nat \<Rightarrow> aircraft_t \<Rightarrow> string option" where
  "format_aircraft_json cap ac =
     Option.bind (append_fmt cap [] (''{'' @ member_of ''type'' (quoted ''aircraft'') @ '','' @ member_of ''icao'' (quoted (ac_icao ac))
         @ '','' @ member_of ''lat'' (show_fixed 6 (ac_lat ac)) @ '','' @ member_of ''lon'' (show_fixed 6 (ac_lon ac)))) (\<lambda>b0.
     Option.bind (if ac_has ac AIRCRAFT_VALID_ALT
         then append_fmt cap b0 ('','' @ member_of ''alt'' (show_dec (sint (ac_alt_ft ac)))) else Some b0) (\<lambda>b1.
     Option.bind (if ac_has ac AIRCRAFT_VALID_VEL
         then append_fmt cap b1 ('','' @ member_of ''vel'' (show_fixed 1 (ac_vel_kt ac))) else Some b1) (\<lambda>b2.
     Option.bind (if ac_has ac AIRCRAFT_VALID_HDG
         then append_fmt cap b2 ('','' @ member_of ''hdg'' (show_fixed 1 (ac_hdg_deg ac))) else Some b2) (\<lambda>b3.
     Option.bind (if ac_has ac AIRCRAFT_VALID_PRED
         then append_fmt cap b3 ('','' @ member_of ''pred_lat'' (show_fixed 6 (ac_pred_lat ac))
           @ '','' @ member_of ''pred_lon'' (show_fixed 6 (ac_pred_lon ac))) else Some b3) (\<lambda>b4.
     append_fmt cap b4 ('','' @ member_of ''ts'' (show_fixed 3 (ac_ts ac))
         @ '','' @ member_of ''source'' (quoted (aircraft_source_str (ac_source ac))) @ ''}''))))))"

text \<open>The lines go out in the order of the snapshot; the port's state is that of the whole round.\<close>

fun emit_all :: "bool \<Rightarrow> bool \<Rightarrow> aircraft_t list \<Rightarrow> db_publisher_stats \<Rightarrow> db_publisher_stats \<times> string" where
  "emit_all ready dtr [] st = (st, [])"
| "emit_all ready dtr (ac # acs) st =
     (case format_aircraft_json LINE_CAP ac of
        None \<Rightarrow> emit_all ready dtr acs (st\<lparr>ps_format_errors := ps_format_errors st + 1\<rparr>)
      | Some line \<Rightarrow>
          (let (st', out) = emit_all ready dtr acs (st\<lparr>ps_frames_emitted := ps_frames_emitted st + 1\<rparr>)
           in (st', usb_serial_println ready dtr line @ out)))"

definition publisher_work :: "bool \<Rightarrow> bool \<Rightarrow> ms \<Rightarrow> aircraft_db \<Rightarrow> publisher \<Rightarrow> publisher \<times> string" where
  "publisher_work ready dtr now db p =
     (let st0 = (pb_stats p)\<lparr>ps_ticks := ps_ticks (pb_stats p) + 1\<rparr>;
          snap = aircraft_db_for_each snapshot_cb db [];
          (st, out) = emit_all ready dtr snap st0
      in (p\<lparr>pb_stats := st, pb_snapshot := snap, pb_due := Some (now + PUBLISH_PERIOD_MS)\<rparr>, out))"

definition db_publisher_init :: "ms \<Rightarrow> publisher \<Rightarrow> publisher" where
  "db_publisher_init now p = p\<lparr>pb_stats := publisher_stats_zero, pb_due := Some (now + PUBLISH_PERIOD_MS)\<rparr>"

definition db_publisher_get_stats :: "publisher \<Rightarrow> db_publisher_stats" where
  "db_publisher_get_stats p = pb_stats p"

definition publisher_boot :: publisher where
  "publisher_boot = \<lparr>pb_stats = publisher_stats_zero, pb_snapshot = [], pb_due = None\<rparr>"

lemmas publisher_defs [sky_eval] = snapshot_cb_def append_fmt_def format_aircraft_json_def publisher_work_def
  db_publisher_init_def db_publisher_get_stats_def publisher_boot_def

section \<open>What a line says\<close>

text \<open>The same line as one text, and the bound on its length.\<close>

definition aircraft_line :: "aircraft_t \<Rightarrow> string" where
  "aircraft_line ac = ''{'' @ member_of ''type'' (quoted ''aircraft'') @ '','' @ member_of ''icao'' (quoted (ac_icao ac))
     @ '','' @ member_of ''lat'' (show_fixed 6 (ac_lat ac)) @ '','' @ member_of ''lon'' (show_fixed 6 (ac_lon ac))
     @ (if ac_has ac AIRCRAFT_VALID_ALT then '','' @ member_of ''alt'' (show_dec (sint (ac_alt_ft ac))) else [])
     @ (if ac_has ac AIRCRAFT_VALID_VEL then '','' @ member_of ''vel'' (show_fixed 1 (ac_vel_kt ac)) else [])
     @ (if ac_has ac AIRCRAFT_VALID_HDG then '','' @ member_of ''hdg'' (show_fixed 1 (ac_hdg_deg ac)) else [])
     @ (if ac_has ac AIRCRAFT_VALID_PRED then '','' @ member_of ''pred_lat'' (show_fixed 6 (ac_pred_lat ac))
         @ '','' @ member_of ''pred_lon'' (show_fixed 6 (ac_pred_lon ac)) else [])
     @ '','' @ member_of ''ts'' (show_fixed 3 (ac_ts ac)) @ '','' @ member_of ''source'' (quoted (aircraft_source_str (ac_source ac)))
     @ ''}''"

text \<open>Appending text by text under one bound is appending all of it under the bound.\<close>

definition fits :: "nat \<Rightarrow> string \<Rightarrow> string option" where
  "fits cap s = (if length s < cap then Some s else None)"

lemma append_fmt_fits: "append_fmt cap [] s = fits cap s"
  by (simp add: append_fmt_def fits_def)

lemma bind_fits:
  "Option.bind (fits cap b) (\<lambda>b. append_fmt cap b s) = fits cap (b @ s)"
  by (simp add: append_fmt_def fits_def)

lemma bind_fits_if:
  "Option.bind (fits cap b) (\<lambda>b. if c then append_fmt cap b s else Some b) = fits cap (b @ (if c then s else []))"
  by (simp add: append_fmt_def fits_def)

lemma format_line: "format_aircraft_json cap ac = fits cap (aircraft_line ac)"
  unfolding format_aircraft_json_def append_fmt_fits
  by (simp only: bind_assoc [symmetric] bind_fits bind_fits_if) (simp only: aircraft_line_def append_assoc)

lemma emit_all_result:
  "emit_all ready dtr acs st =
    (let ls = filter (\<lambda>l. length l < LINE_CAP) (map aircraft_line acs)
     in (st\<lparr>ps_frames_emitted := ps_frames_emitted st + of_nat (length ls),
           ps_format_errors := ps_format_errors st + of_nat (length acs - length ls)\<rparr>,
         concat (map (usb_serial_println ready dtr) ls)))"
proof (induction acs arbitrary: st)
  case (Cons ac acs)
  have "length (filter (\<lambda>l. length l < LINE_CAP) (map aircraft_line acs)) \<le> length acs"
    using length_filter_le [of _ "map aircraft_line acs"] by simp
  then show ?case by (simp add: Cons.IH format_line fits_def Let_def Suc_diff_le)
qed simp

lemma walk_snapshot:
  "length acs + length es \<le> AIRCRAFT_DB_MAX_ENTRIES \<Longrightarrow> walk snapshot_cb es acs = acs @ map de_ac es"
  by (induction es arbitrary: acs) (simp_all add: snapshot_cb_def)

lemma publisher_snapshot:
  assumes "db_inv db" shows "aircraft_db_for_each snapshot_cb db [] = map de_ac (db_rows db)"
proof -
  have "length (db_rows db) \<le> AIRCRAFT_DB_MAX_ENTRIES" using rows_full(1) [OF assms] by simp
  then show ?thesis by (simp add: for_each_rows walk_snapshot)
qed

text \<open>A whole round: the lines that fit, in the order of the database, and the counters.\<close>

definition published_lines :: "aircraft_db \<Rightarrow> string list" where
  "published_lines db = filter (\<lambda>l. length l < LINE_CAP) (map aircraft_line (map de_ac (db_rows db)))"

lemma publisher_round:
  assumes "db_inv db"
  shows "publisher_work ready dtr now db p =
    (let n = length (published_lines db); st = pb_stats p
     in (p\<lparr>pb_stats := \<lparr>ps_ticks = ps_ticks st + 1, ps_frames_emitted = ps_frames_emitted st + of_nat n,
              ps_format_errors = ps_format_errors st + of_nat (length (db_rows db) - n)\<rparr>,
            pb_snapshot := map de_ac (db_rows db), pb_due := Some (now + PUBLISH_PERIOD_MS)\<rparr>,
         concat (map (usb_serial_println ready dtr) (published_lines db))))"
  unfolding publisher_work_def Let_def publisher_snapshot [OF assms] emit_all_result published_lines_def [symmetric] length_map
  by (cases "pb_stats p") (simp add: Let_def)

text \<open>
  A round of the publisher on a reachable database writes, in its order, the line of every
  aircraft whose line fits the 256-byte buffer, and nothing while the port is closed; the
  counters say how many lines were written and how many did not fit.
\<close>

lemma publisher_writes_all:
  "(let db = run (db_step lm g) aircraft_db_init ops; n = length (published_lines db); st = pb_stats p
    in publisher_work ready dtr now db p =
      (p\<lparr>pb_stats := \<lparr>ps_ticks = ps_ticks st + 1, ps_frames_emitted = ps_frames_emitted st + of_nat n,
           ps_format_errors = ps_format_errors st + of_nat (length (db_rows db) - n)\<rparr>,
         pb_snapshot := map de_ac (db_rows db), pb_due := Some (now + PUBLISH_PERIOD_MS)\<rparr>,
       concat (map (usb_serial_println ready dtr) (published_lines db))))"
proof -
  have "db_inv (run (db_step lm g) aircraft_db_init ops)" by (rule db_sys.inv_run) simp
  from publisher_round [OF this] show ?thesis by (simp add: Let_def)
qed

end
