(* ===== verification/Controller.thy ===== *)
theory Controller
  imports Collision_Scenarios Ble_Central Usb_Handler Db_Publisher
begin

text \<open>
  The controller's firmware put together (\<open>main.c\<close>): the static state of every component, what
  \<open>main\<close> starts, and one function per thread round, work item and callback, each on the state
  the others left.  The detector's link flag is the central's, its warning frames go through
  \<open>ble_central_send_warning\<close>, and its lines through \<open>usb_serial_println\<close>.
\<close>

section \<open>State and environment\<close>

record ('q, 'r) controller =
  ct_db :: aircraft_db
  ct_kal :: "f64 kalman_tuning"
  ct_col :: collision
  ct_missile :: missile
  ct_ble :: ble_central
  ct_bridge :: "'q bridge"
  ct_usb :: "'r usb_rx"
  ct_pub :: publisher
  ct_red :: bool
  ct_green :: bool

text \<open>
  The code outside the repository: the mathematics library, the JSON library, the message
  queue, the ring buffer, \<open>strtod\<close>, the numbers of \<open>errno.h\<close>, and from Zephyr the text of a
  Bluetooth address and the length of a kernel tick.
\<close>

record ('q, 'r) environment =
  en_libm :: libm
  en_json :: json_obj_parse
  en_msgq :: "(ble_aircraft_frame, 'q) msgq"
  en_ring :: "'r ring_buf"
  en_strtod :: "string \<Rightarrow> f64"
  en_errno :: "errno \<Rightarrow> int"
  en_addr_str :: "bt_addr \<Rightarrow> string"
  en_ticks_to_us :: "int \<Rightarrow> int"

text \<open>
  Calls of the Bluetooth stack, characters on the data port while the host reads it, and lines
  on the operator's console (\<open>shell_print\<close> and \<open>shell_error\<close>).
\<close>

datatype ct_out = OutBt bt_call | OutUsb string | OutPrint string | OutError string

definition controller_boot :: "libm \<Rightarrow> 'q \<Rightarrow> 'r \<Rightarrow> ('q, 'r) controller" where
  "controller_boot lm q r = \<lparr>ct_db = aircraft_db_init, ct_kal = kalman_tuning_init (f64_num lm),
     ct_col = collision_boot, ct_missile = missile_zero, ct_ble = ble_central_boot,
     ct_bridge = \<lparr>br_stats = bridge_stats_zero, br_msgq = q\<rparr>, ct_usb = usb_rx_boot r, ct_pub = publisher_boot,
     ct_red = False, ct_green = False\<rparr>"

section \<open>Start\<close>

text \<open>
  \<open>main\<close> up to its endless loop.  An error of one initialisation is logged and the next one
  runs; \<open>usb\<close>, \<open>cb\<close> and \<open>enable\<close> are what the drivers answer.
\<close>

definition controller_main ::
  "bool \<Rightarrow> errno + unit \<Rightarrow> bt_rc \<Rightarrow> errno + unit \<Rightarrow> ms \<Rightarrow> ('q, 'r) controller \<Rightarrow> ('q, 'r) controller \<times> ct_out list" where
  "controller_main usb cb rc enable now s0 =
     (let s1 = s0\<lparr>ct_red := True, ct_green := False, ct_db := aircraft_db_init\<rparr>;
          s2 = s1\<lparr>ct_usb := snd (usb_handler_init usb cb (ct_usb s1))\<rparr>;
          s3 = s2\<lparr>ct_bridge := bridge_init (ct_bridge s2)\<rparr>;
          (_, ble, calls) = ble_central_init rc enable (ct_ble s3);
          s4 = s3\<lparr>ct_ble := ble\<rparr>;
          s5 = s4\<lparr>ct_pub := db_publisher_init now (ct_pub s4)\<rparr>;
          s6 = s5\<lparr>ct_col := collision_init now (ct_col s5)\<rparr>
      in (s6\<lparr>ct_red := False, ct_green := True\<rparr>, map OutBt calls))"

definition heartbeat :: "('q, 'r) controller \<Rightarrow> ('q, 'r) controller" where
  "heartbeat s = s\<lparr>ct_green := \<not> ct_green s\<rparr>"

section \<open>Threads, work items and callbacks\<close>

definition on_usb_irq :: "('q, 'r) environment \<Rightarrow> string \<Rightarrow> ('q, 'r) controller \<Rightarrow> ('q, 'r) controller" where
  "on_usb_irq en fifo s =
     (if ux_armed (ct_usb s) then s\<lparr>ct_usb := snd (interrupt_handler (en_ring en) fifo (ct_usb s))\<rparr> else s)"

definition on_usb_thread :: "('q, 'r) environment \<Rightarrow> ms \<Rightarrow> ('q, 'r) controller \<Rightarrow> ('q, 'r) controller" where
  "on_usb_thread en now s =
     (let (u, db) = rx_thread_step (en_ring en) (en_json en) (en_libm en) (ct_kal s) now (ct_usb s, ct_db s)
      in s\<lparr>ct_usb := u, ct_db := db\<rparr>)"

definition on_notify :: "('q, 'r) environment \<Rightarrow> u8 list option \<Rightarrow> ('q, 'r) controller \<Rightarrow> ('q, 'r) controller" where
  "on_notify en data s =
     (let (ble, br) = notify_cb (en_msgq en) data (ct_ble s, ct_bridge s) in s\<lparr>ct_ble := ble, ct_bridge := br\<rparr>)"

definition on_bridge_thread :: "('q, 'r) environment \<Rightarrow> ms \<Rightarrow> ('q, 'r) controller \<Rightarrow> ('q, 'r) controller" where
  "on_bridge_thread en now s =
     (let (br, db) = bridge_thread_step (en_msgq en) (en_libm en) (ct_kal s) now (ct_bridge s, ct_db s)
      in s\<lparr>ct_bridge := br, ct_db := db\<rparr>)"

definition on_reaper :: "ms \<Rightarrow> ('q, 'r) controller \<Rightarrow> ('q, 'r) controller" where
  "on_reaper now s = s\<lparr>ct_db := fst (reaper_thread_fn now (ct_db s))\<rparr>"

text \<open>What the detector's events become: a line on the port, a write on the link.\<close>

fun deliver :: "bt_rc \<Rightarrow> bool \<Rightarrow> bool \<Rightarrow> ble_central \<Rightarrow> col_event \<Rightarrow> ct_out list" where
  "deliver rc ready dtr ble (UsbLine l) = [OutUsb (usb_serial_println ready dtr l)]"
| "deliver rc ready dtr ble (BleSend w) = map OutBt (snd (ble_central_send_warning rc w ble))"

definition on_collision_tick ::
  "('q, 'r) environment \<Rightarrow> bt_rc \<Rightarrow> bool \<Rightarrow> bool \<Rightarrow> ms \<Rightarrow> ('q, 'r) controller \<Rightarrow> ('q, 'r) controller \<times> ct_out list" where
  "on_collision_tick en rc ready dtr now s =
     (let (c, m, out) = work_handler (en_libm en) (ble_central_is_connected (ct_ble s)) now (ct_db s) (ct_col s, ct_missile s)
      in (s\<lparr>ct_col := c, ct_missile := m\<rparr>, concat (map (deliver rc ready dtr (ct_ble s)) out)))"

definition on_inject :: "('q, 'r) environment \<Rightarrow> ms \<Rightarrow> ('q, 'r) controller \<Rightarrow> ('q, 'r) controller" where
  "on_inject en now s =
     (let (c, db) = inject_keepalive_handler (en_libm en) (ct_kal s) now (ct_col s, ct_db s) in s\<lparr>ct_col := c, ct_db := db\<rparr>)"

definition on_ghost :: "('q, 'r) environment \<Rightarrow> ms \<Rightarrow> ('q, 'r) controller \<Rightarrow> ('q, 'r) controller" where
  "on_ghost en now s =
     (let (c, db) = ghost_keepalive_handler (en_libm en) (ct_kal s) now (ct_col s, ct_db s) in s\<lparr>ct_col := c, ct_db := db\<rparr>)"

definition on_missile :: "('q, 'r) environment \<Rightarrow> ms \<Rightarrow> ('q, 'r) controller \<Rightarrow> ('q, 'r) controller" where
  "on_missile en now s =
     (let (m, db) = missile_worker (en_libm en) (ct_kal s) now (ct_missile s, ct_db s) in s\<lparr>ct_missile := m, ct_db := db\<rparr>)"

definition on_publish :: "bool \<Rightarrow> bool \<Rightarrow> ms \<Rightarrow> ('q, 'r) controller \<Rightarrow> ('q, 'r) controller \<times> ct_out list" where
  "on_publish ready dtr now s =
     (let (p, out) = publisher_work ready dtr now (ct_db s) (ct_pub s) in (s\<lparr>ct_pub := p\<rparr>, [OutUsb out]))"

text \<open>The callbacks of the Bluetooth stack and the watchdog, each a step of the central.\<close>

definition on_ble :: "(ble_central \<Rightarrow> ble_central \<times> bt_call list) \<Rightarrow> ('q, 'r) controller \<Rightarrow> ('q, 'r) controller \<times> ct_out list" where
  "on_ble f s = (let (ble, calls) = f (ct_ble s) in (s\<lparr>ct_ble := ble\<rparr>, map OutBt calls))"

lemmas controller_defs = controller_main_def heartbeat_def on_usb_irq_def on_usb_thread_def on_notify_def
  on_bridge_thread_def on_reaper_def on_collision_tick_def on_inject_def on_ghost_def on_missile_def on_publish_def
  on_ble_def

end
