(* ===== verification/Shell_Table.thy ===== *)
theory Shell_Table
  imports Main
begin

text \<open>
  The tables of shell commands both firmwares declare (\<open>SHELL_CMD\<close>, \<open>SHELL_STATIC_SUBCMD_SET_CREATE\<close>,
  \<open>SHELL_CMD_REGISTER\<close>), and how a command line finds its handler in them.
\<close>

text \<open>
  A word of a command line names a command or a group of further words.  The handler gets the
  words from its own name on.
\<close>

datatype 'h shell_entry = SHELL_CMD string 'h | SHELL_SUB string "'h shell_entry list"

fun entry_name :: "'h shell_entry \<Rightarrow> string" where
  "entry_name (SHELL_CMD n h) = n"
| "entry_name (SHELL_SUB n es) = n"

fun resolve :: "'h shell_entry list \<Rightarrow> string list \<Rightarrow> ('h \<times> string list) option" where
  "resolve es [] = None"
| "resolve es (w # ws) = (case List.find (\<lambda>e. entry_name e = w) es of
     None \<Rightarrow> None
   | Some (SHELL_CMD n h) \<Rightarrow> Some (h, w # ws)
   | Some (SHELL_SUB n es') \<Rightarrow> resolve es' ws)"

text \<open>The handlers of a table, which are all a command line can reach.\<close>

fun entry_cmds :: "'h shell_entry \<Rightarrow> 'h set" where
  "entry_cmds (SHELL_CMD n h) = {h}"
| "entry_cmds (SHELL_SUB n es) = (\<Union>e \<in> set es. entry_cmds e)"

lemma resolve_cmd: "resolve es ws = Some (h, argv) \<Longrightarrow> \<exists>e \<in> set es. h \<in> entry_cmds e"
proof (induction es ws rule: resolve.induct)
  case (2 es w ws)
  then obtain e where e: "List.find (\<lambda>e. entry_name e = w) es = Some e" by (auto split: option.splits)
  then have "e \<in> set es" by (auto simp: find_Some_iff)
  moreover have "h \<in> entry_cmds e" using 2 e by (cases e) fastforce+
  ultimately show ?case by blast
qed simp

lemma resolve_head:
  assumes "resolve es (w # ws) = Some (h, argv)"
  shows "\<exists>e \<in> set es. entry_name e = w \<and> h \<in> entry_cmds e"
proof -
  obtain e where e: "List.find (\<lambda>e. entry_name e = w) es = Some e" using assms by (auto split: option.splits)
  then have "e \<in> set es" "entry_name e = w" by (auto simp: find_Some_iff)
  moreover have "h \<in> entry_cmds e" using assms e by (cases e) (auto dest: resolve_cmd)
  ultimately show ?thesis by blast
qed

lemma resolve_words: "resolve es ws = Some (h, argv) \<Longrightarrow> argv \<noteq> [] \<and> (\<exists>path. ws = path @ argv)"
proof (induction es ws rule: resolve.induct)
  case (2 es w ws)
  then obtain e where e: "List.find (\<lambda>e. entry_name e = w) es = Some e" by (auto split: option.splits)
  show ?case
  proof (cases e)
    case (SHELL_SUB n es')
    then have "resolve es' ws = Some (h, argv)" using 2 e by simp
    from 2(1) [OF e SHELL_SUB this] show ?thesis by (metis append_Cons)
  qed (use 2 e in auto)
qed simp

end
