(* ===== verification/Shell.thy ===== *)
theory Shell
  imports Controller Shell_Table
begin

text \<open>
  \<open>shell.c\<close>: the operator's commands, each with its argument vector (the command's own name
  first), and the table that finds a command by its words.  A command returns its code, the
  new state, and in their order the calls, port characters and console lines it makes.
\<close>

type_synonym ('q, 'r) cmd_result = "(errno + unit) \<times> ('q, 'r) controller \<times> ct_out list"

type_synonym ('q, 'r) command = "string list \<Rightarrow> ('q, 'r) controller \<Rightarrow> ('q, 'r) cmd_result"

text \<open>
  What surrounds one command: the clock, the answers of the Bluetooth stack, whether the data
  port is ready and open, and the kernel's ticks at the two readings of the benchmark.
\<close>

record shell_io =
  io_now :: ms
  io_rc :: bt_rc
  io_ready :: bool
  io_dtr :: bool
  io_ticks :: "int \<times> int"

section \<open>Console texts\<close>

text \<open>\<open>%d\<close> of a negative error code, which is what a failing call returned.\<close>

fun show_rc :: "('q, 'r) environment \<Rightarrow> errno \<Rightarrow> string" where
  "show_rc en (EStack r) = show_dec r"
| "show_rc en e = show_dec (- en_errno en e)"

text \<open>The characters of the source outside ASCII, as their UTF-8 bytes.\<close>

definition EM_DASH :: string where [sky_eval]: "EM_DASH = [CHR 0xE2, CHR 0x80, CHR 0x94]"
definition LEFT_RIGHT_ARROW :: string where [sky_eval]: "LEFT_RIGHT_ARROW = [CHR 0xE2, CHR 0x86, CHR 0x94]"
definition DEGREE_SIGN :: string where [sky_eval]: "DEGREE_SIGN = [CHR 0xC2, CHR 0xB0]"

definition in_quotes :: "string \<Rightarrow> string" where
  "in_quotes s = CHR 0x27 # s @ [CHR 0x27]"

definition in_backquotes :: "string \<Rightarrow> string" where
  "in_backquotes s = CHR 0x60 # s @ [CHR 0x60]"

definition show_mask :: "u8 \<Rightarrow> string" where
  "show_mask m = ''0x'' @ show_hex 0 (uint m)"

text \<open>\<open>(argc > i) ? argv[i] : alt\<close>\<close>

definition arg_or :: "string list \<Rightarrow> nat \<Rightarrow> string \<Rightarrow> string" where
  "arg_or argv i alt = (if i < length argv then argv ! i else alt)"

section \<open>Liveness, USB and JSON samples\<close>

definition cmd_skywatch_ping :: "('q, 'r) command" where
  "cmd_skywatch_ping argv s = (Inr (), s, [OutPrint ''pong''])"

definition cmd_skywatch_usb_stats :: "('q, 'r) command" where
  "cmd_skywatch_usb_stats argv s =
     (let u = usb_handler_get_stats (ct_usb s)
      in (Inr (), s, [OutPrint (''bytes_rx='' @ show_u32 (us_bytes_rx u) @ '' frames_rx='' @ show_u32 (us_frames_rx u)
           @ '' ringbuf_drops='' @ show_u32 (us_ringbuf_drops u) @ '' line_overruns='' @ show_u32 (us_line_overruns u)
           @ '' parse_errors='' @ show_u32 (us_parse_errors u))]))"

definition SAMPLE_FULL :: string where
  "SAMPLE_FULL = ''{'' @ member_of ''type'' (quoted ''aircraft'') @ '','' @ member_of ''icao'' (quoted ''a1b2c3'')
     @ '','' @ member_of ''lat'' ''-27.4975'' @ '','' @ member_of ''lon'' ''153.0137''
     @ '','' @ member_of ''alt'' ''3500'' @ '','' @ member_of ''vel'' ''450.0'' @ '','' @ member_of ''hdg'' ''90.0''
     @ '','' @ member_of ''ts'' ''1715683200.0'' @ '','' @ member_of ''source'' (quoted ''ADS_B'') @ ''}''"

definition SAMPLE_MINIMAL :: string where
  "SAMPLE_MINIMAL = ''{'' @ member_of ''type'' (quoted ''aircraft'') @ '','' @ member_of ''icao'' (quoted ''d4e5f6'')
     @ '','' @ member_of ''lat'' ''-27.5'' @ '','' @ member_of ''lon'' ''153.0''
     @ '','' @ member_of ''ts'' ''1715683201.0'' @ '','' @ member_of ''source'' (quoted ''ADS_B'') @ ''}''"

definition print_parsed :: "aircraft_t \<Rightarrow> ct_out list" where
  "print_parsed ac = map OutPrint
     [''  icao        = '' @ ac_icao ac,
      ''  source      = '' @ aircraft_source_str (ac_source ac),
      ''  lat         = '' @ show_fixed 6 (ac_lat ac),
      ''  lon         = '' @ show_fixed 6 (ac_lon ac),
      ''  ts          = '' @ show_fixed 3 (ac_ts ac),
      ''  valid_mask  = '' @ show_mask (ac_valid_mask ac),
      ''  alt_ft      = '' @ (if ac_has ac AIRCRAFT_VALID_ALT then show_dec (sint (ac_alt_ft ac)) else ''(absent)''),
      ''  vel_kt      = '' @ (if ac_has ac AIRCRAFT_VALID_VEL then show_fixed 1 (ac_vel_kt ac) else ''(absent)''),
      ''  hdg_deg     = '' @ (if ac_has ac AIRCRAFT_VALID_HDG then show_fixed 1 (ac_hdg_deg ac) else ''(absent)'')]"

text \<open>The source is copied into a buffer of 256 bytes for the parser.\<close>

definition parse_and_print :: "('q, 'r) environment \<Rightarrow> string \<Rightarrow> string \<Rightarrow> (errno + unit) \<times> ct_out list" where
  "parse_and_print en src label =
     (let head = [OutPrint (''--- '' @ label @ '' ---''), OutPrint (''JSON: '' @ src)]
      in case json_parse_aircraft (en_json en) (take 255 src) of
           Inl e \<Rightarrow> (Inl e, head @ [OutError (''parse failed: '' @ show_rc en e)])
         | Inr ac \<Rightarrow> (Inr (), head @ print_parsed ac))"

definition cmd_skywatch_test_json :: "('q, 'r) environment \<Rightarrow> ('q, 'r) command" where
  "cmd_skywatch_test_json en argv s =
     (let (rc1, out1) = parse_and_print en SAMPLE_FULL ''full sample'';
          (rc2, out2) = parse_and_print en SAMPLE_MINIMAL ''minimal sample (alt/vel/hdg absent)''
      in (case rc1 of Inl e \<Rightarrow> Inl e | Inr _ \<Rightarrow> rc2, s, out1 @ out2))"

section \<open>BLE\<close>

definition cmd_ble_scan_start :: "shell_io \<Rightarrow> ('q, 'r) command" where
  "cmd_ble_scan_start io argv s =
     (let (s', out) = on_ble (ble_central_scan_start (io_rc io)) s in (Inr (), s', out @ [OutPrint ''scan started'']))"

definition cmd_ble_scan_stop :: "('q, 'r) command" where
  "cmd_ble_scan_stop argv s =
     (let (s', out) = on_ble ble_central_scan_stop s in (Inr (), s', out @ [OutPrint ''scan stopped'']))"

definition cmd_ble_scan_list :: "('q, 'r) environment \<Rightarrow> ('q, 'r) command" where
  "cmd_ble_scan_list en argv s = (Inr (), s, map OutPrint (ble_central_scan_list (en_addr_str en) (ct_ble s)))"

definition cmd_ble_disconnect :: "('q, 'r) command" where
  "cmd_ble_disconnect argv s =
     (Inr (), s, map OutBt (ble_central_disconnect (ct_ble s)) @ [OutPrint ''disconnect requested''])"

definition cmd_ble_stats :: "('q, 'r) command" where
  "cmd_ble_stats argv s =
     (let c = ble_central_get_stats (ct_ble s); b = bridge_get_stats (ct_bridge s)
      in (Inr (), s,
          [OutPrint (''ble: connected='' @ (if bcs_connected c then ''yes'' else ''no'')
             @ '' notify='' @ show_u32 (bcs_notify_count c) @ '' bad_len='' @ show_u32 (bcs_bad_length c)
             @ '' submitted='' @ show_u32 (bcs_submitted c) @ '' conn='' @ show_u32 (bcs_connect_count c)
             @ '' disc='' @ show_u32 (bcs_disconnect_count c)),
           OutPrint (''bridge: submitted='' @ show_u32 (bs_submitted b) @ '' drops='' @ show_u32 (bs_drops b)
             @ '' converted='' @ show_u32 (bs_converted b) @ '' rej_src='' @ show_u32 (bs_rej_source b)
             @ '' rej_icao='' @ show_u32 (bs_rej_icao b) @ '' rej_latlon='' @ show_u32 (bs_rej_latlon b))]))"

definition sample_frame :: "ms \<Rightarrow> ble_aircraft_frame" where
  "sample_frame now = \<lparr>bf_source = BLE_SRC_BLE_SIM,
     bf_flags = BLE_FLAG_ALT_VALID OR BLE_FLAG_VEL_VALID OR BLE_FLAG_HDG_VALID, bf_icao24 = 0xABCDEF,
     bf_pad0 = [0, 0, 0, 0], bf_lat = fp_lit (- 274975) 10000, bf_lon = fp_lit 1530137 10000, bf_alt_ft = 3500,
     bf_vel_kt = 250, bf_hdg_deg = 90, bf_reserved = 0, bf_pad1 = 0, bf_ts_ms = word_of_int now\<rparr>"

definition injected_line :: "aircraft_t \<Rightarrow> errno + int \<Rightarrow> string" where
  "injected_line out db_rc =
     ''icao='' @ ac_icao out @ '' src='' @ aircraft_source_str (ac_source out)
     @ '' lat='' @ show_fixed 6 (ac_lat out) @ '' lon='' @ show_fixed 6 (ac_lon out)
     @ '' alt='' @ show_dec (sint (ac_alt_ft out)) @ '' vel='' @ show_fixed 1 (ac_vel_kt out)
     @ '' hdg='' @ show_fixed 1 (ac_hdg_deg out) @ '' valid='' @ show_mask (ac_valid_mask out)
     @ '' db='' @ (if db_rc = Inr 1 then ''INS'' else if db_rc = Inr 0 then ''UPD'' else ''ERR'')"

definition cmd_ble_inject :: "('q, 'r) environment \<Rightarrow> shell_io \<Rightarrow> ('q, 'r) command" where
  "cmd_ble_inject en io argv s =
     (let (rc, st) = bridge_convert (sample_frame (io_now io)) (br_stats (ct_bridge s));
          s1 = s\<lparr>ct_bridge := (ct_bridge s)\<lparr>br_stats := st\<rparr>\<rparr>
      in case rc of
           Inl e \<Rightarrow> (Inl e, s1, [OutError (''bridge_convert failed: '' @ show_rc en e)])
         | Inr a \<Rightarrow>
             (let (db_rc, db) = aircraft_db_upsert (en_libm en) (ct_kal s) (io_now io) a (ct_db s1)
              in (Inr (), s1\<lparr>ct_db := db\<rparr>, [OutPrint (injected_line a db_rc)])))"

section \<open>Database\<close>

text \<open>The optional fields go through buffers of 12 bytes.\<close>

definition dump_line :: "ms \<Rightarrow> aircraft_db_entry \<Rightarrow> string" where
  "dump_line now e =
     (let ac = de_ac e;
          alt = (if ac_has ac AIRCRAFT_VALID_ALT then fst (snprintf 12 (show_dec (sint (ac_alt_ft ac)))) else ''-'');
          vel = (if ac_has ac AIRCRAFT_VALID_VEL then fst (snprintf 12 (show_fixed 0 (ac_vel_kt ac))) else ''-'');
          hdg = (if ac_has ac AIRCRAFT_VALID_HDG then fst (snprintf 12 (show_fixed 0 (ac_hdg_deg ac))) else ''-'')
      in ''  '' @ padr 7 (ac_icao ac) @ '' '' @ padr 7 (aircraft_source_str (ac_source ac))
         @ '' '' @ padl 10 (show_fixed 5 (ac_lat ac)) @ '' '' @ padl 11 (show_fixed 5 (ac_lon ac))
         @ ''  alt='' @ padr 6 alt @ '' vel='' @ padr 5 vel @ '' hdg='' @ padr 4 hdg
         @ ''  age='' @ show_dec (now - de_last_seen_ms e) @ ''ms'')"

text \<open>The callback of the traversal, with the number of entries and the lines so far.\<close>

definition dump_cb :: "ms \<Rightarrow> aircraft_db_entry \<Rightarrow> int \<times> string list \<Rightarrow> bool \<times> int \<times> string list" where
  "dump_cb now e c = (case c of (n, lines) \<Rightarrow> (True, n + 1, lines @ [dump_line now e]))"

definition cmd_db_dump :: "shell_io \<Rightarrow> ('q, 'r) command" where
  "cmd_db_dump io argv s =
     (let (n, lines) = aircraft_db_for_each (dump_cb (io_now io)) (ct_db s) (0, [])
      in (Inr (), s, map OutPrint (''  icao    src                lat         lon  fields'' # lines
            @ [show_dec n @ '' entries''])))"

definition entry_lines :: "aircraft_t \<Rightarrow> string list" where
  "entry_lines out =
     [''  icao='' @ ac_icao out @ '' src='' @ aircraft_source_str (ac_source out) @ '' lat='' @ show_fixed 6 (ac_lat out)
        @ '' lon='' @ show_fixed 6 (ac_lon out) @ '' valid='' @ show_mask (ac_valid_mask out)]
     @ (if ac_has out AIRCRAFT_VALID_ALT then [''  alt_ft='' @ show_dec (sint (ac_alt_ft out))] else [])
     @ (if ac_has out AIRCRAFT_VALID_VEL then [''  vel_kt='' @ show_fixed 1 (ac_vel_kt out)] else [])
     @ (if ac_has out AIRCRAFT_VALID_HDG then [''  hdg_deg='' @ show_fixed 1 (ac_hdg_deg out)] else [])
     @ (if ac_has out AIRCRAFT_VALID_PRED
        then [''  pred_lat='' @ show_fixed 6 (ac_pred_lat out), ''  pred_lon='' @ show_fixed 6 (ac_pred_lon out)] else [])"

definition cmd_db_get :: "('q, 'r) command" where
  "cmd_db_get argv s =
     (if length argv \<noteq> 2 then (Inl EINVAL, s, [OutError ''usage: skywatch db get <icao>''])
      else case aircraft_db_lookup (argv ! 1) (ct_db s) of
             Inl e \<Rightarrow> (Inl e, s, [OutError (''not found: '' @ argv ! 1)])
           | Inr out \<Rightarrow> (Inr (), s, map OutPrint (entry_lines out)))"

definition cmd_db_clear :: "('q, 'r) command" where
  "cmd_db_clear argv s = (Inr (), s\<lparr>ct_db := aircraft_db_clear (ct_db s)\<rparr>, [OutPrint ''db cleared''])"

definition cmd_db_stats :: "('q, 'r) command" where
  "cmd_db_stats argv s =
     (let d = aircraft_db_get_stats (ct_db s); p = db_publisher_get_stats (ct_pub s)
      in (Inr (), s,
          [OutPrint (''entries='' @ show_dec (aircraft_db_count (ct_db s)) @ '' inserts='' @ show_u32 (ds_inserts d)
             @ '' updates='' @ show_u32 (ds_updates d) @ '' stale_evicts='' @ show_u32 (ds_stale_evicts d)
             @ '' pool_full='' @ show_u32 (ds_pool_full d)),
           OutPrint (''publisher: ticks='' @ show_u32 (ps_ticks p) @ '' frames='' @ show_u32 (ps_frames_emitted p)
             @ '' fmt_err='' @ show_u32 (ps_format_errors p))]))"

section \<open>Filter\<close>

definition cmd_kalman_show :: "('q, 'r) command" where
  "cmd_kalman_show argv s =
     (Inr (), s, [OutPrint (''q_accel='' @ show_fixed 4 (q_accel_mps2 (ct_kal s)) @ '' m/s^2   r_meas=''
        @ show_fixed 2 (r_meas_m (ct_kal s)) @ '' m'')])"

definition cmd_kalman_q :: "('q, 'r) environment \<Rightarrow> ('q, 'r) command" where
  "cmd_kalman_q en argv s =
     (if length argv \<noteq> 2 then (Inl EINVAL, s, [OutError ''usage: skywatch kalman q <value>''])
      else let v = en_strtod en (argv ! 1)
           in if v \<le> fp_lit 0 1 then (Inl EINVAL, s, [OutError ''q must be > 0''])
              else (Inr (), s\<lparr>ct_kal := (ct_kal s)\<lparr>q_accel_mps2 := v\<rparr>\<rparr>,
                    [OutPrint (''q_accel set to '' @ show_fixed 4 v @ '' m/s^2'')]))"

definition cmd_kalman_r :: "('q, 'r) environment \<Rightarrow> ('q, 'r) command" where
  "cmd_kalman_r en argv s =
     (if length argv \<noteq> 2 then (Inl EINVAL, s, [OutError ''usage: skywatch kalman r <value>''])
      else let v = en_strtod en (argv ! 1)
           in if v \<le> fp_lit 0 1 then (Inl EINVAL, s, [OutError ''r must be > 0''])
              else (Inr (), s\<lparr>ct_kal := (ct_kal s)\<lparr>r_meas_m := v\<rparr>\<rparr>,
                    [OutPrint (''r_meas set to '' @ show_fixed 2 v @ '' m'')]))"

text \<open>One round of the benchmark: half a second, then a position a little further north and east.\<close>

definition bench_round ::
  "('a::{zero,plus,minus,uminus,times,inverse,ord}) num \<Rightarrow> 'a kalman_tuning \<Rightarrow> 'a kalman_state \<times> 'a \<times> 'a
     \<Rightarrow> 'a kalman_state \<times> 'a \<times> 'a" where
  "bench_round nm g b = (case b of (k, lat, lon) \<Rightarrow>
     let k1 = kalman_predict nm g (n_lit nm 5 10) k; lat1 = lat + n_lit nm 1 100000; lon1 = lon + n_lit nm 1 100000
     in (kalman_update nm g lat1 lon1 k1, lat1, lon1))"

definition bench_run ::
  "('a::{zero,plus,minus,uminus,times,inverse,ord}) num \<Rightarrow> 'a kalman_tuning \<Rightarrow> 'a kalman_state \<times> 'a \<times> 'a" where
  "bench_run nm g = (let lat = n_lit nm (- 274975) 10000; lon = n_lit nm 1530137 10000
     in (bench_round nm g ^^ 1000) (kalman_init nm lat lon, lat, lon))"

text \<open>Its filter is local and thrown away; only the time it took is printed.\<close>

definition cmd_kalman_bench :: "('q, 'r) environment \<Rightarrow> shell_io \<Rightarrow> ('q, 'r) command" where
  "cmd_kalman_bench en io argv s =
     (let (t_start, t_end) = io_ticks io;
          _ = bench_run (f64_num (en_libm en)) (ct_kal s);
          us = en_ticks_to_us en (t_end - t_start)
      in (Inr (), s, [OutPrint (''1000 iterations: total='' @ show_dec us @ '' us, avg='' @ show_dec (us div 1000)
            @ '' us/call (limit 5000)'')]))"

section \<open>Collision scenarios\<close>

definition cmd_collision_stats :: "('q, 'r) command" where
  "cmd_collision_stats argv s =
     (let c = collision_get_stats (ct_col s)
      in (Inr (), s, [OutPrint (''ticks='' @ show_u32 (cs_ticks c) @ '' pairs_checked='' @ show_u32 (cs_pairs_checked c)
           @ '' adv='' @ show_u32 (cs_advisory_count c) @ '' warn='' @ show_u32 (cs_warning_count c)
           @ '' frames_emitted='' @ show_u32 (cs_frames_emitted c))]))"

text \<open>\<open>collision_inject_scenario\<close> always returns 0, so the branch that prints \<open>inject failed\<close> is never taken.\<close>

definition cmd_collision_inject :: "('q, 'r) environment \<Rightarrow> shell_io \<Rightarrow> ('q, 'r) command" where
  "cmd_collision_inject en io argv s =
     (let (c, db) = collision_inject_scenario (en_libm en) (ct_kal s) (io_now io) (ct_col s, ct_db s)
      in (Inr (), s\<lparr>ct_col := c, ct_db := db\<rparr>,
          [OutPrint (''injected c011a1 + c011b2 (FICT) '' @ EM_DASH @ '' keep-alive ON until ''
             @ in_backquotes ''skywatch collision stop'')]))"

definition cmd_collision_stop :: "('q, 'r) command" where
  "cmd_collision_stop argv s = (Inr (), s\<lparr>ct_col := collision_inject_stop (ct_col s)\<rparr>,
     [OutPrint ''keep-alive stopped; c011a1/c011b2 will stale-evict in ~10 s''])"

text \<open>Optional positional numbers; an absent one is -1.\<close>

definition num_arg :: "('q, 'r) environment \<Rightarrow> string list \<Rightarrow> nat \<Rightarrow> f64" where
  "num_arg en argv i = (if i < length argv then en_strtod en (argv ! i) else fp_lit (- 1) 1)"

definition int_arg :: "string list \<Rightarrow> nat \<Rightarrow> s32" where
  "int_arg argv i = (if i < length argv then word_of_int (atoi (argv ! i)) else word_of_int (- 1))"

text \<open>What the two ghost commands print: the answer to a missing target, and of a start.\<close>

definition ghost_started :: "string list \<Rightarrow> nat \<Rightarrow> string" where
  "ghost_started argv i = '': tca='' @ arg_or argv i ''23s (default)'' @ '' miss='' @ arg_or argv (i + 1) ''0m (default)''
     @ '' alt='' @ arg_or argv (i + 2) ''match-target (default)''"

definition keepalive_line :: string where
  "keepalive_line = ''keep-alive ON until '' @ in_backquotes ''skywatch collision ghost_stop''"

definition cmd_collision_ghost :: "('q, 'r) environment \<Rightarrow> shell_io \<Rightarrow> ('q, 'r) command" where
  "cmd_collision_ghost en io argv s =
     (let (rc, c, db) = collision_ghost_start (en_libm en) (ct_kal s) (io_now io) (num_arg en argv 1) (num_arg en argv 2)
            (int_arg argv 3) (ct_col s, ct_db s)
      in (rc, s\<lparr>ct_col := c, ct_db := db\<rparr>,
          case rc of
            Inl ENOENT \<Rightarrow> [OutError (''ghost: no BLE_SIM aircraft in DB yet '' @ EM_DASH @ '' connect Will'' @ [CHR 0x27]
              @ ''s mobile first'')]
          | Inl e \<Rightarrow> [OutError (''ghost: failed: '' @ show_rc en e)]
          | Inr _ \<Rightarrow> map OutPrint [''ghost gh05t1 spawned'' @ ghost_started argv 1, keepalive_line,
              ''vertical-sep gate: '' @ show_dec (sint COLLISION_VERTICAL_SEP_FT) @ '' ft (use ''
                @ in_backquotes ''aircraft wasd q'' @ '' x10 on Will to climb 500m and clear)'']))"

definition cmd_collision_ghost_at :: "('q, 'r) environment \<Rightarrow> shell_io \<Rightarrow> ('q, 'r) command" where
  "cmd_collision_ghost_at en io argv s =
     (if length argv < 2
      then (Inl EINVAL, s, [OutError ''usage: skywatch collision ghost_at <icao> [tca_s] [miss_m] [alt_ft]''])
      else let (rc, c, db) = collision_ghost_start_at (en_libm en) (ct_kal s) (io_now io) (argv ! 1) (num_arg en argv 2)
                 (num_arg en argv 3) (int_arg argv 4) (ct_col s, ct_db s)
           in (rc, s\<lparr>ct_col := c, ct_db := db\<rparr>,
               case rc of
                 Inl ENOENT \<Rightarrow> [OutError (''ghost_at: '' @ in_quotes (argv ! 1) @ '' not in DB. ''
                   @ in_backquotes ''skywatch db dump'' @ '' to list ICAOs.'')]
               | Inl e \<Rightarrow> [OutError (''ghost_at: failed: '' @ show_rc en e)]
               | Inr _ \<Rightarrow> map OutPrint [''ghost gh05t1 spawned on '' @ argv ! 1 @ ghost_started argv 2, keepalive_line]))"

definition cmd_collision_ghost_stop :: "('q, 'r) command" where
  "cmd_collision_ghost_stop argv s = (Inr (), s\<lparr>ct_col := collision_ghost_stop (ct_col s)\<rparr>,
     [OutPrint ''ghost stop requested; gh05t1 will stale-evict in ~10 s''])"

definition deliver_all :: "shell_io \<Rightarrow> ble_central \<Rightarrow> col_event list \<Rightarrow> ct_out list" where
  "deliver_all io ble out = concat (map (deliver (io_rc io) (io_ready io) (io_dtr io) ble) out)"

definition cmd_collision_crash :: "('q, 'r) environment \<Rightarrow> shell_io \<Rightarrow> ('q, 'r) command" where
  "cmd_collision_crash en io argv s =
     (if length argv \<noteq> 3 then (Inl EINVAL, s, [OutError ''usage: skywatch collision crash <icao_a> <icao_b>''])
      else let (rc, c, out) = collision_crash_trigger (ble_central_is_connected (ct_ble s)) (io_now io) (ct_db s)
                 (argv ! 1) (argv ! 2) (ct_col s, ct_missile s)
           in (rc, s\<lparr>ct_col := c\<rparr>, deliver_all io (ct_ble s) out
               @ (case rc of
                    Inl ENOENT \<Rightarrow> [OutError ''one of the ICAOs is not in the DB'']
                  | Inl e \<Rightarrow> [OutError (''crash trigger failed: '' @ show_rc en e)]
                  | Inr _ \<Rightarrow> [OutPrint (''CRASH '' @ argv ! 1 @ '' '' @ LEFT_RIGHT_ARROW @ '' '' @ argv ! 2
                      @ '' emitted (GUI hides icons; sim freezes 10 s)'')])))"

section \<open>Missile and diversion\<close>

definition cmd_missile_launch :: "('q, 'r) environment \<Rightarrow> shell_io \<Rightarrow> ('q, 'r) command" where
  "cmd_missile_launch en io argv s =
     (let (rc, m, db) = missile_launch (en_libm en) (ct_kal s) (io_now io) (num_arg en argv 1) (num_arg en argv 2)
            (num_arg en argv 3) (ct_missile s, ct_db s)
      in (rc, s\<lparr>ct_missile := m, ct_db := db\<rparr>,
          case rc of
            Inl ENOENT \<Rightarrow> [OutError (''missile: no BLE_SIM target in DB '' @ EM_DASH @ '' connect Will'' @ [CHR 0x27]
              @ ''s mobile first'')]
          | Inl e \<Rightarrow> [OutError (''missile: launch failed: '' @ show_rc en e)]
          | Inr _ \<Rightarrow> map OutPrint
              [''missile m1s51l launched from UQ St Lucia: ttl='' @ arg_or argv 1 ''60s (default)''
                 @ '' turn='' @ arg_or argv 2 (''15'' @ DEGREE_SIGN @ ''/s (default)'')
                 @ '' speed='' @ arg_or argv 3 ''500kt (default)'',
               ''auto-cancels on impact (~300m horiz) or TTL expiry'']))"

text \<open>Cancelling without a missile in flight is not an error.\<close>

definition cmd_missile_cancel :: "('q, 'r) command" where
  "cmd_missile_cancel argv s =
     (let (rc, m) = missile_cancel (ct_missile s)
      in (Inr (), s\<lparr>ct_missile := m\<rparr>,
          [OutPrint (if rc = Inl EALREADY then ''no missile in flight''
             else ''missile cancelled; m1s51l will stale-evict in ~10 s'')]))"

definition cmd_diversion :: "('q, 'r) environment \<Rightarrow> shell_io \<Rightarrow> collision_diversion \<Rightarrow> ('q, 'r) command" where
  "cmd_diversion en io d argv s =
     (let (rc, out) = collision_diversion_send (ble_central_is_connected (ct_ble s)) (io_now io) (ct_db s) d
      in (rc, s, deliver_all io (ct_ble s) out
          @ (case rc of
               Inl ENOENT \<Rightarrow> [OutError ''no BLE_SIM aircraft in DB to address'']
             | Inl e \<Rightarrow> [OutError (''BLE send failed: '' @ show_rc en e)]
             | Inr _ \<Rightarrow> [OutPrint (''diversion '' @ collision_diversion_str d @ '' sent to sim'')])))"

section \<open>The command table\<close>

definition sub_ble_scan :: "('q, 'r) environment \<Rightarrow> shell_io \<Rightarrow> ('q, 'r) command shell_entry list" where
  "sub_ble_scan en io = [SHELL_CMD ''start'' (cmd_ble_scan_start io), SHELL_CMD ''stop'' cmd_ble_scan_stop,
     SHELL_CMD ''list'' (cmd_ble_scan_list en)]"

definition sub_ble :: "('q, 'r) environment \<Rightarrow> shell_io \<Rightarrow> ('q, 'r) command shell_entry list" where
  "sub_ble en io = [SHELL_SUB ''scan'' (sub_ble_scan en io), SHELL_CMD ''disconnect'' cmd_ble_disconnect,
     SHELL_CMD ''stats'' cmd_ble_stats, SHELL_CMD ''inject'' (cmd_ble_inject en io)]"

definition sub_db :: "('q, 'r) environment \<Rightarrow> shell_io \<Rightarrow> ('q, 'r) command shell_entry list" where
  "sub_db en io = [SHELL_CMD ''dump'' (cmd_db_dump io), SHELL_CMD ''get'' cmd_db_get, SHELL_CMD ''clear'' cmd_db_clear,
     SHELL_CMD ''stats'' cmd_db_stats]"

definition sub_usb :: "('q, 'r) command shell_entry list" where
  "sub_usb = [SHELL_CMD ''stats'' cmd_skywatch_usb_stats]"

definition sub_kalman :: "('q, 'r) environment \<Rightarrow> shell_io \<Rightarrow> ('q, 'r) command shell_entry list" where
  "sub_kalman en io = [SHELL_CMD ''show'' cmd_kalman_show, SHELL_CMD ''q'' (cmd_kalman_q en), SHELL_CMD ''r'' (cmd_kalman_r en),
     SHELL_CMD ''bench'' (cmd_kalman_bench en io)]"

definition sub_missile :: "('q, 'r) environment \<Rightarrow> shell_io \<Rightarrow> ('q, 'r) command shell_entry list" where
  "sub_missile en io = [SHELL_CMD ''launch'' (cmd_missile_launch en io), SHELL_CMD ''cancel'' cmd_missile_cancel]"

definition sub_collision :: "('q, 'r) environment \<Rightarrow> shell_io \<Rightarrow> ('q, 'r) command shell_entry list" where
  "sub_collision en io = [SHELL_CMD ''stats'' cmd_collision_stats, SHELL_CMD ''inject'' (cmd_collision_inject en io),
     SHELL_CMD ''stop'' cmd_collision_stop, SHELL_CMD ''ghost'' (cmd_collision_ghost en io),
     SHELL_CMD ''ghost_at'' (cmd_collision_ghost_at en io), SHELL_CMD ''ghost_stop'' cmd_collision_ghost_stop,
     SHELL_CMD ''crash'' (cmd_collision_crash en io)]"

definition sub_diversion :: "('q, 'r) environment \<Rightarrow> shell_io \<Rightarrow> ('q, 'r) command shell_entry list" where
  "sub_diversion en io = [SHELL_CMD ''left'' (cmd_diversion en io DIVERSION_LEFT),
     SHELL_CMD ''right'' (cmd_diversion en io DIVERSION_RIGHT), SHELL_CMD ''climb'' (cmd_diversion en io DIVERSION_CLIMB),
     SHELL_CMD ''descend'' (cmd_diversion en io DIVERSION_DESCEND), SHELL_CMD ''rtb'' (cmd_diversion en io DIVERSION_RTB),
     SHELL_CMD ''hold'' (cmd_diversion en io DIVERSION_HOLD)]"

definition sub_skywatch :: "('q, 'r) environment \<Rightarrow> shell_io \<Rightarrow> ('q, 'r) command shell_entry list" where
  "sub_skywatch en io = [SHELL_CMD ''ping'' cmd_skywatch_ping, SHELL_SUB ''usb'' sub_usb, SHELL_SUB ''ble'' (sub_ble en io),
     SHELL_SUB ''db'' (sub_db en io), SHELL_SUB ''kalman'' (sub_kalman en io), SHELL_SUB ''collision'' (sub_collision en io),
     SHELL_SUB ''diversion'' (sub_diversion en io), SHELL_SUB ''missile'' (sub_missile en io),
     SHELL_CMD ''test_json'' (cmd_skywatch_test_json en)]"

definition shell_root :: "('q, 'r) environment \<Rightarrow> shell_io \<Rightarrow> ('q, 'r) command shell_entry list" where
  "shell_root en io = [SHELL_SUB ''skywatch'' (sub_skywatch en io)]"

text \<open>One command line, in words.  A line that names no command runs no code of the program.\<close>

definition shell_line :: "('q, 'r) environment \<Rightarrow> shell_io \<Rightarrow> string list \<Rightarrow> ('q, 'r) controller
     \<Rightarrow> ('q, 'r) cmd_result option" where
  "shell_line en io ws s = (case resolve (shell_root en io) ws of None \<Rightarrow> None | Some (h, argv) \<Rightarrow> Some (h argv s))"

lemmas shell_tables = shell_root_def sub_skywatch_def sub_usb_def sub_ble_def sub_ble_scan_def sub_db_def sub_kalman_def
  sub_collision_def sub_diversion_def sub_missile_def

section \<open>What a command line can run\<close>

text \<open>The commands that only look: they leave the state alone and send nothing.\<close>

definition read_only :: "('q, 'r) command \<Rightarrow> bool" where
  "read_only h \<longleftrightarrow> (\<forall>argv s. fst (snd (h argv s)) = s
     \<and> list_all (\<lambda>e. case e of OutPrint l \<Rightarrow> True | OutError l \<Rightarrow> True | _ \<Rightarrow> False) (snd (snd (h argv s))))"

lemma read_only_cmds:
  "read_only cmd_skywatch_ping" "read_only cmd_skywatch_usb_stats" "read_only (cmd_skywatch_test_json en)"
  "read_only (cmd_ble_scan_list en)" "read_only cmd_ble_stats" "read_only (cmd_db_dump io)" "read_only cmd_db_get"
  "read_only cmd_db_stats" "read_only cmd_kalman_show" "read_only (cmd_kalman_bench en io)"
  "read_only cmd_collision_stats"
  by (auto simp: read_only_def cmd_skywatch_ping_def cmd_skywatch_usb_stats_def cmd_skywatch_test_json_def
      parse_and_print_def print_parsed_def cmd_ble_scan_list_def cmd_ble_stats_def cmd_db_dump_def cmd_db_get_def
      cmd_db_stats_def cmd_kalman_show_def cmd_kalman_bench_def cmd_collision_stats_def list_all_iff case_prod_unfold
      Let_def split: sum.splits)

end
