(* ===== verification/Encounter.thy ===== *)
theory Encounter
  imports Collision_Scenarios
begin

text \<open>
  Two concrete aircraft in a database, on which the detector is evaluated: a simulator at the
  origin and a faster aircraft south of it on the same course.  The filter's arithmetic is not
  evaluated: a row with reported speed and heading does not depend on it.
\<close>

section \<open>Rows that do not depend on the filter\<close>

definition reported_row :: "libm \<Rightarrow> aircraft_t \<Rightarrow> f64 snap_row" where
  "reported_row lm a =
     (let speed = ac_vel_kt a * KT_TO_MPS (f64_num lm); hdg = ac_hdg_deg a * deg2rad (f64_num lm)
      in \<lparr>sr_icao = ac_icao a, sr_lat = ac_lat a, sr_lon = ac_lon a,
          sr_v_north_mps = speed * m_cos lm hdg, sr_v_east_mps = speed * m_sin lm hdg,
          sr_alt_ft = (if ac_has a AIRCRAFT_VALID_ALT then ac_alt_ft a else 0),
          sr_v_valid = True, sr_alt_valid = ac_has a AIRCRAFT_VALID_ALT\<rparr>)"

lemma row_of_reported:
  assumes o: "same_observation (de_ac e) a" and v: "ac_has a AIRCRAFT_VALID_VEL" "ac_has a AIRCRAFT_VALID_HDG"
  shows "row_of lm e = reported_row lm a"
proof -
  have "ac_has (de_ac e) b = ac_has a b" if "b \<in> {AIRCRAFT_VALID_ALT, AIRCRAFT_VALID_VEL, AIRCRAFT_VALID_HDG}" for b
    using same_observation_has [OF o that] .
  then show ?thesis using o v
    by (simp add: row_of_def derive_velocity_mps_def reported_row_def same_observation_def Let_def)
qed

text \<open>The database after two new aircraft.\<close>

definition two_db :: "libm \<Rightarrow> f64 kalman_tuning \<Rightarrow> aircraft_t \<Rightarrow> aircraft_t \<Rightarrow> aircraft_db" where
  "two_db lm g a b = run (db_step lm g) aircraft_db_init [DbUpsert 0 a, DbUpsert 0 b]"

lemma two_db_rows:
  assumes "ac_icao a \<noteq> []" "ac_icao b \<noteq> []" "ac_key a \<noteq> ac_key b"
  shows "db_inv (two_db lm g a b)" "db_rows (two_db lm g a b) = [fresh_entry lm g 0 a, fresh_entry lm g 0 b]"
proof -
  show "db_inv (two_db lm g a b)" unfolding two_db_def by (rule db_sys.inv_run) simp
  let ?d = "snd (aircraft_db_upsert lm g 0 a aircraft_db_init)"
  have d: "db_inv ?d" "spec_upsert lm g 0 a [] = (fst (aircraft_db_upsert lm g 0 a aircraft_db_init), db_rows ?d)"
    using upsert_refines [OF db_inv_init, of lm g 0 a] by (simp_all add: prod_eq_iff)
  then have r: "db_rows ?d = [fresh_entry lm g 0 a]"
    using assms(1) by (simp add: spec_upsert_def AIRCRAFT_DB_MAX_ENTRIES_def)
  have "ac_key a \<noteq> take AIRCRAFT_ICAO_BUF_LEN (ac_icao b)" using assms(3) by (simp add: ac_key_def)
  then have "spec_upsert lm g 0 b (db_rows ?d) = (Inr 1, [fresh_entry lm g 0 a, fresh_entry lm g 0 b])"
    using assms(2) by (simp add: r spec_upsert_def AIRCRAFT_DB_MAX_ENTRIES_def)
  then show "db_rows (two_db lm g a b) = [fresh_entry lm g 0 a, fresh_entry lm g 0 b]"
    using upsert_refines [OF d(1), of lm g 0 b] by (simp add: two_db_def prod_eq_iff)
qed

lemma two_db_snapshot:
  assumes k: "ac_icao a \<noteq> []" "ac_icao b \<noteq> []" "ac_key a \<noteq> ac_key b"
    and v: "ac_has a AIRCRAFT_VALID_VEL" "ac_has a AIRCRAFT_VALID_HDG" "ac_has b AIRCRAFT_VALID_VEL" "ac_has b AIRCRAFT_VALID_HDG"
  shows "snapshot lm (two_db lm g a b) = [reported_row lm a, reported_row lm b]"
    and "row_pairs (snapshot lm (two_db lm g a b)) = [(reported_row lm a, reported_row lm b)]"
proof -
  note r = two_db_rows [OF k, of lm g]
  have "length (db_rows (two_db lm g a b)) \<le> AIRCRAFT_DB_MAX_ENTRIES" by (simp only: r(2)) (simp add: AIRCRAFT_DB_MAX_ENTRIES_def)
  from snapshot_rows [OF this, of lm] show s: "snapshot lm (two_db lm g a b) = [reported_row lm a, reported_row lm b]"
    using v by (simp add: r(2) row_of_reported)
  show "row_pairs (snapshot lm (two_db lm g a b)) = [(reported_row lm a, reported_row lm b)]"
    unfolding s by (simp add: reported_row_def Let_def)
qed

section \<open>The encounter\<close>

abbreviation tuning0 :: "f64 kalman_tuning" where
  "tuning0 \<equiv> kalman_tuning_init (f64_num libm_flat)"


definition sim_ac :: aircraft_t where
  [sky_eval]: "sim_ac = aircraft_zero\<lparr>ac_icao := ''aaaaaa'', ac_source := SRC_BLE_SIM, ac_lat := fp_lit 1 1,
     ac_lon := fp_lit 1 1, ac_vel_kt := fp_lit 10 1, ac_valid_mask := AIRCRAFT_VALID_VEL OR AIRCRAFT_VALID_HDG\<rparr>"

text \<open>
  \<open>threat_ac n\<close> is at \<open>n\<close> ten-thousandths of a degree (about 11 m each) of latitude and longitude,
  on the same course at 110 knots.  With \<open>libm_flat\<close> that course is the diagonal.
\<close>

definition threat_ac :: "int \<Rightarrow> aircraft_t" where
  [sky_eval]: "threat_ac n = aircraft_zero\<lparr>ac_icao := ''bbbbbb'', ac_source := SRC_ADS_B, ac_lat := fp_lit n 10000,
     ac_lon := fp_lit n 10000, ac_vel_kt := fp_lit 110 1, ac_valid_mask := AIRCRAFT_VALID_VEL OR AIRCRAFT_VALID_HDG\<rparr>"

definition meet_db :: "int \<Rightarrow> aircraft_db" where
  "meet_db n = two_db libm_flat tuning0 sim_ac (threat_ac n)"

lemma meet_basic:
  "ac_icao sim_ac \<noteq> []" "ac_icao (threat_ac n) \<noteq> []" "ac_key sim_ac \<noteq> ac_key (threat_ac n)"
  "ac_has sim_ac AIRCRAFT_VALID_VEL" "ac_has sim_ac AIRCRAFT_VALID_HDG"
  "ac_has (threat_ac n) AIRCRAFT_VALID_VEL" "ac_has (threat_ac n) AIRCRAFT_VALID_HDG"
  "\<not> ac_has sim_ac AIRCRAFT_VALID_ALT" "\<not> ac_has (threat_ac n) AIRCRAFT_VALID_ALT"
  by (simp_all add: sim_ac_def threat_ac_def ac_key_def ac_has_def valid_bits AIRCRAFT_ICAO_BUF_LEN_def)

lemma meet_rows: "db_inv (meet_db n)"
    "db_rows (meet_db n) = [fresh_entry libm_flat tuning0 0 sim_ac, fresh_entry libm_flat tuning0 0 (threat_ac n)]"
    "icaos_short (meet_db n)"
proof -
  show r: "db_rows (meet_db n) = [fresh_entry libm_flat tuning0 0 sim_ac, fresh_entry libm_flat tuning0 0 (threat_ac n)]"
    and "db_inv (meet_db n)" unfolding meet_db_def using two_db_rows meet_basic by blast+
  have "length (ac_icao (de_ac (fresh_entry libm_flat tuning0 0 x))) = length (ac_icao x)" for x
    using entry_observation(2) [of libm_flat tuning0 0 x] by (simp add: same_observation_def)
  then show "icaos_short (meet_db n)" by (simp add: icaos_short_def r) (simp add: sim_ac_def threat_ac_def)
qed

lemma meet_lookup_sim: "\<exists>b. aircraft_db_lookup ''aaaaaa'' (meet_db n) = Inr b \<and> same_observation b sim_ac"
proof -
  have "ac_icao (de_ac (fresh_entry libm_flat tuning0 0 sim_ac)) = ''aaaaaa''"
    using entry_observation(2) [of libm_flat tuning0 0 sim_ac] by (simp add: same_observation_def sim_ac_def)
  then have "find_index (same_key ''aaaaaa'') (db_rows (meet_db n)) = Some 0" by (simp add: meet_rows(2) same_key_def)
  then show ?thesis by (simp add: lookup_rows [OF meet_rows(1)] spec_lookup_def meet_rows(2))
qed

definition sim_row :: "f64 snap_row" where "sim_row = reported_row libm_flat sim_ac"
definition threat_row :: "int \<Rightarrow> f64 snap_row" where "threat_row n = reported_row libm_flat (threat_ac n)"

lemma meet_pairs: "row_pairs (snapshot libm_flat (meet_db n)) = [(sim_row, threat_row n)]"
  unfolding meet_db_def sim_row_def threat_row_def by (rule two_db_snapshot(2)) (rule meet_basic)+

lemma meet_icaos [simp]: "sr_icao sim_row = ''aaaaaa''" "sr_icao (threat_row n) = ''bbbbbb''"
  by (simp_all add: sim_row_def threat_row_def reported_row_def Let_def sim_ac_def threat_ac_def)

lemma meet_key [simp]: "key_of (sim_row, threat_row n) = (''aaaaaa'', ''bbbbbb'')"
  "pair_key (sr_icao sim_row) (sr_icao (threat_row n)) = (''aaaaaa'', ''bbbbbb'')"
  by (simp_all add: key_of_def pair_key_def)

lemmas fp_eval = fp_class_defs fp_round_def fp_pack_def flog2_def scale2_def rne_def sgn_int_def fp_of_int_def
  c_eq_def isfinite_def fp_trunc_def fp_lit_def blen.simps isqrt.simps Let_def

lemmas fp_congs = if_weak_cong let_weak_cong prod.case_cong_weak

text \<open>The two rows, the position and velocity of one relative to the other, and the approach.\<close>

lemma sim_row_eq: "sim_row = \<lparr>sr_icao = ''aaaaaa'', sr_lat = fp_lit 1 1, sr_lon = fp_lit 1 1,
    sr_v_north_mps = Fin False 5792124516757469 (- 50), sr_v_east_mps = Fin False 5792124516757469 (- 50),
    sr_alt_ft = 0, sr_v_valid = True, sr_alt_valid = False\<rparr>"
proof -
  have "fp_lit 10 1 * KT_TO_MPS (f64_num libm_flat) * fp_lit 1 1 = Fin False 5792124516757469 (- 50)"
    by (simp cong: fp_congs add: fp_eval KT_TO_MPS_def)
  then show ?thesis
    by (simp add: sim_row_def reported_row_def sim_ac_def aircraft_zero_def libm_flat_def ac_has_def valid_bits Let_def)
qed

lemma threat_row_eq: "threat_row n = \<lparr>sr_icao = ''bbbbbb'', sr_lat = fp_lit n 10000, sr_lon = fp_lit n 10000,
    sr_v_north_mps = Fin False 7964171210541520 (- 47), sr_v_east_mps = Fin False 7964171210541520 (- 47),
    sr_alt_ft = 0, sr_v_valid = True, sr_alt_valid = False\<rparr>"
proof -
  have "fp_lit 110 1 * KT_TO_MPS (f64_num libm_flat) * fp_lit 1 1 = Fin False 7964171210541520 (- 47)"
    by (simp cong: fp_congs add: fp_eval KT_TO_MPS_def)
  then show ?thesis
    by (simp add: threat_row_def reported_row_def threat_ac_def aircraft_zero_def libm_flat_def ac_has_def valid_bits Let_def)
qed

lemma degrees_flat: "deg_per_m_lon_at (f64_num libm_flat) x = Fin False 5317980273501853 (- 69)"
  "DEG_PER_M_LAT (f64_num libm_flat) = Fin False 5317980273501853 (- 69)"
proof -
  have "fp_lit 1 1 / (fp_lit 111000 1 * fp_lit 1 1) = (Fin False 5317980273501853 (- 69) :: f64)"
    "fp_lit 1 1 / fp_lit 111000 1 = (Fin False 5317980273501853 (- 69) :: f64)"
    by (simp_all cong: fp_congs add: fp_eval)
  then show "deg_per_m_lon_at (f64_num libm_flat) x = Fin False 5317980273501853 (- 69)"
    "DEG_PER_M_LAT (f64_num libm_flat) = Fin False 5317980273501853 (- 69)"
    by (simp_all add: deg_per_m_lon_at_def DEG_PER_M_LAT_def libm_flat_def)
qed

lemma rel_vel_meet: "rel_vel sim_row (threat_row n) = (Fin False 7240155645946836 (- 47), Fin False 7240155645946836 (- 47))"
proof -
  have "Fin False 7964171210541520 (- 47) - Fin False 5792124516757469 (- 50) = ((Fin False 7240155645946836 (- 47)) :: f64)" by (simp cong: fp_congs add: fp_eval)
  then show ?thesis by (simp add: rel_vel_def sim_row_eq threat_row_eq)
qed

lemma rel_pos_9910: "rel_pos (f64_num libm_flat) sim_row (threat_row 9910) = ((Fin True 8787296929185799 (- 43)), (Fin True 8787296929185799 (- 43)))"
proof -
  have "(fp_lit 9910 10000 - fp_lit 1 1) / Fin False 5317980273501853 (- 69) = ((Fin True 8787296929185799 (- 43)) :: f64)"
    by (simp cong: fp_congs add: fp_eval)
  then show ?thesis by (simp add: rel_pos_def sim_row_eq threat_row_eq degrees_flat Let_def)
qed

lemma approach_9910: "closest_approach (f64_num libm_flat) sim_row (threat_row 9910) =
    \<lparr>ap_tca_s = (Fin False 5465969118775719 (- 48)), ap_min_sep_m = (Fin False 6369051672525773 (- 95)), ap_cur_sep_m = (Fin False 6213557246927004 (- 42)), ap_diverging = False, ap_alt_diff_ft = 0, ap_alt_valid = False\<rparr>"
proof -
  have "fp_sqrt ((Fin True 8787296929185799 (- 43)) * (Fin True 8787296929185799 (- 43)) + (Fin True 8787296929185799 (- 43)) * (Fin True 8787296929185799 (- 43))) = ((Fin False 6213557246927004 (- 42)) :: f64)"
    by (simp cong: fp_congs add: fp_eval)
  moreover have "(Fin False 7240155645946836 (- 47)) * (Fin False 7240155645946836 (- 47)) + (Fin False 7240155645946836 (- 47)) * (Fin False 7240155645946836 (- 47)) = ((Fin False 5819772861130428 (- 40)) :: f64)"
    "c_eq ((Fin False 5819772861130428 (- 40)) :: f64) 0 = False"
    by (simp_all cong: fp_congs add: fp_eval)
  moreover have "- ((Fin True 8787296929185799 (- 43)) * (Fin False 7240155645946836 (- 47)) + (Fin True 8787296929185799 (- 43)) * (Fin False 7240155645946836 (- 47))) / (Fin False 5819772861130428 (- 40)) = ((Fin False 5465969118775719 (- 48)) :: f64)"
    "((Fin False 5465969118775719 (- 48)) :: f64) \<le> 0 \<longleftrightarrow> False"
    by (simp_all cong: fp_congs add: fp_eval)
  moreover have "(Fin True 8787296929185799 (- 43)) + (Fin False 7240155645946836 (- 47)) * (Fin False 5465969118775719 (- 48)) = ((Fin False 4503599627370496 (- 95)) :: f64)"
    "fp_sqrt ((Fin False 4503599627370496 (- 95)) * (Fin False 4503599627370496 (- 95)) + (Fin False 4503599627370496 (- 95)) * (Fin False 4503599627370496 (- 95))) = ((Fin False 6369051672525773 (- 95)) :: f64)"
    by (simp_all cong: fp_congs add: fp_eval)
  ultimately show ?thesis
    unfolding closest_approach_def rel_pos_9910 rel_vel_meet Let_def prod.case
    by (simp add: sim_row_eq threat_row_eq)
qed

lemma rel_pos_9995: "rel_pos (f64_num libm_flat) sim_row (threat_row 9995) = ((Fin True 7810930603719843 (- 47)), (Fin True 7810930603719843 (- 47)))"
proof -
  have "(fp_lit 9995 10000 - fp_lit 1 1) / Fin False 5317980273501853 (- 69) = ((Fin True 7810930603719843 (- 47)) :: f64)"
    by (simp cong: fp_congs add: fp_eval)
  then show ?thesis by (simp add: rel_pos_def sim_row_eq threat_row_eq degrees_flat Let_def)
qed

lemma approach_9995: "closest_approach (f64_num libm_flat) sim_row (threat_row 9995) =
    \<lparr>ap_tca_s = (Fin False 4858639216688988 (- 52)), ap_min_sep_m = (Fin False 0 (- 1074)), ap_cur_sep_m = (Fin False 5523161997267835 (- 46)), ap_diverging = False, ap_alt_diff_ft = 0, ap_alt_valid = False\<rparr>"
proof -
  have "fp_sqrt ((Fin True 7810930603719843 (- 47)) * (Fin True 7810930603719843 (- 47)) + (Fin True 7810930603719843 (- 47)) * (Fin True 7810930603719843 (- 47))) = ((Fin False 5523161997267835 (- 46)) :: f64)"
    by (simp cong: fp_congs add: fp_eval)
  moreover have "(Fin False 7240155645946836 (- 47)) * (Fin False 7240155645946836 (- 47)) + (Fin False 7240155645946836 (- 47)) * (Fin False 7240155645946836 (- 47)) = ((Fin False 5819772861130428 (- 40)) :: f64)"
    "c_eq ((Fin False 5819772861130428 (- 40)) :: f64) 0 = False"
    by (simp_all cong: fp_congs add: fp_eval)
  moreover have "- ((Fin True 7810930603719843 (- 47)) * (Fin False 7240155645946836 (- 47)) + (Fin True 7810930603719843 (- 47)) * (Fin False 7240155645946836 (- 47))) / (Fin False 5819772861130428 (- 40)) = ((Fin False 4858639216688988 (- 52)) :: f64)"
    "((Fin False 4858639216688988 (- 52)) :: f64) \<le> 0 \<longleftrightarrow> False"
    by (simp_all cong: fp_congs add: fp_eval)
  moreover have "(Fin True 7810930603719843 (- 47)) + (Fin False 7240155645946836 (- 47)) * (Fin False 4858639216688988 (- 52)) = ((Fin False 0 (- 1074)) :: f64)"
    "fp_sqrt ((Fin False 0 (- 1074)) * (Fin False 0 (- 1074)) + (Fin False 0 (- 1074)) * (Fin False 0 (- 1074))) = ((Fin False 0 (- 1074)) :: f64)"
    by (simp_all cong: fp_congs add: fp_eval)
  ultimately show ?thesis
    unfolding closest_approach_def rel_pos_9995 rel_vel_meet Let_def prod.case
    by (simp add: sim_row_eq threat_row_eq)
qed

text \<open>At about 1400 m the pair is at WARNING, at about 78 m at CRASH.\<close>

lemma meet_warning: "pair_level (f64_num libm_flat) sim_row (threat_row 9910) = COLLISION_WARNING"
  unfolding pair_level_def approach_9910 Let_def
  by (simp cong: fp_congs add: fp_eval classify_def vertical_gate_def crash_upgrade_def thresholds degrees_flat
      sim_row_eq threat_row_eq)

lemma meet_crash: "pair_level (f64_num libm_flat) sim_row (threat_row 9995) = COLLISION_CRASH"
  unfolding pair_level_def approach_9995 Let_def
  by (simp cong: fp_congs add: fp_eval classify_def vertical_gate_def crash_upgrade_def thresholds degrees_flat
      sim_row_eq threat_row_eq)

lemma meet_conflicts:
  assumes "pair_level (f64_num libm_flat) sim_row (threat_row n) \<noteq> COLLISION_CLEAR"
  shows "conflict_keys libm_flat (row_pairs (snapshot libm_flat (meet_db n))) = {(''aaaaaa'', ''bbbbbb'')}"
proof -
  have "{ab. ab = (sim_row, threat_row n) \<and> pair_level (f64_num libm_flat) (fst ab) (snd ab) \<noteq> COLLISION_CLEAR}
      = {(sim_row, threat_row n)}"
    using assms by auto
  then show ?thesis by (simp add: meet_pairs conflict_keys_def in_conflict_def)
qed

section \<open>States of the detector and a launch\<close>

lemma meet_lookup_threat: "\<exists>b. aircraft_db_lookup ''bbbbbb'' (meet_db n) = Inr b"
proof -
  have "ac_icao (de_ac (fresh_entry libm_flat tuning0 0 sim_ac)) = ''aaaaaa''"
    "ac_icao (de_ac (fresh_entry libm_flat tuning0 0 (threat_ac n))) = ''bbbbbb''"
    using entry_observation(2) [of libm_flat tuning0 0 sim_ac] entry_observation(2) [of libm_flat tuning0 0 "threat_ac n"]
    by (simp_all add: same_observation_def sim_ac_def threat_ac_def)
  then have "find_index (same_key ''bbbbbb'') (db_rows (meet_db n)) = Some 1"
    by (simp add: meet_rows(2) same_key_def strncmp_eq_def AIRCRAFT_ICAO_BUF_LEN_def)
  then show ?thesis by (simp add: lookup_rows [OF meet_rows(1)] spec_lookup_def)
qed

lemma meet_is_sim: "is_ble_sim (meet_db n) ''aaaaaa''"
  using meet_lookup_sim [of n] by (auto simp: is_ble_sim_def same_observation_def sim_ac_def)

definition locked_pair :: tracked_pair where
  "locked_pair = \<lparr>tp_icao_a = ''aaaaaa'', tp_icao_b = ''bbbbbb'', tp_level = COLLISION_CRASH, tp_diversion = [],
     tp_last_ble_send_ms = 0, tp_crash_until_ms = 15000\<rparr>"

lemma locked_pair_simps [simp]: "tp_key locked_pair = (''aaaaaa'', ''bbbbbb'')" "tp_crash_until_ms locked_pair = 15000"
  by (simp_all add: locked_pair_def tp_key_def)

lemma col_inv_locked: "col_inv (collision_boot\<lparr>c_tracked := [locked_pair]\<rparr>)"
  by (simp add: col_inv_def collision_boot_def locked_pair_def keys_of_def MAX_TRACKED_def)

text \<open>Two pairs whose cached diversions agree with their texts, and differ from each other.\<close>

definition cached_two :: collision where
  "cached_two = collision_boot
     \<lparr>c_tracked := [locked_pair\<lparr>tp_diversion := ''LEFT''\<rparr>, locked_pair\<lparr>tp_icao_b := ''cccccc'', tp_diversion := ''RIGHT''\<rparr>],
      c_pair_diversion := DIVERSION_LEFT # replicate 31 DIVERSION_RIGHT\<rparr>"

lemma stale_cache_example: "col_inv cached_two \<and> cache_agrees cached_two \<and> \<not> cache_agrees (tracked_remove 0 cached_two)"
proof -
  have "col_inv cached_two"
    by (simp add: col_inv_def cached_two_def collision_boot_def locked_pair_def keys_of_def tp_key_def MAX_TRACKED_def)
  moreover have "cache_agrees cached_two"
    unfolding cache_agrees_def cached_two_def by (auto simp: locked_pair_def less_Suc_eq)
  moreover have "\<not> cache_agrees (tracked_remove 0 cached_two)"
    unfolding cache_agrees_def cached_two_def by (simp add: tracked_remove_def delete_at_def locked_pair_def)
  ultimately show ?thesis by blast
qed

lemma meet_launch:
  "\<exists>m db'. missile_launch libm_flat tuning0 1000 (fp_lit 0 1) (fp_lit 0 1) (fp_lit 0 1) (missile_zero, meet_db n) = (Inr (), m, db')
    \<and> ms_expire_ms m = 61000"
proof -
  have "ac_source (de_ac (fresh_entry libm_flat tuning0 0 sim_ac)) = SRC_BLE_SIM"
    using entry_observation(2) [of libm_flat tuning0 0 sim_ac] by (simp add: same_observation_def sim_ac_def)
  then obtain tgt where "find_ble_sim (meet_db n) = Some tgt" by (simp add: find_ble_sim_rows meet_rows(2))
  moreover have "default_if_not_pos MISSILE_DEFAULT_TTL_S (fp_lit 0 1) * fp_lit 1000 1 = (Fin False 8246337208320000 (- 37) :: f64)"
    by (simp cong: fp_congs add: fp_eval default_if_not_pos_def MISSILE_DEFAULT_TTL_S_def)
  moreover have "fp_to_sint 64 (Fin False 8246337208320000 (- 37) :: f64) = Some 60000"
    by (simp cong: fp_congs add: fp_eval fp_to_sint_def)
  ultimately show ?thesis by (simp add: missile_launch_def Let_def)
qed

section \<open>The same on exact numbers, and a frame\<close>

definition real_a :: "real snap_row" where
  "real_a = \<lparr>sr_icao = ''aaaaaa'', sr_lat = 0, sr_lon = 0, sr_v_north_mps = 0, sr_v_east_mps = 0, sr_alt_ft = 0,
     sr_v_valid = True, sr_alt_valid = False\<rparr>"

text \<open>1000 m south, 100 m/s north.\<close>

definition real_b :: "real snap_row" where
  "real_b = real_a\<lparr>sr_icao := ''bbbbbb'', sr_lat := - (1 / 111), sr_v_north_mps := 100\<rparr>"

lemma real_meet: "\<not> same_velocity real_a real_b" "\<not> vertically_apart real_a real_b" "t_closest real_a real_b = 10"
    "sep_at real_a real_b 10 < 500"
proof -
  have p: "rel_pos real_num real_a real_b = (0, - 1000)" "rel_vel real_a real_b = (0, 100)"
    by (simp_all add: rel_pos_def rel_vel_def real_a_def real_b_def DEG_PER_M_LAT_def)
  then show "\<not> same_velocity real_a real_b" "t_closest real_a real_b = 10" "sep_at real_a real_b 10 < 500"
    by (simp_all add: same_velocity_def t_closest_def sep_at_def sep_sq_def)
  show "\<not> vertically_apart real_a real_b" by (simp add: vertically_apart_def real_a_def real_b_def)
qed

definition meet_frame :: ble_aircraft_frame where
  [sky_eval]: "meet_frame = \<lparr>bf_source = BLE_SRC_BLE_SIM, bf_flags = BLE_FLAG_ALT_VALID, bf_icao24 = 0xCCCCCC,
     bf_pad0 = [0, 0, 0, 0], bf_lat = fp_lit 1 1, bf_lon = fp_lit 1 1, bf_alt_ft = 100, bf_vel_kt = 0, bf_hdg_deg = 0,
     bf_reserved = 0, bf_pad1 = 0, bf_ts_ms = 5\<rparr>"

lemma meet_frame_ok: "frame_ok meet_frame"
  using f64_of_int(2) [of 1] by (simp add: frame_ok_def meet_frame_def fp_lit_int)

lemma meet_frame_accepted: "frame_accepted meet_frame"
proof -
  have "fp_val (fp_of_int 1 :: f64) = 1" "isfinite (fp_of_int 1 :: f64)" using f64_of_int [of 1] by simp_all
  moreover have "fp_of_int 1 \<noteq> (FInf s :: f64)" for s using f64_of_int(1) [of 1] by (auto simp del: f64_of_int)
  ultimately show ?thesis by (simp add: frame_accepted_def meet_frame_def fp_lit_int BLE_SRC_BLE_SIM_def)
qed

end
