(* ===== verification/System.thy ===== *)
theory System
  imports Shell Encounter
begin

text \<open>
  The controller as one system: any thread, work item, callback or shell command at any
  time, in any order.  The invariants of the components hold together in every state it
  reaches.
\<close>

section \<open>Steps\<close>

text \<open>\<open>OpShell\<close> is one command line, in words.\<close>

datatype ct_op = OpUsbIrq string | OpUsbThread ms | OpNotify "u8 list option" | OpBridge ms | OpReap ms
  | OpTick bt_rc bool bool ms | OpInject ms | OpGhost ms | OpMissile ms | OpPublish bool bool ms | OpHeartbeat
  | OpAdvert bt_rc ms bt_addr u8 "(u8 \<times> string) list" | OpConnected bt_rc bool | OpDisconnected bt_rc | OpMtu
  | OpDiscover "(u16 \<times> u16) option" | OpWatchdog bt_rc ms | OpShell shell_io "string list"

text \<open>A step, with what it sends.\<close>

fun ct_exec :: "('q, 'r) environment \<Rightarrow> ct_op \<Rightarrow> ('q, 'r) controller \<Rightarrow> ('q, 'r) controller \<times> ct_out list" where
  "ct_exec en (OpUsbIrq fifo) s = (on_usb_irq en fifo s, [])"
| "ct_exec en (OpUsbThread now) s = (on_usb_thread en now s, [])"
| "ct_exec en (OpNotify data) s = (on_notify en data s, [])"
| "ct_exec en (OpBridge now) s = (on_bridge_thread en now s, [])"
| "ct_exec en (OpReap now) s = (on_reaper now s, [])"
| "ct_exec en (OpTick rc ready dtr now) s = on_collision_tick en rc ready dtr now s"
| "ct_exec en (OpInject now) s = (on_inject en now s, [])"
| "ct_exec en (OpGhost now) s = (on_ghost en now s, [])"
| "ct_exec en (OpMissile now) s = (on_missile en now s, [])"
| "ct_exec en (OpPublish ready dtr now) s = on_publish ready dtr now s"
| "ct_exec en OpHeartbeat s = (heartbeat s, [])"
| "ct_exec en (OpAdvert rc now addr type ad) s = on_ble (device_found rc now addr type ad) s"
| "ct_exec en (OpConnected rc err) s = on_ble (connected_cb rc err) s"
| "ct_exec en (OpDisconnected rc) s = on_ble (disconnected_cb rc) s"
| "ct_exec en OpMtu s = on_ble mtu_exchange_cb s"
| "ct_exec en (OpDiscover attr) s = on_ble (discover_cb attr) s"
| "ct_exec en (OpWatchdog rc now) s = on_ble (watchdog rc now) s"
| "ct_exec en (OpShell io ws) s = (case shell_line en io ws s of None \<Rightarrow> (s, []) | Some (rc, s', out) \<Rightarrow> (s', out))"

definition ct_step :: "('q, 'r) environment \<Rightarrow> ct_op \<Rightarrow> ('q, 'r) controller \<Rightarrow> ('q, 'r) controller" where
  "ct_step en x s = fst (ct_exec en x s)"

text \<open>Clocks that a double counts exactly, which is 142,000 years of uptime.\<close>

fun op_clock_ok :: "ct_op \<Rightarrow> bool" where
  "op_clock_ok (OpMissile now) \<longleftrightarrow> \<bar>now\<bar> < 2 ^ 52"
| "op_clock_ok (OpShell io ws) \<longleftrightarrow> \<bar>io_now io\<bar> < 2 ^ 52"
| "op_clock_ok _ \<longleftrightarrow> True"

section \<open>The invariant\<close>

text \<open>
  What the libraries promise: the ranges of \<open>libm\<close>, the queue and the ring buffer of Zephyr,
  and a \<open>strtod\<close> that returns numbers of the format.
\<close>

definition environment_ok ::
  "('q \<Rightarrow> ble_aircraft_frame list) \<Rightarrow> ('r \<Rightarrow> string) \<Rightarrow> ('q, 'r) environment \<Rightarrow> bool" where
  "environment_ok qc rc en \<longleftrightarrow> libm_ok (en_libm en) \<and> msgq_spec BRIDGE_QUEUE_DEPTH qc (en_msgq en)
     \<and> ring_spec RINGBUF_BYTES rc (en_ring en) \<and> (\<forall>s. fp_ok (en_strtod en s))"

definition tuning_ok :: "f64 kalman_tuning \<Rightarrow> bool" where
  "tuning_ok g \<longleftrightarrow> \<not> q_accel_mps2 g \<le> fp_lit 0 1 \<and> \<not> r_meas_m g \<le> fp_lit 0 1"

definition controller_inv ::
  "('q \<Rightarrow> ble_aircraft_frame list) \<Rightarrow> ('r \<Rightarrow> string) \<Rightarrow> ('q, 'r) controller \<Rightarrow> bool" where
  "controller_inv qc rc s \<longleftrightarrow> db_short (ct_db s) \<and> col_inv (ct_col s) \<and> missile_inv (ct_missile s)
     \<and> tuning_ok (ct_kal s) \<and> bridge_inv qc (ct_bridge s, ct_db s) \<and> rx_awake rc (ct_usb s)"

section \<open>Each component's part\<close>

lemma db_short_upsert:
  "db_short db \<Longrightarrow> length (ac_icao a) \<le> 6 \<Longrightarrow> db_short (snd (aircraft_db_upsert lm g now a db))"
  using short_sys.inv_step [of db "DbUpsert now a"] by simp

lemma db_short_more: "db_short db \<Longrightarrow> db_short (reap_locked now db)" "db_short db \<Longrightarrow> db_short (aircraft_db_clear db)"
  using short_sys.inv_step [of db "DbReap now"] short_sys.inv_step [of db DbClear] by simp_all

lemma fict_icao [simp]: "ac_icao (fict_aircraft icao now lat lon vel hdg) = take 6 icao"
  by (simp add: fict_aircraft_def strncpy0_def AIRCRAFT_ICAO_BUF_LEN_def)

lemma rx_char_short: "db_short (snd (snd s)) \<Longrightarrow> db_short (snd (snd (rx_char parse lm g now s c)))"
  by (cases s) (auto simp: rx_char_def end_of_line_def intro: db_short_upsert json_parsed_short split: sum.splits)

lemma foldl_rx_char_short: "db_short (snd (snd s)) \<Longrightarrow> db_short (snd (snd (foldl (rx_char parse lm g now) s cs)))"
  by (induction cs arbitrary: s) (simp_all add: rx_char_short)

lemma rx_thread_short: "db_short db \<Longrightarrow> db_short (snd (rx_thread_step ops parse lm g now (u, db)))"
  using foldl_rx_char_short [of "(ux_line u, ux_stats u, db)" parse lm g now]
  by (simp add: rx_thread_step_def case_prod_unfold Let_def split: rx_phase.split)

lemma observation_short: "frame_accepted f \<Longrightarrow> length (ac_icao (frame_observation f)) \<le> 6"
  using length_icao_string [of "uint (bf_icao24 f)"] by (simp add: frame_accepted_def frame_observation_def Let_def)

lemma bridge_thread_short: "db_short db \<Longrightarrow> db_short (snd (bridge_thread_step ops lm g now (br, db)))"
proof (cases "msgq_get ops (br_msgq br)")
  case (Some fq)
  obtain f q where fq: "fq = (f, q)" by fastforce
  assume db: "db_short db"
  show ?thesis
  proof (cases "frame_accepted f")
    case True
    then show ?thesis using db Some fq observation_short [OF True]
      by (simp add: bridge_thread_step_def convert_accepts db_short_upsert)
  next
    case False
    obtain st' where "bridge_convert f (br_stats br) = (Inl EINVAL, st')" using convert_rejects [OF False] by blast
    then show ?thesis using db Some fq by (simp add: bridge_thread_step_def)
  qed
qed (simp add: bridge_thread_step_def)

text \<open>
  What a tick of the detector does to the other activities: it may cancel the missile and may
  stop the ghost, nothing else.
\<close>

definition timers :: "collision \<Rightarrow> bool \<times> ms option \<times> bool \<times> ms option" where
  "timers c = (c_inject_active c, c_inject_due c, c_ghost_active c, c_ghost_due c)"

definition work_of :: "tick \<Rightarrow> missile \<times> bool \<times> ms option \<times> bool \<times> ms option" where
  "work_of s = (tk_missile s, timers (tk_col s))"

lemma timers_simps [simp]:
  "timers (update_pair k f c) = timers c" "timers (tracked_remove i c) = timers c"
  "timers (cache_diversion d tp tk c) = timers c" "timers (c\<lparr>c_tracked := ts\<rparr>) = timers c"
  "timers (c\<lparr>c_stats := st\<rparr>) = timers c" "timers (c\<lparr>c_due := t\<rparr>) = timers c"
  by (simp_all add: timers_def update_pair_def tracked_remove_def cache_diversion_def Let_def split: option.splits)

lemma work_col [simp]: "timers c = timers (tk_col s) \<Longrightarrow> work_of (s\<lparr>tk_col := c\<rparr>) = work_of s"
  by (simp add: work_of_def)

lemma work_simps [simp]:
  "work_of (emit_collision now lo hi lvl a d s) = work_of s" "work_of (send_events es s) = work_of s"
  "work_of (mark_seen k s) = work_of s" "work_of (count_level lvl s) = work_of s"
  "work_of (s\<lparr>tk_pairs := n\<rparr>) = work_of s"
  by (simp_all add: work_of_def emit_collision_def send_events_def mark_seen_def count_level_def Let_def)

lemma work_record [simp]: "work_of (snd (snd (record_pair now lo hi lvl app tk s))) = work_of s"
  by (auto simp: record_pair_def Let_def split: option.splits)

lemma work_send [simp]: "work_of (send_to_sim conn now db lo hi lvl thr tp s) = work_of s"
  by (simp add: send_to_sim_def Let_def)

lemma work_sweep [simp]: "work_of (clear_sweep now n s) = work_of s"
  by (induction n arbitrary: s) (simp_all add: Let_def)

lemma tick_work:
  assumes P: "P (m, timers c)" and cancel: "\<And>m t. P (m, t) \<Longrightarrow> P (snd (missile_cancel m), t)"
    and stop: "\<And>m a b d e. P (m, a, b, d, e) \<Longrightarrow> P (m, a, b, False, e)"
  shows "case work_handler lm conn now db (c, m) of (c', m', out) \<Rightarrow>
    P (m', timers c') \<and> c_due c' = Some (now + COLLISION_TICK_MS)"
proof -
  have impact: "P (work_of (stop_impactor lo hi s))" if "P (work_of s)" for lo hi s
    using that cancel stop by (simp add: stop_impactor_def work_of_def timers_def Let_def)
  have enter: "P (work_of (enter_crash conn now lo hi other tp s))" if "P (work_of s)" for lo hi other tp s
    using that by (cases tp) (simp_all add: enter_crash_def Let_def impact)
  have alert: "P (work_of (alert_pair lm conn now db a b lvl tk s))" if s: "P (work_of s)" for a b lvl tk s
  proof -
    obtain lo hi where k: "pair_key (sr_icao a) (sr_icao b) = (lo, hi)" by fastforce
    obtain tp prev s1 where r: "record_pair now lo hi lvl (closest_approach (f64_num lm) a b) tk (count_level lvl s) = (tp, prev, s1)"
      by (cases "record_pair now lo hi lvl (closest_approach (f64_num lm) a b) tk (count_level lvl s)") auto
    have "work_of s1 = work_of s"
      using work_record [of now lo hi lvl "closest_approach (f64_num lm) a b" tk "count_level lvl s"] unfolding r by simp
    then have 1: "P (work_of s1)" using s by simp
    show ?thesis
      unfolding alert_pair_def k r Let_def prod.case using 1 enter
      by (cases tp; cases "sim_and_threat (sim_side_of db a b) a b") (simp_all add: case_prod_unfold)
  qed
  have step: "P (work_of (pair_step lm conn now db s ab))" if "P (work_of s)" for s ab
    using that by (auto simp: pair_step_def Let_def intro!: alert split: prod.splits)
  have "P (work_of (foldl (pair_step lm conn now db) s abs))" if "P (work_of s)" for s abs
    using that by (induction abs arbitrary: s) (simp_all add: step)
  moreover have "work_of (tick_start c m) = (m, timers c)" by (simp add: work_of_def tick_start_def)
  ultimately have "P (work_of (after_pairs lm conn now db c m))" using P by (simp add: after_pairs_def)
  then have "P (work_of (clear_sweep now n (after_pairs lm conn now db c m)))" for n by simp
  then show ?thesis by (simp add: work_handler_def tick_finish_def after_pairs_def work_of_def Let_def)
qed

lemma tick_missile:
  "P m \<Longrightarrow> (\<And>m. P m \<Longrightarrow> P (snd (missile_cancel m))) \<Longrightarrow> P (fst (snd (work_handler lm conn now db (c, m))))"
  using tick_work [where P = "\<lambda>w. P (fst w)" and m = m and c = c and lm = lm and conn = conn and now = now and db = db] by (auto split: prod.splits)

text \<open>The scenarios leave the table of pairs alone, or drop entries from it.\<close>

lemma col_inv_cong: "c_tracked c' = c_tracked c \<Longrightarrow> c_pair_diversion c' = c_pair_diversion c \<Longrightarrow> col_inv c' = col_inv c"
  by (simp add: col_inv_def)

lemma col_inv_remove: "col_inv c \<Longrightarrow> col_inv (tracked_remove i c)"
  using set_delete_at [of i "c_tracked c"] distinct_map_delete_at [of tp_key "c_tracked c" i] length_delete_at [of i "c_tracked c"]
  by (auto simp: col_inv_def tracked_remove_def keys_of_def)

lemma col_inv_drop_ghost: "col_inv c \<Longrightarrow> col_inv (drop_ghost_pairs n c)"
  by (induction n arbitrary: c) (simp_all add: col_inv_remove)

lemma inject_step_inv:
  assumes "col_inv c" "db_short db" "inject_step_and_upsert lm g now dt (c, db) = (c', db')"
  shows "col_inv c'" "db_short db'"
  using assms by (auto simp: inject_step_and_upsert_def Let_def col_inv_def intro!: db_short_upsert)

lemma inject_inv:
  assumes "col_inv c" "db_short db"
  shows "col_inv (fst (inject_keepalive_handler lm g now (c, db)))" "db_short (snd (inject_keepalive_handler lm g now (c, db)))"
    "col_inv (fst (collision_inject_scenario lm g now (c, db)))" "db_short (snd (collision_inject_scenario lm g now (c, db)))"
proof -
  have c: "col_inv (c\<lparr>c_inject_due := None, c_inj_last_step_ms := now\<rparr>)" "col_inv (c\<lparr>c_inject_due := None\<rparr>)"
    "col_inv (inject_reset_state now c)"
    using assms(1) by (simp_all add: col_inv_def inject_reset_state_def)
  show "col_inv (fst (inject_keepalive_handler lm g now (c, db)))" "db_short (snd (inject_keepalive_handler lm g now (c, db)))"
    using inject_step_inv [OF c(1) assms(2)] c(2) assms(2)
    by (auto simp: inject_keepalive_handler_def Let_def col_inv_def split: prod.splits)
  show "col_inv (fst (collision_inject_scenario lm g now (c, db)))" "db_short (snd (collision_inject_scenario lm g now (c, db)))"
    using inject_step_inv [OF c(3) assms(2)]
    by (auto simp: collision_inject_scenario_def Let_def col_inv_def split: prod.splits)
qed

lemma ghost_upsert_short: "db_short db \<Longrightarrow> db_short (ghost_upsert lm g now c db)"
  by (simp add: ghost_upsert_def db_short_upsert)

lemma ghost_inv:
  assumes "col_inv c" "db_short db"
  shows "col_inv (fst (ghost_keepalive_handler lm g now (c, db)))" "db_short (snd (ghost_keepalive_handler lm g now (c, db)))"
    "col_inv (fst (ghost_start_internal lm g now t tca miss alt (c, db)))"
    "db_short (snd (ghost_start_internal lm g now t tca miss alt (c, db)))"
proof -
  show "col_inv (fst (ghost_keepalive_handler lm g now (c, db)))" "db_short (snd (ghost_keepalive_handler lm g now (c, db)))"
    using assms by (simp_all add: ghost_keepalive_handler_def Let_def ghost_upsert_short col_inv_def)
  have "col_inv (drop_ghost_pairs (length (c_tracked c)) (c\<lparr>c_ghost_due := None, c_ghost_active := False\<rparr>))"
    using assms(1) by (intro col_inv_drop_ghost) (simp add: col_inv_def)
  then show "col_inv (fst (ghost_start_internal lm g now t tca miss alt (c, db)))"
    "db_short (snd (ghost_start_internal lm g now t tca miss alt (c, db)))"
    using assms by (simp_all add: ghost_start_internal_def Let_def ghost_upsert_short col_inv_def)
qed

lemma ghost_start_inv:
  assumes "col_inv c" "db_short db"
  shows "col_inv (fst (snd (collision_ghost_start lm g now tca miss alt (c, db))))"
    "db_short (snd (snd (collision_ghost_start lm g now tca miss alt (c, db))))"
    "col_inv (fst (snd (collision_ghost_start_at lm g now icao tca miss alt (c, db))))"
    "db_short (snd (snd (collision_ghost_start_at lm g now icao tca miss alt (c, db))))"
  using ghost_inv(3,4) [OF assms] assms
  by (auto simp: collision_ghost_start_def collision_ghost_start_at_def split: option.splits sum.splits)

lemma crash_trigger_inv: "col_inv c \<Longrightarrow> col_inv (fst (snd (collision_crash_trigger conn now db a b (c, m))))"
  by (auto simp: collision_crash_trigger_def emit_collision_def send_events_def col_inv_def Let_def split: sum.splits prod.splits)

lemma missile_db_short:
  "db_short db \<Longrightarrow> db_short (snd (missile_worker lm g now (m, db)))"
  "db_short db \<Longrightarrow> db_short (snd (snd (missile_launch lm g now ttl turn speed (m, db))))"
  by (auto simp: missile_worker_def missile_launch_def missile_upsert_def missile_aircraft_def Let_def
      intro!: db_short_upsert split: option.splits)

lemma bridge_inv_db: "bridge_inv qc (br, db) \<Longrightarrow> db_short db' \<Longrightarrow> bridge_inv qc (br, db')"
  by (simp add: bridge_inv_def db_short_def)

lemma notify_inv:
  assumes "msgq_spec BRIDGE_QUEUE_DEPTH qc ops" "bridge_inv qc (br, db)"
  shows "bridge_inv qc (snd (notify_cb ops data (ble, br)), db)"
  using bridge_inv_submit [OF assms] assms(2) by (auto simp: notify_cb_def Let_def split: option.splits)

lemma literal_range:
  assumes "0 < q" "lo * q \<le> p" "p \<le> hi * q" "\<bar>lo\<bar> \<le> 180" "\<bar>hi\<bar> \<le> 180"
  shows "f64_deg (fp_lit p q) (of_int lo) (of_int hi)"
proof (rule rounds_to_int_range)
  show "rounds_to (fp_lit p q :: f64) (of_int p / of_int q)"
    unfolding fp_lit_def using assms(1) by (intro fp_round_rounds_to [OF good_f64]) (auto simp: signed_def)
  have "real_of_int (lo * q) \<le> of_int p" "real_of_int p \<le> of_int (hi * q)"
    using assms(2,3) by (simp_all only: of_int_le_iff)
  then show "of_int lo \<le> real_of_int p / of_int q" "real_of_int p / of_int q \<le> of_int hi"
    using assms(1) by (simp_all add: pos_le_divide_eq pos_divide_le_eq)
qed (use assms in auto)

lemma sample_frame_accepted: "frame_accepted (sample_frame now)"
proof -
  have "f64_deg (fp_lit (- 274975) 10000) (of_int (- 28)) (of_int (- 27))"
    "f64_deg (fp_lit 1530137 10000) (of_int 153) (of_int 154)"
    by (rule literal_range; simp)+
  then show ?thesis by (auto simp: frame_accepted_def sample_frame_def f64_deg_def)
qed

section \<open>Every step keeps the invariant\<close>

text \<open>A command keeps the invariant, whatever its arguments.\<close>

definition cmd_keeps ::
  "('q \<Rightarrow> ble_aircraft_frame list) \<Rightarrow> ('r \<Rightarrow> string) \<Rightarrow> ('q, 'r) command \<Rightarrow> bool" where
  "cmd_keeps qc rc h \<longleftrightarrow> (\<forall>argv s. controller_inv qc rc s \<longrightarrow> controller_inv qc rc (fst (snd (h argv s))))"

lemma cmd_keepsI:
  "(\<And>argv s. controller_inv qc rc s \<Longrightarrow> controller_inv qc rc (fst (snd (h argv s)))) \<Longrightarrow> cmd_keeps qc rc h"
  by (simp add: cmd_keeps_def)

lemma read_only_keeps: "read_only h \<Longrightarrow> cmd_keeps qc rc h"
  by (simp add: read_only_def cmd_keeps_def)

lemmas simple_cmd_defs = cmd_ble_scan_start_def cmd_ble_scan_stop_def cmd_ble_disconnect_def cmd_kalman_q_def
  cmd_kalman_r_def cmd_collision_stop_def cmd_collision_ghost_stop_def cmd_diversion_def on_ble_def
  collision_inject_stop_def collision_ghost_stop_def

lemma simple_cmds_keep:
  "cmd_keeps qc rc (cmd_ble_scan_start io)" "cmd_keeps qc rc cmd_ble_scan_stop" "cmd_keeps qc rc cmd_ble_disconnect"
  "cmd_keeps qc rc (cmd_kalman_q en)" "cmd_keeps qc rc (cmd_kalman_r en)" "cmd_keeps qc rc cmd_collision_stop"
  "cmd_keeps qc rc cmd_collision_ghost_stop" "cmd_keeps qc rc (cmd_diversion en io d)"
  by (rule cmd_keepsI, simp add: simple_cmd_defs controller_inv_def tuning_ok_def col_inv_def case_prod_unfold Let_def)+

lemma state_cmds_keep:
  "cmd_keeps qc rc (cmd_ble_inject en io)" "cmd_keeps qc rc cmd_db_clear" "cmd_keeps qc rc (cmd_collision_inject en io)"
  "cmd_keeps qc rc (cmd_collision_ghost en io)" "cmd_keeps qc rc (cmd_collision_ghost_at en io)"
  "cmd_keeps qc rc (cmd_collision_crash en io)" "cmd_keeps qc rc cmd_missile_cancel"
proof -
  note [simp] = controller_inv_def case_prod_unfold Let_def
  show "cmd_keeps qc rc (cmd_ble_inject en io)"
    using observation_short [OF sample_frame_accepted]
    by (intro cmd_keepsI) (auto simp: cmd_ble_inject_def convert_accepts [OF sample_frame_accepted] db_short_upsert
        intro: bridge_inv_db)
  show "cmd_keeps qc rc cmd_db_clear"
    by (intro cmd_keepsI) (auto simp: cmd_db_clear_def db_short_more(2) intro: bridge_inv_db)
  show "cmd_keeps qc rc (cmd_collision_inject en io)"
    by (intro cmd_keepsI) (auto simp: cmd_collision_inject_def inject_inv(3,4) intro: bridge_inv_db)
  show "cmd_keeps qc rc (cmd_collision_ghost en io)"
    by (intro cmd_keepsI) (auto simp: cmd_collision_ghost_def ghost_start_inv(1,2) intro: bridge_inv_db)
  show "cmd_keeps qc rc (cmd_collision_ghost_at en io)"
    by (intro cmd_keepsI) (auto simp: cmd_collision_ghost_at_def ghost_start_inv(3,4) intro: bridge_inv_db)
  show "cmd_keeps qc rc (cmd_collision_crash en io)"
    by (intro cmd_keepsI) (auto simp: cmd_collision_crash_def crash_trigger_inv)
  show "cmd_keeps qc rc cmd_missile_cancel"
    by (intro cmd_keepsI) (auto simp: cmd_missile_cancel_def missile_inv_cancel)
qed

lemma launch_keeps:
  assumes en: "environment_ok qc rc en" and now: "\<bar>io_now io\<bar> < 2 ^ 52"
  shows "cmd_keeps qc rc (cmd_missile_launch en io)"
proof (rule cmd_keepsI)
  fix argv s assume inv: "controller_inv qc rc s"
  have lm: "libm_ok (en_libm en)" and num: "fp_ok (num_arg en argv i)" for i
    using en f64_deg_int [of "- 1"] by (auto simp: environment_ok_def num_arg_def f64_deg_def)
  note parts = inv [unfolded controller_inv_def]
  have db: "db_short (ct_db s)" and ms: "missile_inv (ct_missile s)" and br: "bridge_inv qc (ct_bridge s, ct_db s)"
    using parts by simp_all
  show "controller_inv qc rc (fst (snd (cmd_missile_launch en io argv s)))"
    using parts now missile_inv_launch [OF lm ms num] missile_db_short(2) [OF db] bridge_inv_db [OF br]
    by (simp add: cmd_missile_launch_def controller_inv_def case_prod_unfold Let_def)
qed

lemma shell_inv:
  assumes en: "environment_ok qc rc en" and inv: "controller_inv qc rc s" and now: "\<bar>io_now io\<bar> < 2 ^ 52"
    and run: "shell_line en io ws s = Some (r, s', out)"
  shows "controller_inv qc rc s'"
proof -
  obtain h argv where h: "resolve (shell_root en io) ws = Some (h, argv)" and s': "s' = fst (snd (h argv s))"
    using run by (auto simp: shell_line_def split: option.splits)
  have "cmd_keeps qc rc h"
    using resolve_cmd [OF h] read_only_cmds [THEN read_only_keeps] simple_cmds_keep state_cmds_keep launch_keeps [OF en now]
    by (auto simp: shell_tables)
  then show ?thesis using inv by (simp add: cmd_keeps_def s')
qed

lemma controller_step_inv:
  assumes en: "environment_ok qc rc en" and inv: "controller_inv qc rc s" and now: "op_clock_ok x"
  shows "controller_inv qc rc (ct_step en x s)"
proof -
  note parts = inv [unfolded controller_inv_def]
  have db: "db_short (ct_db s)" and col: "col_inv (ct_col s)" and ms: "missile_inv (ct_missile s)"
    and br: "bridge_inv qc (ct_bridge s, ct_db s)" and usb: "rx_awake rc (ct_usb s)" using parts by simp_all
  have lm: "libm_ok (en_libm en)" and mq: "msgq_spec BRIDGE_QUEUE_DEPTH qc (en_msgq en)"
    and ring: "ring_spec RINGBUF_BYTES rc (en_ring en)" using en by (simp_all add: environment_ok_def)
  show ?thesis
  proof (cases x)
    case (OpUsbIrq fifo)
    obtain bs u where i: "interrupt_handler (en_ring en) fifo (ct_usb s) = (bs, u)" by fastforce
    show ?thesis using parts interrupt_result [OF ring usb i]
      by (simp add: ct_step_def OpUsbIrq on_usb_irq_def i controller_inv_def)
  next
    case (OpUsbThread t)
    show ?thesis using parts awake_step [OF ring, of "(ct_usb s, ct_db s)"] bridge_inv_db [OF br]
        rx_thread_short [OF db, of "en_ring en" "en_json en" "en_libm en" "ct_kal s" t "ct_usb s"]
      by (simp add: ct_step_def OpUsbThread on_usb_thread_def controller_inv_def case_prod_unfold Let_def)
  next
    case (OpNotify data)
    show ?thesis using parts notify_inv [OF mq br, of data "ct_ble s"]
      by (simp add: ct_step_def OpNotify on_notify_def controller_inv_def case_prod_unfold Let_def)
  next
    case (OpBridge t)
    show ?thesis using parts bridge_inv_thread [OF mq br, of "en_libm en" "ct_kal s" t] bridge_thread_short [OF db]
      by (simp add: ct_step_def OpBridge on_bridge_thread_def controller_inv_def case_prod_unfold Let_def)
  next
    case (OpReap t)
    show ?thesis using parts db_short_more(1) [OF db] bridge_inv_db [OF br]
      by (simp add: ct_step_def OpReap on_reaper_def controller_inv_def)
  next
    case (OpTick r ready dtr t)
    show ?thesis using parts tick_result(1) [OF col short_pairs [OF db]] tick_missile [of missile_inv, OF ms missile_inv_cancel]
      by (simp add: ct_step_def OpTick on_collision_tick_def controller_inv_def case_prod_unfold Let_def)
  next
    case (OpInject t)
    show ?thesis using parts inject_inv(1,2) [OF col db] bridge_inv_db [OF br]
      by (simp add: ct_step_def OpInject on_inject_def controller_inv_def case_prod_unfold Let_def)
  next
    case (OpGhost t)
    show ?thesis using parts ghost_inv(1,2) [OF col db] bridge_inv_db [OF br]
      by (simp add: ct_step_def OpGhost on_ghost_def controller_inv_def case_prod_unfold Let_def)
  next
    case (OpMissile t)
    show ?thesis using parts now missile_inv_worker [OF lm ms] missile_db_short(1) [OF db] bridge_inv_db [OF br]
      by (simp add: ct_step_def OpMissile on_missile_def controller_inv_def case_prod_unfold Let_def)
  next
    case (OpShell io ws)
    show ?thesis using inv now shell_inv [OF en inv, of io ws] by (simp add: ct_step_def OpShell split: option.split)
  qed (use parts in \<open>simp_all add: ct_step_def controller_inv_def on_publish_def on_ble_def heartbeat_def case_prod_unfold Let_def\<close>)
qed

section \<open>Commands that fail\<close>

text \<open>
  A command that returns an error has changed and sent nothing, and has told the operator; only
  a launch that finds no target has already cancelled the missile in flight.
\<close>

definition console_only :: "ct_out list \<Rightarrow> bool" where
  "console_only out \<longleftrightarrow> (\<forall>x \<in> set out. \<exists>l. x = OutPrint l \<or> x = OutError l)"

definition fails_clean :: "('q, 'r) command \<Rightarrow> bool" where
  "fails_clean h \<longleftrightarrow> (\<forall>argv s e s' out. h argv s = (Inl e, s', out)
     \<longrightarrow> s' = s \<and> (\<exists>l. OutError l \<in> set out) \<and> console_only out)"

lemma never_fails: "(\<And>argv s. \<exists>r. fst (h argv s) = Inr r) \<Longrightarrow> fails_clean h"
  unfolding fails_clean_def by (metis Inl_Inr_False fst_conv)

lemma cmds_never_fail:
  "fails_clean cmd_skywatch_ping" "fails_clean cmd_skywatch_usb_stats" "fails_clean (cmd_ble_scan_start io)"
  "fails_clean cmd_ble_scan_stop" "fails_clean (cmd_ble_scan_list en)" "fails_clean cmd_ble_disconnect"
  "fails_clean cmd_ble_stats" "fails_clean (cmd_ble_inject en io)" "fails_clean (cmd_db_dump io)"
  "fails_clean cmd_db_clear" "fails_clean cmd_db_stats" "fails_clean cmd_kalman_show" "fails_clean (cmd_kalman_bench en io)"
  "fails_clean cmd_collision_stats" "fails_clean (cmd_collision_inject en io)" "fails_clean cmd_collision_stop"
  "fails_clean cmd_collision_ghost_stop" "fails_clean cmd_missile_cancel"
  by (rule never_fails, simp add: cmd_skywatch_ping_def cmd_skywatch_usb_stats_def cmd_ble_scan_start_def
      cmd_ble_scan_stop_def cmd_ble_scan_list_def cmd_ble_disconnect_def cmd_ble_stats_def cmd_ble_inject_def
      convert_accepts [OF sample_frame_accepted] cmd_db_dump_def cmd_db_clear_def cmd_db_stats_def cmd_kalman_show_def
      cmd_kalman_bench_def cmd_collision_stats_def cmd_collision_inject_def cmd_collision_stop_def
      cmd_collision_ghost_stop_def cmd_missile_cancel_def case_prod_unfold Let_def)+

lemma cmds_fail_clean:
  "fails_clean (cmd_skywatch_test_json en)" "fails_clean cmd_db_get" "fails_clean (cmd_kalman_q en)"
  "fails_clean (cmd_kalman_r en)" "fails_clean (cmd_collision_ghost en io)" "fails_clean (cmd_collision_ghost_at en io)"
  "fails_clean (cmd_collision_crash en io)" "fails_clean (cmd_diversion en io d)"
proof -
  note [simp] = fails_clean_def console_only_def
  show "fails_clean (cmd_skywatch_test_json en)"
    by (auto simp: cmd_skywatch_test_json_def parse_and_print_def print_parsed_def Let_def split: sum.splits)
  show "fails_clean cmd_db_get" "fails_clean (cmd_kalman_q en)" "fails_clean (cmd_kalman_r en)"
    by (auto simp: cmd_db_get_def cmd_kalman_q_def cmd_kalman_r_def Let_def split: sum.splits)
  show "fails_clean (cmd_collision_ghost en io)"
    by (auto simp: cmd_collision_ghost_def collision_ghost_start_def Let_def split: option.splits sum.splits prod.splits)
  show "fails_clean (cmd_collision_ghost_at en io)"
    by (auto simp: cmd_collision_ghost_at_def collision_ghost_start_at_def collision_ghost_start_def Let_def split: option.splits sum.splits
        prod.splits errno.splits)
  show "fails_clean (cmd_collision_crash en io)"
    by (auto simp: cmd_collision_crash_def collision_crash_trigger_def deliver_all_def Let_def
        split: sum.splits prod.splits)
  show "fails_clean (cmd_diversion en io d)"
    by (auto simp: cmd_diversion_def collision_diversion_send_def deliver_all_def Let_def
        split: option.splits sum.splits prod.splits)
qed

lemma launch_fails:
  assumes "cmd_missile_launch en io argv s = (Inl e, s', out)"
  shows "s' = s\<lparr>ct_missile := snd (missile_cancel (ct_missile s))\<rparr> \<and> (\<exists>l. OutError l \<in> set out) \<and> console_only out"
  using assms by (auto simp: cmd_missile_launch_def missile_launch_def missile_cancel_def console_only_def Let_def
      split: option.splits sum.splits prod.splits)

text \<open>The command a line runs: the launch, or one of the others.\<close>

lemma shell_line_command:
  assumes "shell_line en io ws s = Some r"
  obtains argv where "take 3 ws = [''skywatch'', ''missile'', ''launch'']" "r = cmd_missile_launch en io argv s"
  | h argv where "take 3 ws \<noteq> [''skywatch'', ''missile'', ''launch'']" "fails_clean h" "r = h argv s"
proof -
  obtain h argv where h: "resolve (shell_root en io) ws = Some (h, argv)" and r: "r = h argv s"
    using assms by (auto simp: shell_line_def split: option.splits)
  obtain ws1 where 1: "ws = ''skywatch'' # ws1" "resolve (sub_skywatch en io) ws1 = Some (h, argv)"
    using h by (cases ws) (auto simp: shell_root_def split: if_splits)
  obtain w ws2 where 2: "ws1 = w # ws2" using 1(2) by (cases ws1) auto
  show thesis
  proof (cases "w = ''missile''")
    case True
    then have m: "resolve (sub_missile en io) ws2 = Some (h, argv)" using 1(2) 2 by (simp add: sub_skywatch_def)
    then obtain v ws3 where v: "ws2 = v # ws3" by (cases ws2) auto
    show ?thesis
    proof (cases "v = ''launch''")
      case launch: True
      then have "h = cmd_missile_launch en io" using m v by (simp add: sub_missile_def)
      then show ?thesis using that(1) [of argv] r 1 2 v True launch by (simp add: numeral_eq_Suc)
    next
      case False
      then have "h = cmd_missile_cancel" using m v by (simp add: sub_missile_def split: if_splits)
      then show ?thesis using that(2) [of h argv] r 1 2 v True False cmds_never_fail by (simp add: numeral_eq_Suc)
    qed
  next
    case False
    have others: "\<forall>e \<in> set (sub_skywatch en io). entry_name e \<noteq> ''missile'' \<longrightarrow> (\<forall>h \<in> entry_cmds e. fails_clean h)"
      by (simp add: shell_tables cmds_never_fail cmds_fail_clean)
    have "resolve (sub_skywatch en io) (w # ws2) = Some (h, argv)" using 1(2) 2 by simp
    from resolve_head [OF this] obtain e where "e \<in> set (sub_skywatch en io)" "entry_name e = w" "h \<in> entry_cmds e" by blast
    then have "fails_clean h" using others False by blast
    then show ?thesis using that(2) [of h argv] r 1 2 False by (simp add: numeral_eq_Suc)
  qed
qed

lemma shell_fails_clean:
  assumes "shell_line en io ws s = Some (Inl e, s', out)"
  shows "s' = (if take 3 ws = [''skywatch'', ''missile'', ''launch'']
      then s\<lparr>ct_missile := snd (missile_cancel (ct_missile s))\<rparr> else s)
    \<and> (\<exists>l. OutError l \<in> set out) \<and> console_only out"
  using assms
proof (cases rule: shell_line_command)
  case (1 argv)
  then show ?thesis using launch_fails [of en io argv s e s' out] by simp
next
  case (2 h argv)
  then show ?thesis unfolding fails_clean_def by metis
qed

section \<open>From the start\<close>

definition started :: "('q, 'r) environment \<Rightarrow> bt_rc \<Rightarrow> errno + unit \<Rightarrow> ms \<Rightarrow> 'q \<Rightarrow> 'r \<Rightarrow> ('q, 'r) controller" where
  "started en rc enable now q r = fst (controller_main True (Inr ()) rc enable now (controller_boot (en_libm en) q r))"

lemma tuning_boot: "tuning_ok (kalman_tuning_init (f64_num lm))"
proof -
  have "\<not> (fp_lit 5 10 :: f64) \<le> fp_lit 0 1" "\<not> (fp_lit 10 1 :: f64) \<le> fp_lit 0 1"
    by (simp_all cong: fp_congs add: fp_lit_def fp_eval)
  then show ?thesis by (simp add: tuning_ok_def kalman_tuning_init_def)
qed

lemma started_inv:
  assumes en: "environment_ok qc rc en" and q: "qc q = []" and r: "rc r = []"
  shows "controller_inv qc rc (started en b enable now q r)"
proof -
  have "missile_inv missile_zero"
    using op_system.inv_init [OF missile_system] en by (auto simp: environment_ok_def)
  moreover have "col_inv (collision_init now collision_boot)" using tracker_sys.inv_step [of collision_boot "ColInit now"]
    tracker_sys.inv_init by simp
  moreover have "db_short aircraft_db_init" by (rule short_sys.inv_init)
  moreover have "db_inv aircraft_db_init" by (rule db_inv_init)
  ultimately show ?thesis using q r tuning_boot
    by (simp add: started_def controller_main_def controller_boot_def controller_inv_def Let_def case_prod_unfold
        bridge_inv_def frames_balance_def bridge_init_def bridge_stats_zero_def rx_awake_def usb_handler_init_def
        usb_rx_boot_def)
qed

lemma controller_system:
  assumes "environment_ok qc rc en" "qc q = []" "rc r = []"
  shows "op_system (started en b enable now q r) (ct_step en) op_clock_ok (controller_inv qc rc)"
  by standard (use started_inv [OF assms] controller_step_inv [OF assms(1)] in blast)+

text \<open>An environment with this behaviour.\<close>

definition plain_environment :: "(ble_aircraft_frame list, string) environment" where
  "plain_environment = \<lparr>en_libm = libm_flat, en_json = (\<lambda>buf descr src. (- 22, src)),
     en_msgq = list_msgq BRIDGE_QUEUE_DEPTH, en_ring = list_ring RINGBUF_BYTES, en_strtod = (\<lambda>_. fp_of_int 3),
     en_errno = (\<lambda>_. 22), en_addr_str = (\<lambda>_. []), en_ticks_to_us = (\<lambda>t. t)\<rparr>"

definition console_at :: "ms \<Rightarrow> shell_io" where
  "console_at now = \<lparr>io_now = now, io_rc = rc_ok, io_ready = True, io_dtr = True, io_ticks = (0, 0)\<rparr>"

lemma plain_environment_ok: "environment_ok (\<lambda>q. q) (\<lambda>r. r) plain_environment"
  by (simp add: environment_ok_def plain_environment_def libm_flat_ok list_msgq_spec list_ring_spec)

end
