(* ===== verification/Sim_Packet.thy ===== *)
theory Sim_Packet
  imports Ble_Packet
begin

text \<open>
  The structs of the simulator's firmware as its own files declare them: the aircraft frame of
  its copy of \<open>ble_packet.h\<close>, and the two warning structs of \<open>codein.c\<close>.  A packed struct is
  the list of its members with their sizes; a member of a received message is the bytes at its
  offset.  The values are those of the records the controller's side uses; that the two boards
  place every member alike is what the lemmas say.
\<close>

type_synonym layout = "(string \<times> nat) list"

definition sizeof :: "layout \<Rightarrow> nat" where
  [sky_eval]: "sizeof l = sum_list (map snd l)"

fun member_bytes :: "layout \<Rightarrow> string \<Rightarrow> u8 list \<Rightarrow> u8 list" where
  "member_bytes [] name bs = []"
| "member_bytes ((n, k) # l) name bs = (if n = name then take k bs else member_bytes l name (drop k bs))"

definition packed :: "layout \<Rightarrow> (string \<Rightarrow> u8 list) \<Rightarrow> u8 list" where
  [sky_eval]: "packed l f = concat (map (\<lambda>(n, k). f n) l)"

section \<open>The aircraft frame\<close>

definition aircraft_layout :: layout where
  [sky_eval]: "aircraft_layout = [(''source'', 1), (''flags'', 1), (''icao24'', 4), (''_pad0'', 4), (''lat'', 8), (''lon'', 8),
     (''alt_ft'', 2), (''vel_kt'', 2), (''hdg_deg'', 2), (''reserved'', 1), (''_pad1'', 1), (''ts_ms'', 4)]"

text \<open>A member as the little-endian processor keeps it.\<close>

definition aircraft_member :: "ble_aircraft_frame \<Rightarrow> string \<Rightarrow> u8 list" where
  [sky_eval]: "aircraft_member f n = the (map_of
     [(''source'', [bf_source f]), (''flags'', [bf_flags f]), (''icao24'', le_bytes 4 (uint (bf_icao24 f))),
      (''_pad0'', bf_pad0 f), (''lat'', le_bytes 8 (f64_bits (bf_lat f))), (''lon'', le_bytes 8 (f64_bits (bf_lon f))),
      (''alt_ft'', le_bytes 2 (uint (bf_alt_ft f))), (''vel_kt'', le_bytes 2 (uint (bf_vel_kt f))),
      (''hdg_deg'', le_bytes 2 (uint (bf_hdg_deg f))), (''reserved'', [bf_reserved f]), (''_pad1'', [bf_pad1 f]),
      (''ts_ms'', le_bytes 4 (uint (bf_ts_ms f)))] n)"

definition sim_frame_bytes :: "ble_aircraft_frame \<Rightarrow> u8 list" where
  [sky_eval]: "sim_frame_bytes f = packed aircraft_layout (aircraft_member f)"

lemma aircraft_layout_size: "sizeof aircraft_layout = BLE_FRAME_SIZE"
  by (simp add: sizeof_def aircraft_layout_def BLE_FRAME_SIZE_def)

lemma sim_frame_bytes_eq: "sim_frame_bytes f = frame_encode f"
  by (simp add: sim_frame_bytes_def packed_def aircraft_layout_def aircraft_member_def frame_encode_def)

section \<open>The warning structs\<close>

definition warning_layout :: layout where
  [sky_eval]: "warning_layout = [(''msg_type'', 1), (''icao'', 3), (''lat'', 3), (''lon'', 3), (''alt'', 2), (''severity'', 1),
     (''hdg_delta'', 1), (''timestamp'', 1), (''crc'', 1)]"

definition custom_msg_layout :: layout where
  [sky_eval]: "custom_msg_layout = [(''msg_type'', 1), (''text'', 28), (''timestamp'', 1), (''crc'', 1)]"

text \<open>\<open>const struct warning_frame *w = buf\<close>\<close>

definition warning_view :: "u8 list \<Rightarrow> ble_warning_frame" where
  [sky_eval]: "warning_view bs = (let m = (\<lambda>n. member_bytes warning_layout n bs) in
     \<lparr>wf_msg_type = m ''msg_type'' ! 0, wf_icao = m ''icao'', wf_lat = m ''lat'', wf_lon = m ''lon'',
      wf_alt = word_of_int (le_int (m ''alt'')), wf_severity = m ''severity'' ! 0, wf_hdg_delta = m ''hdg_delta'' ! 0,
      wf_timestamp = m ''timestamp'' ! 0, wf_crc = m ''crc'' ! 0\<rparr>)"

definition custom_msg_text :: "u8 list \<Rightarrow> u8 list" where
  [sky_eval]: "custom_msg_text bs = member_bytes custom_msg_layout ''text'' bs"

lemma warning_sizes [simp]: "sizeof warning_layout = 16" "sizeof custom_msg_layout = 31"
  by (simp_all add: sizeof_def warning_layout_def custom_msg_layout_def)

text \<open>Both boards read a message of this size alike.\<close>

lemma warning_view_decode: "length bs = 16 \<Longrightarrow> warning_decode bs = Some (warning_view bs)"
  by (simp add: warning_decode_def warning_view_def warning_layout_def field_at_def BLE_WARNING_FRAME_SIZE_def
      drop_drop nth_append)

lemma warning_view_encode: "warning_ok w \<Longrightarrow> warning_view (warning_encode w) = w"
  using warning_view_decode [of "warning_encode w"] warning_codec.enc_size [of w] warning_codec.dec_enc [of w]
  by (simp add: BLE_WARNING_FRAME_SIZE_def)

end
