(* ===== verification/Sim_Mobile.thy ===== *)
theory Sim_Mobile
  imports Bridge Geo Sim_Packet Shell_Table
begin

text \<open>
  \<open>codein.c\<close>: the firmware of the simulated aircraft.  A thread moves the aircraft five times a
  second and notifies the controller; the controller's warning frames come in through
  \<open>warn_write\<close>; the operator flies with keys and shell commands.  \<open>cosf\<close> and \<open>sinf\<close> are
  parameters.  What the firmware sends is a list of events; one reading of the clock stands for
  the several of a tick.  Undefined conversions (NaN or out of range) have an unspecified value.
\<close>

section \<open>State\<close>

record libmf =
  mf_cos :: "f32 \<Rightarrow> f32"
  mf_sin :: "f32 \<Rightarrow> f32"

record sim =
  g_lat :: s32
  g_lon :: s32
  g_alt :: u16
  g_speed :: u16
  g_heading :: u16
  g_warning_active :: bool
  g_turn_rate :: f32
  g_hdg_acc :: f32
  g_frozen_until_ms :: ms
  warning_clear_due :: "ms option"
  crash_reset_due :: "ms option"
  s_conn :: bool
  s_notif_enabled :: bool
  red_led :: bool
  green_led :: bool
  buzzer_pin :: bool
  g_wdt_channel :: int

definition HOME_LAT :: s32 where [sky_eval]: "HOME_LAT = word_of_int (- 274975000)"
definition HOME_LON :: s32 where [sky_eval]: "HOME_LON = word_of_int 1530137000"
definition LAT_MIN :: s32 where [sky_eval]: "LAT_MIN = word_of_int (- 278000000)"
definition LAT_MAX :: s32 where [sky_eval]: "LAT_MAX = word_of_int (- 270000000)"
definition LON_MIN :: s32 where [sky_eval]: "LON_MIN = word_of_int 1525000000"
definition LON_MAX :: s32 where [sky_eval]: "LON_MAX = word_of_int 1535000000"
definition ALT_MIN :: int where [sky_eval]: "ALT_MIN = 0"
definition ALT_MAX :: u16 where [sky_eval]: "ALT_MAX = 15000"
definition g_icao :: "u8 list" where [sky_eval]: "g_icao = [0xDA, 0x77, 0x05]"

definition sim_boot :: sim where
  [sky_eval]: "sim_boot = \<lparr>g_lat = HOME_LAT, g_lon = HOME_LON, g_alt = 100, g_speed = 0, g_heading = 0,
     g_warning_active = False, g_turn_rate = fp_lit 0 1, g_hdg_acc = fp_lit 0 1, g_frozen_until_ms = 0,
     warning_clear_due = None, crash_reset_due = None, s_conn = False, s_notif_enabled = False,
     red_led = False, green_led = False, buzzer_pin = False, g_wdt_channel = - 1\<rparr>"

text \<open>Lines on the data port, notifications, other calls, and lines on the operator's console.\<close>

datatype sim_event = SimLine string | SimNotify ble_aircraft_frame | AdvStop | AdvStart | WdtFeed
  | SimPrint string | SimError string

section \<open>Serial port\<close>

text \<open>What a \<open>SimLine\<close> puts on the wire: this firmware writes whether or not the host listens.\<close>

definition sim_usb_serial_init :: "bool \<Rightarrow> errno + unit" where
  [sky_eval]: "sim_usb_serial_init ready = (if \<not> ready then Inl ENODEV else Inr ())"

definition sim_usb_serial_println :: "bool \<Rightarrow> string \<Rightarrow> string" where
  [sky_eval]: "sim_usb_serial_println ready str = (if \<not> ready then [] else str @ [CHR 0x0A])"

section \<open>Warnings from the controller\<close>

definition warning_clear_fn :: "sim \<Rightarrow> sim \<times> sim_event list" where
  "warning_clear_fn s = (s\<lparr>g_warning_active := False\<rparr>, [SimLine ''WARN clear''])"

text \<open>The aircraft back at St Lucia; \<open>g_warning_active\<close> and the flight variables.\<close>

definition go_home :: "sim \<Rightarrow> sim" where
  "go_home s = s\<lparr>g_lat := HOME_LAT, g_lon := HOME_LON, g_alt := 100, g_speed := 0, g_heading := 0,
     g_turn_rate := fp_lit 0 1, g_hdg_acc := fp_lit 0 1, g_warning_active := False\<rparr>"

definition crash_reset_fn :: "sim \<Rightarrow> sim \<times> sim_event list" where
  "crash_reset_fn s = ((go_home s)\<lparr>g_frozen_until_ms := 0, warning_clear_due := None\<rparr>, [SimLine ''WARN clear''])"

datatype att_err = INVALID_ATTRIBUTE_LEN | VALUE_NOT_ALLOWED

definition crc_ok :: "u8 list \<Rightarrow> bool" where
  "crc_ok bs \<longleftrightarrow> xor_bytes (take (length bs - 1) bs) = bs ! (length bs - 1)"

definition text_of :: "u8 list \<Rightarrow> string" where
  "text_of bs = map (\<lambda>b. char_of (unat b)) (takeWhile (\<lambda>b. b \<noteq> 0) bs)"

definition hex2 :: "u8 \<Rightarrow> string" where
  "hex2 b = show_hex 2 (uint b)"

definition enter_freeze :: "ms \<Rightarrow> sim \<Rightarrow> sim" where
  "enter_freeze now s = s\<lparr>g_frozen_until_ms := now + 10000, g_warning_active := True,
     warning_clear_due := None, crash_reset_due := Some (now + 10000)\<rparr>"

text \<open>The frame of 31 bytes with a free text.\<close>

definition custom_msg :: "ms \<Rightarrow> u8 list \<Rightarrow> sim \<Rightarrow> (att_err + nat) \<times> sim \<times> sim_event list" where
  "custom_msg now bs s =
     (if length bs \<noteq> sizeof custom_msg_layout then (Inl INVALID_ATTRIBUTE_LEN, s, [])
      else if \<not> crc_ok bs then (Inl VALUE_NOT_ALLOWED, s, [])
      else (Inr (length bs),
            s\<lparr>g_warning_active := True, warning_clear_due := Some (now + 3000)\<rparr>,
            [SimLine (fst (snprintf 64 (''WARN msg '' @ text_of (take 27 (custom_msg_text bs)))))]))"

definition warn_frame :: "ms \<Rightarrow> ble_warning_frame \<Rightarrow> sim \<Rightarrow> sim \<times> sim_event list" where
  "warn_frame now w s =
     (let icao = hex2 (wf_icao w ! 0) @ hex2 (wf_icao w ! 1) @ hex2 (wf_icao w ! 2);
          alert = s\<lparr>g_warning_active := True, warning_clear_due := Some (now + 5000)\<rparr>
      in if wf_msg_type w = 0x02
         then (alert, [SimLine (fst (snprintf 64 (''WARN collision ICAO='' @ icao @ '' sev='' @ show_dec (uint (wf_severity w)))))])
         else if wf_msg_type w = 0x03
         then (alert, [SimLine (fst (snprintf 64 (''WARN diversion ICAO='' @ icao @ '' hdg_delta='' @ show_dec (sint (wf_hdg_delta w))
                 @ '' alt_delta='' @ show_dec (sint (wf_alt w)))))])
         else if wf_msg_type w = 0x05 then (enter_freeze now s, [SimLine ''WARN crash''])
         else (s, []))"

definition warn_write :: "ms \<Rightarrow> u8 list \<Rightarrow> sim \<Rightarrow> (att_err + nat) \<times> sim \<times> sim_event list" where
  "warn_write now bs s =
     (if length bs < 2 then (Inl INVALID_ATTRIBUTE_LEN, s, [])
      else if bs ! 0 = 0x04 then custom_msg now bs s
      else if length bs \<noteq> sizeof warning_layout then (Inl INVALID_ATTRIBUTE_LEN, s, [])
      else if \<not> crc_ok bs then (Inl VALUE_NOT_ALLOWED, s, [])
      else let (s', out) = warn_frame now (warning_view bs) s in (Inr (length bs), s', out))"

section \<open>The link\<close>

definition aircraft_ccc_changed :: "u16 \<Rightarrow> sim \<Rightarrow> sim" where
  "aircraft_ccc_changed v s = s\<lparr>s_notif_enabled := (v = 1)\<rparr>"

definition connected_sim :: "bool \<Rightarrow> sim \<Rightarrow> sim" where
  "connected_sim err s = (if err then s else s\<lparr>red_led := False, green_led := True, s_conn := True\<rparr>)"

definition disconnected_sim :: "sim \<Rightarrow> sim \<times> sim_event list" where
  "disconnected_sim s =
     ((if s_conn s then s\<lparr>s_conn := False\<rparr> else s)
        \<lparr>s_notif_enabled := False, g_warning_active := False, warning_clear_due := None, red_led := True, green_led := False\<rparr>,
      [AdvStop, AdvStart])"

section \<open>Flying\<close>

definition clamp_position :: "sim \<Rightarrow> sim" where
  "clamp_position s =
     (let s1 = (if g_lat s <s LAT_MIN then s\<lparr>g_lat := LAT_MIN\<rparr> else s);
          s2 = (if LAT_MAX <s g_lat s1 then s1\<lparr>g_lat := LAT_MAX\<rparr> else s1);
          s3 = (if g_lon s2 <s LON_MIN then s2\<lparr>g_lon := LON_MIN\<rparr> else s2);
          s4 = (if LON_MAX <s g_lon s3 then s3\<lparr>g_lon := LON_MAX\<rparr> else s3);
          s5 = (if uint (g_alt s4) < ALT_MIN then s4\<lparr>g_alt := word_of_int ALT_MIN\<rparr> else s4)
      in if ALT_MAX < g_alt s5 then s5\<lparr>g_alt := ALT_MAX\<rparr> else s5)"

definition process_gui_cmd :: "char \<Rightarrow> sim \<Rightarrow> sim" where
  "process_gui_cmd c s =
     (if c = CHR ''w'' then (let v = g_speed s + 10 in s\<lparr>g_speed := (if 500 < v then 500 else v)\<rparr>)
      else if c = CHR ''s'' then (if 10 \<le> g_speed s then s\<lparr>g_speed := g_speed s - 10\<rparr> else s\<lparr>g_speed := 0\<rparr>)
      else if c = CHR ''a'' then s\<lparr>g_heading := word_of_int ((uint (g_heading s) + 360 - 10) mod 360)\<rparr>
      else if c = CHR ''d'' then s\<lparr>g_heading := word_of_int ((uint (g_heading s) + 10) mod 360)\<rparr>
      else if c = CHR ''q'' then (let v = g_alt s + 50 in s\<lparr>g_alt := (if ALT_MAX < v then ALT_MAX else v)\<rparr>)
      else if c = CHR ''e'' then (if 50 \<le> g_alt s then s\<lparr>g_alt := g_alt s - 50\<rparr> else s\<lparr>g_alt := 0\<rparr>)
      else if c = CHR ''r'' then (go_home s)\<lparr>warning_clear_due := None\<rparr>
      else s)"

definition position_json :: "sim \<Rightarrow> sim_event list" where
  "position_json s = [SimLine (fst (snprintf 128 (''{'' @ member_of ''lat'' (show_dec (sint (g_lat s)))
     @ '','' @ member_of ''lon'' (show_dec (sint (g_lon s))) @ '','' @ member_of ''alt'' (show_dec (uint (g_alt s)))
     @ '','' @ member_of ''spd'' (show_dec (uint (g_speed s))) @ '','' @ member_of ''hdg'' (show_dec (uint (g_heading s)))
     @ ''}'')))]"

text \<open>The shell commands get their argument vector, the command's name first.\<close>

type_synonym shell_result = "(errno + unit) \<times> sim \<times> sim_event list"

type_synonym sim_command = "string list \<Rightarrow> sim \<Rightarrow> shell_result"

definition cmd_aircraft_set :: sim_command where
  "cmd_aircraft_set argv s =
     (if length argv \<noteq> 6 then (Inl EINVAL, s, [SimPrint ''Usage: aircraft set <lat> <lon> <alt> <speed> <heading>''])
      else let s1 = s\<lparr>g_lat := word_of_int (atoi (argv ! 1)), g_lon := word_of_int (atoi (argv ! 2)),
             g_alt := word_of_int (atoi (argv ! 3)), g_speed := word_of_int (atoi (argv ! 4)),
             g_heading := word_of_int (atoi (argv ! 5))\<rparr> in (Inr (), s1, position_json s1))"

definition cmd_aircraft_wasd :: sim_command where
  "cmd_aircraft_wasd argv s =
     (if length argv \<noteq> 2 \<or> length (argv ! 1) \<noteq> 1 then (Inl EINVAL, s, [SimPrint ''Usage: aircraft wasd <w/a/s/d/q/e>''])
      else let s1 = process_gui_cmd (argv ! 1 ! 0) s in (Inr (), s1, position_json s1))"

definition cmd_aircraft_status :: sim_command where
  "cmd_aircraft_status argv s = (Inr (), s, position_json s)"

definition cmd_aircraft_reset :: sim_command where
  "cmd_aircraft_reset argv s = (let s1 = go_home s in (Inr (), s1, position_json s1))"

definition circle_rate :: "int \<Rightarrow> int \<Rightarrow> f32" where
  "circle_rate spd radius_m =
     (let speed_ms = fp_of_int spd * fp_lit 514444 1000000
      in (speed_ms / fp_of_int radius_m) * (fp_lit 180 1 / fp_lit 314159 100000) * fp_lit 2 10)"

definition cmd_aircraft_circle :: sim_command where
  "cmd_aircraft_circle argv s =
     (if length argv < 2
      then (Inl EINVAL, s, map SimPrint [''Usage: aircraft circle <speed_kt> <radius_m>  (radius default 500)'',
              ''       aircraft circle 0  '' @ [CHR 0xE2, CHR 0x80, CHR 0x94] @ '' stop circling''])
      else let spd = atoi (argv ! 1) in
        if spd = 0 then (Inr (), s\<lparr>g_turn_rate := fp_lit 0 1\<rparr>, [SimPrint ''Circling stopped''])
        else let radius_m = (if 3 \<le> length argv then atoi (argv ! 2) else 500) in
          if radius_m \<le> 0 then (Inl EINVAL, s, [SimError ''radius_m must be > 0''])
          else let rate = circle_rate spd radius_m in
            (Inr (), s\<lparr>g_speed := word_of_int spd, g_turn_rate := rate, g_hdg_acc := fp_of_int (uint (g_heading s))\<rparr>,
             [SimPrint (''Circling: '' @ show_dec spd @ '' kt, '' @ show_dec radius_m @ '' m radius, '' @ show_fixed 2 rate
                @ '' deg/tick'')]))"

definition aircraft_cmds :: "sim_command shell_entry list" where
  "aircraft_cmds = [SHELL_CMD ''set'' cmd_aircraft_set, SHELL_CMD ''wasd'' cmd_aircraft_wasd,
     SHELL_CMD ''status'' cmd_aircraft_status, SHELL_CMD ''reset'' cmd_aircraft_reset,
     SHELL_CMD ''circle'' cmd_aircraft_circle]"

definition sim_shell_line :: "string list \<Rightarrow> sim \<Rightarrow> shell_result option" where
  "sim_shell_line ws s = (case resolve [SHELL_SUB ''aircraft'' aircraft_cmds] ws of
     None \<Rightarrow> None | Some (h, argv) \<Rightarrow> Some (h argv s))"

section \<open>The send thread\<close>

definition fp_to_uint :: "nat \<Rightarrow> ('e, 'f) fp \<Rightarrow> int option" where
  "fp_to_uint w x = (case fp_trunc x of None \<Rightarrow> None | Some n \<Rightarrow> if 0 \<le> n \<and> n < 2 ^ w then Some n else None)"

definition frozen :: "ms \<Rightarrow> sim \<Rightarrow> bool" where
  "frozen now s \<longleftrightarrow> g_frozen_until_ms s \<noteq> 0 \<and> now < g_frozen_until_ms s"

definition tick_turn :: "sim \<Rightarrow> sim" where
  "tick_turn s =
     (if c_eq (g_turn_rate s) (fp_lit 0 1) then s
      else let a0 = g_hdg_acc s + g_turn_rate s;
               a1 = (if fp_lit 360 1 \<le> a0 then a0 - fp_lit 360 1 else a0);
               a2 = (if a1 < fp_lit 0 1 then a1 + fp_lit 360 1 else a1)
           in s\<lparr>g_hdg_acc := a2, g_heading := word_of_int (the (fp_to_uint 16 a2))\<rparr>)"

definition tick_move :: "libmf \<Rightarrow> sim \<Rightarrow> sim" where
  "tick_move lm s =
     (let hdg_rad = fp_of_int (uint (g_heading s)) * fp_lit 314159 100000 / fp_lit 180 1;
          dist_m = fp_of_int (uint (g_speed s)) * fp_lit 1028 10000;
          dlat = (dist_m * mf_cos lm hdg_rad) / fp_lit 111000 1;
          dlon = (dist_m * mf_sin lm hdg_rad)
            / (fp_lit 111000 1 * mf_cos lm (fp_of_int (sint (g_lat s)) / fp_lit 10000000 1 * fp_lit 314159 100000 / fp_lit 180 1))
      in clamp_position (s\<lparr>g_lat := g_lat s + word_of_int (the (fp_to_sint 32 (dlat * fp_lit 10000000 1))),
           g_lon := g_lon s + word_of_int (the (fp_to_sint 32 (dlon * fp_lit 10000000 1)))\<rparr>))"

definition tick_ground :: "ms \<Rightarrow> sim \<Rightarrow> sim \<times> sim_event list" where
  "tick_ground now s = (if g_alt s = 0 \<and> 0 < g_speed s then (enter_freeze now s, [SimLine ''WARN crash'']) else (s, []))"

definition tick_leds :: "sim \<Rightarrow> sim" where
  "tick_leds s = (if \<not> s_conn s then s
     else if g_warning_active s then s\<lparr>red_led := \<not> red_led s, buzzer_pin := \<not> buzzer_pin s\<rparr>
     else s\<lparr>red_led := False, buzzer_pin := False\<rparr>)"

definition sim_frame :: "ms \<Rightarrow> sim \<Rightarrow> ble_aircraft_frame" where
  "sim_frame now s =
     \<lparr>bf_source = BLE_SRC_BLE_SIM, bf_flags = BLE_FLAG_ALT_VALID OR BLE_FLAG_VEL_VALID OR BLE_FLAG_HDG_VALID,
      bf_icao24 = push_bit 16 (ucast (g_icao ! 0)) OR push_bit 8 (ucast (g_icao ! 1)) OR ucast (g_icao ! 2),
      bf_pad0 = [0, 0, 0, 0], bf_lat = fp_of_int (sint (g_lat s)) / fp_lit 10000000 1,
      bf_lon = fp_of_int (sint (g_lon s)) / fp_lit 10000000 1,
      bf_alt_ft = word_of_int (the (fp_to_sint 16 (fp_of_int (uint (g_alt s)) * fp_lit 328084 100000 :: f32))),
      bf_vel_kt = g_speed s, bf_hdg_deg = g_heading s, bf_reserved = 0, bf_pad1 = 0, bf_ts_ms = word_of_int now\<rparr>"

definition sim_tick :: "libmf \<Rightarrow> ms \<Rightarrow> sim \<Rightarrow> sim \<times> sim_event list" where
  "sim_tick lm now s0 =
     (let feed = (if 0 \<le> g_wdt_channel s0 then [WdtFeed] else []);
          (s1, out1) = (if frozen now s0 then (s0, []) else tick_ground now (tick_move lm (tick_turn s0)));
          s2 = tick_leds s1
      in (s2, feed @ out1 @ position_json s2 @ (if s_conn s2 \<and> s_notif_enabled s2 then [SimNotify (sim_frame now s2)] else [])))"

section \<open>Start\<close>

text \<open>\<open>main\<close>: what the calls return are arguments; the result is its return value.\<close>

definition sim_main :: "bool \<Rightarrow> int \<Rightarrow> int \<Rightarrow> int \<Rightarrow> sim \<Rightarrow> int \<times> sim \<times> sim_event list" where
  "sim_main gpio_ready bt_rc adv_rc wdt s =
     (if \<not> gpio_ready then (- 1, s, [])
      else let s1 = s\<lparr>red_led := True, green_led := False, buzzer_pin := False\<rparr> in
        if bt_rc \<noteq> 0 then (bt_rc, s1, [])
        else if adv_rc \<noteq> 0 then (adv_rc, s1, [AdvStart])
        else (0, s1\<lparr>g_wdt_channel := (if wdt < 0 then - 1 else wdt)\<rparr>, [AdvStart]))"

lemmas sim_defs [sky_eval] = warning_clear_fn_def go_home_def crash_reset_fn_def crc_ok_def text_of_def hex2_def
  enter_freeze_def custom_msg_def warn_frame_def warn_write_def aircraft_ccc_changed_def connected_sim_def disconnected_sim_def
  clamp_position_def process_gui_cmd_def position_json_def cmd_aircraft_set_def cmd_aircraft_wasd_def
  cmd_aircraft_status_def cmd_aircraft_reset_def circle_rate_def cmd_aircraft_circle_def aircraft_cmds_def sim_shell_line_def
  fp_to_uint_def frozen_def
  tick_turn_def tick_move_def tick_ground_def tick_leds_def sim_frame_def sim_tick_def sim_main_def

section \<open>Bounds\<close>

definition in_bounds :: "sim \<Rightarrow> bool" where
  "in_bounds s \<longleftrightarrow> - 278000000 \<le> sint (g_lat s) \<and> sint (g_lat s) \<le> - 270000000
     \<and> 1525000000 \<le> sint (g_lon s) \<and> sint (g_lon s) \<le> 1535000000 \<and> uint (g_alt s) \<le> 15000"

lemma in_bounds_boot: "in_bounds sim_boot"
  by (simp add: in_bounds_def sim_boot_def HOME_LAT_def HOME_LON_def sint32_of_int)

lemma limits [simp]:
  "sint LAT_MIN = - 278000000" "sint LAT_MAX = - 270000000" "sint LON_MIN = 1525000000" "sint LON_MAX = 1535000000"
  "uint ALT_MAX = 15000"
  by (simp_all add: LAT_MIN_def LAT_MAX_def LON_MIN_def LON_MAX_def ALT_MAX_def sint32_of_int)

lemma clamp_in_bounds: "in_bounds (clamp_position s)"
  unfolding clamp_position_def Let_def
  by (simp add: in_bounds_def word_sless_alt word_less_def ALT_MIN_def)

lemma go_home_in_bounds: "in_bounds (go_home s)"
  by (simp add: in_bounds_def go_home_def HOME_LAT_def HOME_LON_def sint32_of_int)

lemma in_bounds_more [simp]:
  "in_bounds (s\<lparr>g_warning_active := b\<rparr>) = in_bounds s" "in_bounds (s\<lparr>g_speed := v\<rparr>) = in_bounds s"
  "in_bounds (s\<lparr>g_heading := h\<rparr>) = in_bounds s" "in_bounds (s\<lparr>g_turn_rate := r\<rparr>) = in_bounds s"
  "in_bounds (s\<lparr>g_hdg_acc := r\<rparr>) = in_bounds s" "in_bounds (s\<lparr>g_frozen_until_ms := t\<rparr>) = in_bounds s"
  "in_bounds (s\<lparr>warning_clear_due := d\<rparr>) = in_bounds s" "in_bounds (s\<lparr>crash_reset_due := d\<rparr>) = in_bounds s"
  "in_bounds (s\<lparr>s_conn := b\<rparr>) = in_bounds s" "in_bounds (s\<lparr>s_notif_enabled := b\<rparr>) = in_bounds s"
  "in_bounds (s\<lparr>red_led := b\<rparr>) = in_bounds s" "in_bounds (s\<lparr>green_led := b\<rparr>) = in_bounds s"
  "in_bounds (s\<lparr>buzzer_pin := b\<rparr>) = in_bounds s"
  by (simp_all add: in_bounds_def)

lemma alt_up_bound: "uint (if ALT_MAX < v then ALT_MAX else v) \<le> 15000"
  by (simp add: word_less_def)

lemma key_in_bounds: "in_bounds s \<Longrightarrow> in_bounds (process_gui_cmd c s)"
  using alt_up_bound [of "g_alt s + 50"]
  by (auto simp: process_gui_cmd_def Let_def go_home_in_bounds)
    (auto simp: in_bounds_def word_less_def word_le_def uint_sub_if')

section \<open>The firmware as a system\<close>

text \<open>
  Everything that can happen to it; a work item runs when its time has come, \<open>SimShell\<close> is one
  command line in words.  The operator's \<open>aircraft set\<close> writes whatever it is given.
\<close>

datatype sim_op = SimTick ms | SimWrite ms "u8 list" | SimCcc u16 | SimConnected bool | SimDisconnected
  | SimClearWork ms | SimResetWork ms | SimShell "string list"

definition run_due :: "ms option \<Rightarrow> ms \<Rightarrow> bool" where
  "run_due due now \<longleftrightarrow> (case due of None \<Rightarrow> False | Some t \<Rightarrow> t \<le> now)"

fun sim_exec :: "libmf \<Rightarrow> sim_op \<Rightarrow> sim \<Rightarrow> sim \<times> sim_event list" where
  "sim_exec lm (SimTick now) s = sim_tick lm now s"
| "sim_exec lm (SimWrite now bs) s = snd (warn_write now bs s)"
| "sim_exec lm (SimCcc v) s = (aircraft_ccc_changed v s, [])"
| "sim_exec lm (SimConnected err) s = (connected_sim err s, [])"
| "sim_exec lm SimDisconnected s = disconnected_sim s"
| "sim_exec lm (SimClearWork now) s =
     (if run_due (warning_clear_due s) now then warning_clear_fn (s\<lparr>warning_clear_due := None\<rparr>) else (s, []))"
| "sim_exec lm (SimResetWork now) s =
     (if run_due (crash_reset_due s) now then crash_reset_fn (s\<lparr>crash_reset_due := None\<rparr>) else (s, []))"
| "sim_exec lm (SimShell ws) s = (case sim_shell_line ws s of None \<Rightarrow> (s, []) | Some (rc, s', out) \<Rightarrow> (s', out))"

definition sim_step :: "libmf \<Rightarrow> sim_op \<Rightarrow> sim \<Rightarrow> sim" where
  [simp]: "sim_step lm x s = fst (sim_exec lm x s)"

fun sim_legal :: "sim_op \<Rightarrow> bool" where
  "sim_legal (SimShell ws) \<longleftrightarrow> take 2 ws \<noteq> [''aircraft'', ''set'']"
| "sim_legal _ \<longleftrightarrow> True"

lemma enter_freeze_in_bounds [simp]: "in_bounds (enter_freeze now s) = in_bounds s"
  by (simp add: enter_freeze_def)

lemma warn_write_in_bounds: "in_bounds s \<Longrightarrow> in_bounds (fst (snd (warn_write now bs s)))"
  by (auto simp: warn_write_def custom_msg_def warn_frame_def Let_def split: option.splits)

lemma tick_in_bounds:
  assumes "in_bounds s \<or> \<not> frozen now s" shows "in_bounds (fst (sim_tick lm now s))"
proof -
  have leds: "in_bounds (tick_leds s) = in_bounds s" for s by (simp add: tick_leds_def)
  have ground: "in_bounds (fst (tick_ground now s)) = in_bounds s" for s by (simp add: tick_ground_def)
  have "in_bounds (tick_move lm s)" for s unfolding tick_move_def Let_def by (rule clamp_in_bounds)
  then show ?thesis using assms leds ground by (auto simp: sim_tick_def Let_def case_prod_unfold)
qed

text \<open>What the words of a command line run.\<close>

lemma sim_shell_cases:
  assumes "sim_shell_line ws s = Some (rc, s', out)"
  obtains "take 2 ws = [''aircraft'', ''set'']"
  | argv where "(rc, s', out) \<in> {cmd_aircraft_wasd argv s, cmd_aircraft_status argv s, cmd_aircraft_reset argv s,
      cmd_aircraft_circle argv s}"
proof -
  obtain h argv where r: "resolve [SHELL_SUB ''aircraft'' aircraft_cmds] ws = Some (h, argv)" and h: "(rc, s', out) = h argv s"
    using assms by (auto simp: sim_shell_line_def split: option.splits)
  show thesis
  proof (cases "take 2 ws = [''aircraft'', ''set'']")
    case False
    obtain ws' where ws: "ws = ''aircraft'' # ws'" "resolve aircraft_cmds ws' = Some (h, argv)"
      using r by (cases ws) (auto split: if_splits)
    have "h \<in> {cmd_aircraft_wasd, cmd_aircraft_status, cmd_aircraft_reset, cmd_aircraft_circle}"
      using ws False by (cases ws') (auto simp: aircraft_cmds_def split: if_splits)
    then show ?thesis using that(2) [of argv] h by auto
  qed (rule that(1))
qed

lemma sim_shell_in_bounds:
  assumes "in_bounds s" "take 2 ws \<noteq> [''aircraft'', ''set'']" "sim_shell_line ws s = Some (rc, s', out)"
  shows "in_bounds s'"
  using assms(3)
proof (cases rule: sim_shell_cases)
  case (2 argv)
  then show ?thesis using assms(1)
    by (auto simp: cmd_aircraft_wasd_def cmd_aircraft_status_def cmd_aircraft_reset_def cmd_aircraft_circle_def
        go_home_in_bounds key_in_bounds Let_def split: if_splits)
qed (use assms(2) in simp)

interpretation sim_sys: op_system sim_boot "sim_step lm" sim_legal in_bounds
proof
  fix s x assume "in_bounds s" "sim_legal x"
  then show "in_bounds (sim_step lm x s)"
    by (cases x) (auto simp: tick_in_bounds warn_write_in_bounds aircraft_ccc_changed_def connected_sim_def
        disconnected_sim_def warning_clear_fn_def crash_reset_fn_def go_home_in_bounds
        intro: sim_shell_in_bounds split: option.split)
qed (rule in_bounds_boot)

section \<open>Towards the controller\<close>

lemma degrees_range:
  assumes "lo * 10000000 \<le> n" "n \<le> hi * 10000000" "\<bar>lo\<bar> \<le> 180" "\<bar>hi\<bar> \<le> 180"
  shows "f64_deg (fp_of_int n / fp_lit 10000000 1) (of_int lo) (of_int hi)"
proof (rule rounds_to_int_range)
  have n: "\<bar>n\<bar> < 2 ^ 53" using assms by simp
  show "rounds_to (fp_of_int n / fp_lit 10000000 1 :: f64) (of_int n / 10000000)"
    using divide_rounds_to [OF good_f64, of "fp_of_int n" "fp_of_int 10000000"] n by (simp add: fp_lit_int)
  have "real_of_int (lo * 10000000) \<le> of_int n" "real_of_int n \<le> of_int (hi * 10000000)"
    using assms(1,2) by (simp_all only: of_int_le_iff)
  then show "of_int lo \<le> real_of_int n / 10000000" "real_of_int n / 10000000 \<le> of_int hi"
    by (simp_all add: pos_le_divide_eq pos_divide_le_eq)
qed (use assms in auto)

lemma sim_frame_accepted:
  assumes "in_bounds s" shows "frame_accepted (sim_frame now s)" "frame_ok (sim_frame now s)"
proof -
  have d: "f64_deg (bf_lat (sim_frame now s)) (- 28) (- 27)" "f64_deg (bf_lon (sim_frame now s)) 152 154"
    using degrees_range [of "- 28" "sint (g_lat s)" "- 27"] degrees_range [of 152 "sint (g_lon s)" 154] assms
    by (simp_all add: sim_frame_def in_bounds_def)
  have "bf_icao24 (sim_frame now s) = 0xDA7705" by (simp add: sim_frame_def g_icao_def)
  then show "frame_accepted (sim_frame now s)"
    using d by (auto simp: frame_accepted_def f64_deg_def sim_frame_def)
  show "frame_ok (sim_frame now s)" using d by (simp add: frame_ok_def f64_deg_def sim_frame_def)
qed

lemma sim_frame_icao: "ac_icao (frame_observation (sim_frame now s)) = ''da7705''"
proof -
  have "bf_icao24 (sim_frame now s) = 0xDA7705" by (simp add: sim_frame_def g_icao_def)
  moreover have "digits_base 16 0xDA7705 = [13, 10, 7, 7, 0, 5]" by (simp add: digits_base.simps)
  ultimately show ?thesis
    by (simp add: frame_observation_def icao_string_def show_hex_def show_base_def digit_char_def pad0_def Let_def)
qed

section \<open>From the controller\<close>

lemma crc_ok_iff: "bs \<noteq> [] \<Longrightarrow> crc_ok bs \<longleftrightarrow> xor_bytes bs = 0"
  unfolding crc_ok_def by (rule xor_bytes_last)

lemma crc_ok_encode: "warning_ok w \<Longrightarrow> crc_ok (warning_encode w) \<longleftrightarrow> xor_bytes (warning_encode w) = 0"
  using warning_encode_ends(1) [of w] by (intro crc_ok_iff) auto

lemma warn_write_frame:
  assumes "warning_ok w" "crc_ok (warning_encode w)" "wf_msg_type w \<noteq> 4"
  shows "warn_write now (warning_encode w) s = (Inr 16, warn_frame now w s)"
proof -
  show ?thesis
    using assms(2,3) warning_encode_ends [OF assms(1)] warning_view_encode [OF assms(1)]
    by (simp add: warn_write_def case_prod_unfold)
qed

text \<open>One wrong byte, and the frame is refused; it is not even looked at when the byte is the type 4.\<close>

lemma corrupted_refused:
  assumes bs: "crc_ok bs" "length bs = BLE_WARNING_FRAME_SIZE" "bs ! 0 \<noteq> 0x04"
    and i: "i < BLE_WARNING_FRAME_SIZE" "b \<noteq> bs ! i"
  shows "warn_write now (bs[i := b]) s =
    (Inl (if i = 0 \<and> b = 0x04 then INVALID_ATTRIBUTE_LEN else VALUE_NOT_ALLOWED), s, [])"
proof -
  have l: "length bs = 16" using bs(2) by (simp add: BLE_WARNING_FRAME_SIZE_def)
  then have ne: "bs \<noteq> []" "bs[i := b] \<noteq> []" by auto
  have "\<not> crc_ok (bs[i := b])"
    unfolding crc_ok_iff [OF ne(2)] using xor_bytes_change [OF _ i(2)] bs(1,2) i(1) crc_ok_iff [OF ne(1)] by simp
  moreover have "bs[i := b] ! 0 = 4 \<longleftrightarrow> i = 0 \<and> b = 4" using l bs(3) by (cases "i = 0") auto
  ultimately show ?thesis using l by (simp add: warn_write_def custom_msg_def)
qed

section \<open>Crash and reset\<close>

definition same_flight :: "sim \<Rightarrow> sim \<Rightarrow> bool" where
  "same_flight s s' \<longleftrightarrow> g_lat s' = g_lat s \<and> g_lon s' = g_lon s \<and> g_alt s' = g_alt s
     \<and> g_speed s' = g_speed s \<and> g_heading s' = g_heading s"

definition at_home :: "sim \<Rightarrow> bool" where
  "at_home s \<longleftrightarrow> g_lat s = HOME_LAT \<and> g_lon s = HOME_LON \<and> g_alt s = 100 \<and> g_speed s = 0 \<and> g_heading s = 0"

text \<open>Crashed until at least \<open>t\<close>: frozen, with the reset scheduled for the end.\<close>

definition crashed_until :: "ms \<Rightarrow> sim \<Rightarrow> bool" where
  "crashed_until t s \<longleftrightarrow> 0 < t \<and> t \<le> g_frozen_until_ms s \<and> crash_reset_due s = Some (g_frozen_until_ms s)"

text \<open>What can happen without the operator, between \<open>t\<close> and ten seconds later.\<close>

fun within_freeze :: "ms \<Rightarrow> sim_op \<Rightarrow> bool" where
  "within_freeze t (SimTick now) = (t \<le> now \<and> now < t + 10000)"
| "within_freeze t (SimWrite now bs) = (t \<le> now \<and> now < t + 10000)"
| "within_freeze t (SimClearWork now) = (t \<le> now \<and> now < t + 10000)"
| "within_freeze t (SimResetWork now) = (t \<le> now \<and> now < t + 10000)"
| "within_freeze t (SimCcc v) = True"
| "within_freeze t (SimConnected err) = True"
| "within_freeze t SimDisconnected = True"
| "within_freeze t _ = False"

lemma frozen_step:
  assumes "crashed_until (t + 10000) s" "same_flight s0 s" "within_freeze t x" "0 \<le> t"
  shows "crashed_until (t + 10000) (sim_step lm x s) \<and> same_flight s0 (sim_step lm x s)"
proof (cases x)
  case (SimTick now)
  then have "frozen now s" using assms by (auto simp: frozen_def crashed_until_def)
  then have "sim_step lm x s = tick_leds s" by (simp add: SimTick sim_tick_def Let_def)
  then show ?thesis using assms(1,2) by (simp add: tick_leds_def crashed_until_def same_flight_def)
next
  case (SimWrite now bs)
  then show ?thesis using assms
    by (auto simp: warn_write_def custom_msg_def warn_frame_def enter_freeze_def crashed_until_def same_flight_def Let_def
        split: option.splits)
next
  case (SimResetWork now)
  then show ?thesis using assms by (auto simp: run_due_def crashed_until_def)
qed (use assms in \<open>auto simp: crashed_until_def same_flight_def aircraft_ccc_changed_def connected_sim_def
    disconnected_sim_def warning_clear_fn_def\<close>)

lemma frozen_run:
  assumes "crashed_until (t + 10000) s" "same_flight s0 s" "\<forall>x \<in> set ops. within_freeze t x" "0 \<le> t"
  shows "crashed_until (t + 10000) (run (sim_step lm) s ops) \<and> same_flight s0 (run (sim_step lm) s ops)"
  using assms(1-3)
proof (induction ops arbitrary: s)
  case (Cons x ops)
  have "crashed_until (t + 10000) (sim_step lm x s) \<and> same_flight s0 (sim_step lm x s)"
    using Cons.prems by (intro frozen_step [OF _ _ _ assms(4)]) simp_all
  with Cons show ?case by simp
qed simp

lemma crash_write:
  assumes "fst (warn_write t bs s) = Inr n" "bs ! 0 = BLE_WARN_MSG_CRASH" "0 \<le> t"
  shows "fst (snd (warn_write t bs s)) = enter_freeze t s"
proof -
  have "length bs = 16" using assms by (auto simp: warn_write_def BLE_WARN_MSG_CRASH_def split: if_splits)
  moreover have "wf_msg_type (warning_view bs) = bs ! 0" if "length bs = 16"
    using that by (simp add: warning_view_def warning_layout_def)
  ultimately show ?thesis using assms
    by (auto simp: warn_write_def BLE_WARN_MSG_CRASH_def warn_frame_def split: if_splits)
qed

lemma freeze_crashed: "0 \<le> t \<Longrightarrow> crashed_until (t + 10000) (enter_freeze t s) \<and> same_flight s (enter_freeze t s)"
  by (simp add: crashed_until_def same_flight_def enter_freeze_def)

lemma reset_after_crash:
  assumes "crashed_until t s"
  shows "at_home (sim_step lm (SimResetWork (g_frozen_until_ms s)) s)"
    "\<not> frozen now (sim_step lm (SimResetWork (g_frozen_until_ms s)) s)"
  using assms by (simp_all add: crashed_until_def run_due_def crash_reset_fn_def go_home_def at_home_def frozen_def)

end
