(* ===== verification/Sim_Gatt.thy ===== *)
theory Sim_Gatt
  imports Sim_Mobile Ble_Central
begin

text \<open>
  How the two boards find each other: what the simulator advertises and the attributes its two
  services put into the GATT database (\<open>codein.c\<close>), against what \<open>ble_central.c\<close> looks for.  The
  search is the Bluetooth stack's, a parameter; \<open>stack_finds\<close> is its documented behaviour:
  attributes have consecutive handles from wherever the stack puts a service, and a search gives
  the first attribute of the kind and UUID in its range of handles, with the handle of a
  characteristic's value, the next one.
\<close>

section \<open>Advertising\<close>

definition MOBILE_ID :: string where [sky_eval]: "MOBILE_ID = SKYWATCH_BLE_DEVICE_NAME"

definition BT_DATA_FLAGS :: u8 where [sky_eval]: "BT_DATA_FLAGS = 1"

definition sim_ad :: "(u8 \<times> string) list" where
  [sky_eval]: "sim_ad = [(BT_DATA_FLAGS, [CHR 0x06]), (BT_DATA_NAME_COMPLETE, MOBILE_ID)]"

lemma sim_ad_name: "parse_name sim_ad = Some SKYWATCH_BLE_DEVICE_NAME"
  by (simp add: sim_ad_def BT_DATA_FLAGS_def BT_DATA_NAME_COMPLETE_def BT_DATA_NAME_SHORTENED_def MOBILE_ID_def
      SKYWATCH_BLE_DEVICE_NAME_def DEVICE_NAME_MAX_def)

section \<open>UUIDs\<close>

text \<open>The arguments of \<open>BT_UUID_128_ENCODE\<close>: on the controller, and on the simulator.\<close>

definition SKYWATCH_BLE_SERVICE_UUID_ENC :: "int list" where
  [sky_eval]: "SKYWATCH_BLE_SERVICE_UUID_ENC = [0x4d8a4011, 0x7f24, 0x43c4, 0x9c5b, 0xa17c7af70001]"

definition SKYWATCH_BLE_AIRCRAFT_UUID_ENC :: "int list" where
  [sky_eval]: "SKYWATCH_BLE_AIRCRAFT_UUID_ENC = [0x4d8a4011, 0x7f24, 0x43c4, 0x9c5b, 0xa17c7af70002]"

definition WARN_SVC_UUID_ENC :: "int list" where
  [sky_eval]: "WARN_SVC_UUID_ENC = [0xab340001, 0x1234, 0x5678, 0xabcd, 0x1234567890ab]"

definition WARN_CHR_UUID_ENC :: "int list" where
  [sky_eval]: "WARN_CHR_UUID_ENC = [0xab340002, 0x1234, 0x5678, 0xabcd, 0x1234567890ab]"

fun uuid_enc :: "bt_uuid \<Rightarrow> int list" where
  "uuid_enc UUID_SKY_SVC = SKYWATCH_BLE_SERVICE_UUID_ENC"
| "uuid_enc UUID_SKY_CHR = SKYWATCH_BLE_AIRCRAFT_UUID_ENC"
| "uuid_enc UUID_WARN_SVC = WARN_SVC_UUID_ENC"
| "uuid_enc UUID_WARN_CHR = WARN_CHR_UUID_ENC"

definition SKY_SVC_UUID :: "int list" where [sky_eval]: "SKY_SVC_UUID = [0x4d8a4011, 0x7f24, 0x43c4, 0x9c5b, 0xa17c7af70001]"
definition SKY_CHR_UUID :: "int list" where [sky_eval]: "SKY_CHR_UUID = [0x4d8a4011, 0x7f24, 0x43c4, 0x9c5b, 0xa17c7af70002]"
definition WARN_SVC_UUID :: "int list" where [sky_eval]: "WARN_SVC_UUID = [0xab340001, 0x1234, 0x5678, 0xabcd, 0x1234567890ab]"
definition WARN_CHR_UUID :: "int list" where [sky_eval]: "WARN_CHR_UUID = [0xab340002, 0x1234, 0x5678, 0xabcd, 0x1234567890ab]"

definition sim_sd :: "int list" where [sky_eval]: "sim_sd = [0x4d8a4011, 0x7f24, 0x43c4, 0x9c5b, 0xa17c7af70001]"

section \<open>The simulator's services\<close>

datatype gatt_attr = GattPrimary "int list" | GattChrc "int list" | GattValue "int list" | GattCcc

text \<open>\<open>BT_GATT_CHARACTERISTIC\<close> declares two attributes, the declaration and the value.\<close>

definition gatt_characteristic :: "int list \<Rightarrow> gatt_attr list" where
  [sky_eval]: "gatt_characteristic uuid = [GattChrc uuid, GattValue uuid]"

definition skywatch_svc :: "gatt_attr list" where
  [sky_eval]: "skywatch_svc = GattPrimary SKY_SVC_UUID # gatt_characteristic SKY_CHR_UUID @ [GattCcc]"

definition warn_svc :: "gatt_attr list" where
  [sky_eval]: "warn_svc = GattPrimary WARN_SVC_UUID # gatt_characteristic WARN_CHR_UUID"

text \<open>A database: the services in the order of their handles, each with that of its first attribute.\<close>

type_synonym gatt_db = "(nat \<times> gatt_attr) list"

definition at_handle :: "nat \<Rightarrow> gatt_attr list \<Rightarrow> gatt_db" where
  [sky_eval]: "at_handle h attrs = zip [h..<h + length attrs] attrs"

text \<open>A service is sought among the primary services, a characteristic among the declarations.\<close>

fun sought :: "bt_uuid \<Rightarrow> gatt_attr" where
  "sought UUID_SKY_SVC = GattPrimary (uuid_enc UUID_SKY_SVC)"
| "sought UUID_SKY_CHR = GattChrc (uuid_enc UUID_SKY_CHR)"
| "sought UUID_WARN_SVC = GattPrimary (uuid_enc UUID_WARN_SVC)"
| "sought UUID_WARN_CHR = GattChrc (uuid_enc UUID_WARN_CHR)"

definition gatt_find :: "gatt_db \<Rightarrow> bt_uuid \<Rightarrow> u16 \<Rightarrow> u16 \<Rightarrow> (u16 \<times> u16) option" where
  [sky_eval]: "gatt_find db u start stop =
     map_option (\<lambda>(h, a). (of_nat h, of_nat (h + 1)))
       (List.find (\<lambda>(h, a). unat start \<le> h \<and> h \<le> unat stop \<and> a = sought u) db)"

section \<open>Discovery\<close>

type_synonym gatt_search = "bt_uuid \<Rightarrow> u16 \<Rightarrow> u16 \<Rightarrow> (u16 \<times> u16) option"

definition stack_finds :: "gatt_db \<Rightarrow> gatt_search \<Rightarrow> bool" where
  "stack_finds db search \<longleftrightarrow> (\<forall>u start stop. search u start stop = gatt_find db u start stop)"

text \<open>
  The stack answers the latest search of the central, which continues in \<open>discover_cb\<close>; the
  calls made so far are kept.
\<close>

fun discovery_round :: "gatt_search \<Rightarrow> ble_central \<times> bt_call list \<Rightarrow> ble_central \<times> bt_call list" where
  "discovery_round search (s, calls) = (case rev calls of
     Discover u start stop # _ \<Rightarrow>
       (let (s', new) = discover_cb (search u start stop) s in (s', calls @ new))
   | _ \<Rightarrow> (s, calls))"

lemma uuids_agree:
  "uuid_enc UUID_SKY_SVC = SKY_SVC_UUID" "uuid_enc UUID_SKY_CHR = SKY_CHR_UUID"
  "uuid_enc UUID_WARN_SVC = WARN_SVC_UUID" "uuid_enc UUID_WARN_CHR = WARN_CHR_UUID" "sim_sd = SKY_SVC_UUID"
  by (simp_all add: SKYWATCH_BLE_SERVICE_UUID_ENC_def SKYWATCH_BLE_AIRCRAFT_UUID_ENC_def WARN_SVC_UUID_ENC_def
      WARN_CHR_UUID_ENC_def SKY_SVC_UUID_def SKY_CHR_UUID_def WARN_SVC_UUID_def WARN_CHR_UUID_def sim_sd_def)

lemma uuids_distinct: "distinct [SKY_SVC_UUID, SKY_CHR_UUID, WARN_SVC_UUID, WARN_CHR_UUID]"
  by (simp add: SKY_SVC_UUID_def SKY_CHR_UUID_def WARN_SVC_UUID_def WARN_CHR_UUID_def)

text \<open>Attributes of other services, which the central does not look for.\<close>

definition foreign :: "gatt_db \<Rightarrow> bool" where
  "foreign db \<longleftrightarrow> (\<forall>(h, a) \<in> set db. \<forall>u. a \<noteq> sought u)"

lemma find_foreign: "foreign db \<Longrightarrow> List.find (\<lambda>(h, a). lo \<le> h \<and> h \<le> hi \<and> a = sought u) db = None"
  by (auto simp: find_None_iff foreign_def)

lemma find_append: "List.find P (xs @ ys) = (case List.find P xs of None \<Rightarrow> List.find P ys | Some x \<Rightarrow> Some x)"
  by (induction xs) auto

lemma services_at:
  "at_handle h skywatch_svc =
     [(h, sought UUID_SKY_SVC), (h + 1, sought UUID_SKY_CHR), (h + 2, GattValue SKY_CHR_UUID), (h + 3, GattCcc)]"
  "at_handle h warn_svc = [(h, sought UUID_WARN_SVC), (h + 1, sought UUID_WARN_CHR), (h + 2, GattValue WARN_CHR_UUID)]"
  using uuids_agree
  by (simp_all add: at_handle_def skywatch_svc_def warn_svc_def gatt_characteristic_def upt_rec)

lemma sought_inj: "sought u = sought v \<longleftrightarrow> u = v"
  using uuids_distinct uuids_agree by (cases u; cases v) auto

lemma sought_other [simp]: "GattValue x \<noteq> sought u" "GattCcc \<noteq> sought u"
  by (cases u, simp_all)+

text \<open>The database of the simulator: its two services in either order, among others.\<close>

definition sim_gatt_db :: "gatt_db \<Rightarrow> nat \<Rightarrow> nat \<Rightarrow> bool" where
  "sim_gatt_db db hs hw \<longleftrightarrow> 1 \<le> hs \<and> hs + 3 < 2 ^ 16 \<and> 1 \<le> hw \<and> hw + 2 < 2 ^ 16
     \<and> (\<exists>pre mid post. foreign pre \<and> foreign mid \<and> foreign post
          \<and> (db = pre @ at_handle hs skywatch_svc @ mid @ at_handle hw warn_svc @ post
           \<or> db = pre @ at_handle hw warn_svc @ mid @ at_handle hs skywatch_svc @ post))"

lemma sim_gatt_find:
  assumes "sim_gatt_db db hs hw"
  shows "gatt_find db UUID_SKY_SVC 1 0xffff = Some (of_nat hs, of_nat (hs + 1))"
    "gatt_find db UUID_SKY_CHR (of_nat hs + 1) 0xffff = Some (of_nat (hs + 1), of_nat (hs + 2))"
    "gatt_find db UUID_WARN_SVC 1 0xffff = Some (of_nat hw, of_nat (hw + 1))"
    "gatt_find db UUID_WARN_CHR (of_nat hw + 1) 0xffff = Some (of_nat (hw + 1), of_nat (hw + 2))"
proof -
  have u: "unat (of_nat h + 1 :: u16) = h + 1" if "h + 2 < 2 ^ 16" for h
  proof -
    have "(of_nat h + 1 :: u16) = of_nat (h + 1)" by simp
    then show ?thesis using that by (simp only: unat_of_nat) simp
  qed
  have c: "unat (1 :: u16) = 1" "unat (0xffff :: u16) = 65535" by simp_all
  show "gatt_find db UUID_SKY_SVC 1 0xffff = Some (of_nat hs, of_nat (hs + 1))"
    "gatt_find db UUID_SKY_CHR (of_nat hs + 1) 0xffff = Some (of_nat (hs + 1), of_nat (hs + 2))"
    "gatt_find db UUID_WARN_SVC 1 0xffff = Some (of_nat hw, of_nat (hw + 1))"
    "gatt_find db UUID_WARN_CHR (of_nat hw + 1) 0xffff = Some (of_nat (hw + 1), of_nat (hw + 2))"
    using assms
    by (auto simp: sim_gatt_db_def gatt_find_def find_append find_foreign services_at sought_inj u c
        simp del: sought.simps uuid_enc.simps)
qed

lemma discovery_round_search:
  "discovery_round search (s, calls @ [Discover u start stop]) =
     (let (s', new) = discover_cb (search u start stop) s in (s', (calls @ [Discover u start stop]) @ new))"
  by simp

text \<open>
  Four answers of the stack take the central from the start of discovery to the subscription to
  positions and the handle to write warnings to.
\<close>

lemma discovery_finds:
  assumes "sim_gatt_db db hs hw" "stack_finds db search"
  shows "(discovery_round search ^^ 4) (start_discovery s) =
    (s\<lparr>g_aircraft_handle := of_nat (hs + 2), g_warn_handle := of_nat (hw + 2), g_disc_state := DISC_WARN_CHR\<rparr>,
     [Discover UUID_SKY_SVC 1 0xffff, Discover UUID_SKY_CHR (of_nat hs + 1) 0xffff,
      Subscribe (of_nat (hs + 2)) (of_nat (hs + 3)), Discover UUID_WARN_SVC 1 0xffff,
      Discover UUID_WARN_CHR (of_nat hw + 1) 0xffff])"
proof -
  define va :: u16 where "va = of_nat (hs + 2)"
  define vw :: u16 where "vw = of_nat (hw + 2)"
  define ha :: u16 where "ha = of_nat (hs + 1)"
  define hc :: u16 where "hc = of_nat (hw + 1)"
  define a0 :: u16 where "a0 = of_nat hs"
  define w0 :: u16 where "w0 = of_nat hw"
  note f = sim_gatt_find [OF assms(1), folded va_def vw_def ha_def hc_def a0_def w0_def]
  have g: "search u start stop = gatt_find db u start stop" for u start stop using assms(2) by (simp add: stack_finds_def)
  have ccc: "(of_nat (hs + 3) :: u16) = va + 1" by (simp add: va_def)
  have four: "(g ^^ 4) x = g (g (g (g x)))" for g :: "'a \<Rightarrow> 'a" and x by (simp add: numeral_eq_Suc)
  have 1: "discovery_round search (start_discovery s) =
      (s\<lparr>g_disc_state := DISC_CHR\<rparr>, [Discover UUID_SKY_SVC 1 0xffff] @ [Discover UUID_SKY_CHR (a0 + 1) 0xffff])"
    using discovery_round_search [of search "s\<lparr>g_disc_state := DISC_SVC\<rparr>" "[]"]
    by (simp add: start_discovery_def discover_cb_def g f)
  have 2: "discovery_round search \<dots> = (s\<lparr>g_aircraft_handle := va, g_disc_state := DISC_WARN_SVC\<rparr>,
      [Discover UUID_SKY_SVC 1 0xffff, Discover UUID_SKY_CHR (a0 + 1) 0xffff, Subscribe va (va + 1)]
      @ [Discover UUID_WARN_SVC 1 0xffff])"
    unfolding discovery_round_search by (simp add: discover_cb_def g f)
  have 3: "discovery_round search \<dots> = (s\<lparr>g_aircraft_handle := va, g_disc_state := DISC_WARN_CHR\<rparr>,
      [Discover UUID_SKY_SVC 1 0xffff, Discover UUID_SKY_CHR (a0 + 1) 0xffff, Subscribe va (va + 1),
       Discover UUID_WARN_SVC 1 0xffff] @ [Discover UUID_WARN_CHR (w0 + 1) 0xffff])"
    unfolding discovery_round_search by (simp add: discover_cb_def g f)
  have 4: "discovery_round search \<dots> = (s\<lparr>g_aircraft_handle := va, g_warn_handle := vw, g_disc_state := DISC_WARN_CHR\<rparr>,
      [Discover UUID_SKY_SVC 1 0xffff, Discover UUID_SKY_CHR (a0 + 1) 0xffff, Subscribe va (va + 1),
       Discover UUID_WARN_SVC 1 0xffff, Discover UUID_WARN_CHR (w0 + 1) 0xffff])"
    unfolding discovery_round_search by (simp add: discover_cb_def g f)
  show ?thesis
    unfolding four 1 2 3 4 ccc by (simp only: va_def vw_def a0_def w0_def)
qed

text \<open>A database with these services only.\<close>

definition two_services :: gatt_db where
  "two_services = at_handle 16 skywatch_svc @ at_handle 20 warn_svc"

lemma two_services_db: "sim_gatt_db two_services 16 20"
proof -
  have "two_services = [] @ at_handle 16 skywatch_svc @ [] @ at_handle 20 warn_svc @ []" "foreign []"
    by (simp_all add: foreign_def two_services_def)
  then show ?thesis unfolding sim_gatt_db_def by (intro conjI exI [of _ "[]"]) simp_all
qed

end
