(* ===== verification/Collision_Crash.thy ===== *)
theory Collision_Crash
  imports Collision_Tracker_Correct
begin

text \<open>
  How a pair that is tracked below CRASH enters CRASH in a whole tick of the detector: no other
  pair of the tick touches its entry, what is sent is never taken back, and the entry is locked
  and survives the sweep.
\<close>

section \<open>What the other pairs leave alone\<close>

lemma distinct_find_index: "distinct ks \<Longrightarrow> k < length ks \<Longrightarrow> find_index (\<lambda>x. x = ks ! k) ks = Some k"
  using find_index_Some [of "\<lambda>x. x = ks ! k" ks] find_index_None [of "\<lambda>x. x = ks ! k" ks]
  by (cases "find_index (\<lambda>x. x = ks ! k) ks") (auto simp: nth_eq_iff_index_eq)

text \<open>Every pair of the tick has its own key.\<close>

definition keys_apart :: "('a snap_row \<times> 'a snap_row) list \<Rightarrow> bool" where
  "keys_apart ps \<longleftrightarrow> distinct (map key_of ps)"

lemma key_of_short: "short_icaos ab \<Longrightarrow> length (fst (key_of ab)) \<le> 6 \<and> length (snd (key_of ab)) \<le> 6"
  by (auto simp: short_icaos_def key_of_def pair_key_def)

lemma key_of_set: "key_of ab = key_of cd \<Longrightarrow> {sr_icao (fst ab), sr_icao (snd ab)} = {sr_icao (fst cd), sr_icao (snd cd)}"
  by (auto simp: key_of_def pair_key_def split: if_splits)

lemma row_pairs_apart: "distinct (map sr_icao rows) \<Longrightarrow> keys_apart (row_pairs rows)"
proof (induction rows)
  case (Cons r rs)
  have new: "key_of (r, x) \<notin> key_of ` set (row_pairs rs)" if "x \<in> set rs" for x
  proof
    assume "key_of (r, x) \<in> key_of ` set (row_pairs rs)"
    then obtain cd where that: "key_of (r, x) = key_of cd" "cd \<in> set (row_pairs rs)" by blast
    from key_of_set [OF that(1)] have "sr_icao r \<in> {sr_icao (fst cd), sr_icao (snd cd)}" by auto
    moreover have "fst cd \<in> set rs" "snd cd \<in> set rs" using row_pairs_subset [OF that(2)] by auto
    ultimately show False using Cons.prems by (auto simp: image_iff)
  qed
  have "distinct (map key_of (map (Pair r) (filter sr_v_valid rs)))"
  proof -
    have "inj_on (\<lambda>x. key_of (r, x)) (set rs)"
    proof (rule inj_onI)
      fix x y assume xy: "x \<in> set rs" "y \<in> set rs" "key_of (r, x) = key_of (r, y)"
      then have "sr_icao x = sr_icao y" using key_of_set [OF xy(3)] Cons.prems by (auto simp: doubleton_eq_iff)
      then show "x = y" using Cons.prems xy by (auto simp: distinct_map inj_on_def)
    qed
    then show ?thesis using Cons.prems
      by (auto simp: distinct_map comp_def intro: inj_on_subset)
  qed
  moreover have "set (map key_of (map (Pair r) (filter sr_v_valid rs))) \<inter> set (map key_of (row_pairs rs)) = {}"
    using new unfolding disjoint_iff by (auto simp del: split_paired_All split_paired_Ex) (metis image_eqI)
  ultimately show ?case using Cons by (simp add: keys_apart_def del: map_map set_map)
qed (simp add: keys_apart_def)

lemma pair_step_other:
  assumes "k < length (tracked s)" "short_icaos ab" "key_of ab \<noteq> tp_key (tracked s ! k)"
  shows "k < length (tracked (pair_step lm conn now db s ab))
    \<and> tracked (pair_step lm conn now db s ab) ! k = tracked s ! k"
proof -
  have "j \<noteq> k" if "find_tracked (fst (key_of ab)) (snd (key_of ab)) (tracked s) = Some j" for j
  proof
    assume "j = k"
    have f: "find_index (\<lambda>t. tp_key t = key_of ab) (tracked s) = Some j"
      using that key_of_short [OF assms(2)] find_tracked_key [of "fst (key_of ab)" "snd (key_of ab)"] by simp
    show False using find_index_Some [OF f] assms(3) \<open>j = k\<close> by simp
  qed
  then show ?thesis using pair_step_tracked [of lm conn now db s ab] assms(1)
    by (auto simp: reworked_def nth_append nth_list_update)
qed

lemma fold_others:
  assumes "k < length (tracked s)" "\<forall>ab \<in> set ps. short_icaos ab \<and> key_of ab \<noteq> tp_key (tracked s ! k)"
  shows "k < length (tracked (foldl (pair_step lm conn now db) s ps))
    \<and> tracked (foldl (pair_step lm conn now db) s ps) ! k = tracked s ! k"
  using assms
proof (induction ps arbitrary: s)
  case (Cons ab ps)
  then show ?case using pair_step_other [of k s ab lm conn now db] by simp
qed simp

section \<open>What is sent stays sent\<close>

definition sent :: "col_event \<Rightarrow> tick \<Rightarrow> bool" where
  "sent e s \<longleftrightarrow> e \<in> set (tk_out s)"

lemma sent_more [simp]:
  "sent e (mark_seen k s) = sent e s" "sent e (count_level l s) = sent e s" "sent e (stop_impactor lo hi s) = sent e s"
  "sent e (s\<lparr>tk_col := c\<rparr>) = sent e s" "sent e (s\<lparr>tk_pairs := n\<rparr>) = sent e s"
  by (simp_all add: sent_def)

lemma sent_send: "sent e s \<Longrightarrow> sent e (send_events es s)"
  by (simp add: sent_def)

lemma sent_emit: "sent e s \<Longrightarrow> sent e (emit_collision now lo hi lvl a d s)"
  by (auto simp: sent_def emit_collision_def Let_def)

lemma sent_record: "sent e s \<Longrightarrow> sent e (snd (snd (record_pair now lo hi lvl app tk s)))"
  by (auto simp: record_pair_def Let_def intro!: sent_emit split: option.splits)

lemma sent_alert: "sent e s \<Longrightarrow> sent e (alert_pair lm conn now db a b lvl tk s)"
proof -
  assume s: "sent e s"
  obtain lo hi where key: "pair_key (sr_icao a) (sr_icao b) = (lo, hi)" by fastforce
  obtain tp prev s1 where r: "record_pair now lo hi lvl (closest_approach (f64_num lm) a b) tk (count_level lvl s) = (tp, prev, s1)"
    using prod_cases3 by blast
  have "sent e s1" using sent_record [of e "count_level lvl s"] s r by (metis sent_more(2) snd_conv)
  then show ?thesis
    by (auto simp: alert_pair_def key r Let_def enter_crash_def send_to_sim_def intro!: sent_send
        split: option.splits prod.splits)
qed

lemma sent_pair: "sent e s \<Longrightarrow> sent e (pair_step lm conn now db s ab)"
  by (auto simp: pair_step_def Let_def intro!: sent_alert split: prod.splits)

lemma sent_fold: "sent e s \<Longrightarrow> sent e (foldl (pair_step lm conn now db) s ps)"
  by (induction ps arbitrary: s) (simp_all add: sent_pair)

lemma sent_sweep: "sent e s \<Longrightarrow> sent e (clear_sweep now n s)"
  by (induction n arbitrary: s) (simp_all add: Let_def sent_emit)

section \<open>The tick\<close>

text \<open>The pair was tracked below CRASH and not locked, or it is new and the table has room.\<close>

definition crash_is_new :: "libm \<Rightarrow> aircraft_db \<Rightarrow> ms \<Rightarrow> string \<times> string \<Rightarrow> collision \<Rightarrow> bool" where
  "crash_is_new lm db now key c \<longleftrightarrow> (case List.find (\<lambda>t. tp_key t = key) (c_tracked c) of
     Some t \<Rightarrow> tp_level t \<noteq> COLLISION_CRASH \<and> \<not> now < tp_crash_until_ms t
   | None \<Rightarrow> card (set (keys_of (c_tracked c)) \<union> conflict_keys lm (row_pairs (snapshot lm db))) \<le> MAX_TRACKED)"

lemma seen_entry_kept:
  fixes conn :: bool and now :: ms and m :: missile
  assumes dist: "distinct (keys_of (tracked (after_pairs lm conn now db c m)))"
    and j: "j < length (tracked (after_pairs lm conn now db c m))"
    and seen: "tp_key (tracked (after_pairs lm conn now db c m) ! j) \<in>
      seen_keys (keys_of (tracked (after_pairs lm conn now db c m))) (tk_seen (after_pairs lm conn now db c m))"
  shows "tracked (after_pairs lm conn now db c m) ! j \<in> set (c_tracked (fst (work_handler lm conn now db (c, m))))"
proof -
  let ?s = "after_pairs lm conn now db c m"
  let ?ks = "keys_of (tracked ?s)"
  obtain i where i: "i < length ?ks" "tk_seen ?s ! i" "tp_key (tracked ?s ! j) = ?ks ! i"
    using seen by (auto simp: seen_keys_def)
  then have "?ks ! j = ?ks ! i" "j < length ?ks" using j by (simp_all add: keys_of_def)
  then have "j = i" using dist i(1) nth_eq_iff_index_eq by metis
  moreover have "c_tracked (fst (work_handler lm conn now db (c, m))) =
      nths (tracked ?s) {j. length (tracked ?s) \<le> j \<or> tk_seen ?s ! j}"
    unfolding work_handler_tracked by (rule clear_sweep_tracked) simp
  ultimately show ?thesis using i(2) j by (auto simp: set_nths)
qed

lemma db_pairs_apart:
  assumes "db_short db" shows "keys_apart (row_pairs (snapshot lm db))"
proof (rule row_pairs_apart)
  have rows: "db_inv db" "icaos_short db" using assms by (simp_all add: db_short_def)
  then have "length (db_rows db) \<le> AIRCRAFT_DB_MAX_ENTRIES" "distinct (row_keys (db_rows db))"
    by (simp_all add: db_inv_def rows_ok_def)
  moreover have "map sr_icao (map (row_of lm) (db_rows db)) = row_keys (db_rows db)"
    using rows(2) by (auto simp: row_keys_def row_of_def icaos_short_def ac_key_def AIRCRAFT_ICAO_BUF_LEN_def split: prod.splits)
  ultimately show "distinct (map sr_icao (snapshot lm db))" by (simp only: snapshot_rows)
qed

text \<open>When the loop comes to the pair, the table is as \<open>crash_is_new\<close> says.\<close>

lemma crash_new_at_pair:
  fixes m :: missile and conn :: bool
  assumes new: "crash_is_new lm db now (key_of ab) c" and inv: "col_inv c"
    and pq: "row_pairs (snapshot lm db) = p @ ab # q" and conf: "in_conflict lm ab"
    and short: "\<forall>x \<in> set p. short_icaos x" "short_icaos ab" and apart: "key_of ab \<notin> key_of ` set p"
  defines "s1 \<equiv> foldl (pair_step lm conn now db) (tick_start c m) p"
  shows "case find_tracked (fst (key_of ab)) (snd (key_of ab)) (tracked s1) of
        Some k \<Rightarrow> tp_level (tracked s1 ! k) \<noteq> COLLISION_CRASH \<and> \<not> now < tp_crash_until_ms (tracked s1 ! k)
      | None \<Rightarrow> length (tracked s1) < MAX_TRACKED"
proof -
  have start: "tick_inv (tick_start c m)" using inv by (simp add: tick_inv_def col_inv_def)
  note f = fold_pairs_keys [OF start short(1), where conn = conn and now = now and db = db and lm = lm, folded s1_def]
  have tick1: "tick_inv s1" using f by simp
  have find: "find_tracked (fst (key_of ab)) (snd (key_of ab)) (tracked s1) = find_index (\<lambda>k. k = key_of ab) (keys_of (tracked s1))"
    using key_of_short [OF short(2)] by (simp add: find_tracked_key find_key_index)
  show ?thesis
  proof (cases "List.find (\<lambda>t. tp_key t = key_of ab) (c_tracked c)")
    case (Some t)
    obtain k where k: "k < length (c_tracked c)" "c_tracked c ! k = t" "tp_key t = key_of ab"
      using Some by (auto simp: find_Some_iff)
    have others: "\<forall>x \<in> set p. short_icaos x \<and> key_of x \<noteq> tp_key (tracked (tick_start c m) ! k)"
      using short(1) apart k by (auto simp: image_iff)
    have 1: "k < length (tracked s1)" "tracked s1 ! k = t"
      using fold_others [OF _ others, of lm conn now db] k by (simp_all add: s1_def)
    have "find_index (\<lambda>x. x = key_of ab) (keys_of (tracked s1)) = Some k"
      using distinct_find_index [of "keys_of (tracked s1)" k] tick1 1 k(3) by (simp add: tick_inv_def keys_of_def)
    then show ?thesis using new Some 1 by (simp add: find crash_is_new_def)
  next
    case None
    let ?conf = "conflict_keys lm (row_pairs (snapshot lm db))" and ?ks = "keys_of (tracked s1)"
    have fk: "fold_keys lm p (keys_of (c_tracked c), replicate MAX_TRACKED False) = (?ks, tk_seen s1)" using f by simp
    have "flags_ok (keys_of (c_tracked c)) (replicate MAX_TRACKED False)"
      using inv by (simp add: flags_ok_def col_inv_def keys_of_def)
    from fold_keys_result(3) [OF this fk] have sub: "set ?ks \<subseteq> set (keys_of (c_tracked c)) \<union> conflict_keys lm p" .
    have old: "key_of ab \<notin> set (keys_of (c_tracked c))" using None by (auto simp: keys_of_def find_None_iff)
    have notin: "key_of ab \<notin> set ?ks" using sub old apart by (auto simp: conflict_keys_def)
    have "conflict_keys lm p \<subseteq> ?conf" "key_of ab \<in> ?conf" using conf by (auto simp: conflict_keys_def pq)
    then have "set ?ks \<subset> set (keys_of (c_tracked c)) \<union> ?conf" using sub notin by blast
    then have "card (set ?ks) < card (set (keys_of (c_tracked c)) \<union> ?conf)"
      by (rule psubset_card_mono [rotated]) (simp add: conflict_keys_def)
    then have "length (tracked s1) < MAX_TRACKED"
      using new None tick1 distinct_card [of ?ks] by (simp add: crash_is_new_def tick_inv_def keys_of_def)
    then show ?thesis using notin find_index_Some [of "\<lambda>k. k = key_of ab" ?ks]
      by (auto simp: find split: option.split) (metis nth_mem)+
  qed
qed

text \<open>
  A pair computed at CRASH by this tick, new at that level: afterwards its entry is at CRASH and
  locked for 15 seconds, and with the link up the simulator has been sent the CRASH frame.
\<close>

lemma crash_seen:
  assumes inv: "col_inv c" and db: "db_short db" and ab: "(a, b) \<in> set (row_pairs (snapshot lm db))"
    and conf: "in_conflict lm (a, b)" and new: "crash_is_new lm db now (key_of (a, b)) c"
  shows "tick_inv (after_pairs lm conn now db c m)"
    "key_of (a, b) \<in> seen_keys (keys_of (tracked (after_pairs lm conn now db c m))) (tk_seen (after_pairs lm conn now db c m))"
proof -
  let ?ps = "row_pairs (snapshot lm db)" and ?s = "after_pairs lm conn now db c m"
  have start: "tick_inv (tick_start c m)" using inv by (simp add: tick_inv_def col_inv_def)
  note f = fold_pairs_keys [OF start short_pairs [OF db, of lm], where conn = conn and now = now and db = db and lm = lm,
      folded after_pairs_def]
  show "tick_inv ?s" using f by simp
  have fk: "fold_keys lm ?ps (keys_of (c_tracked c), replicate MAX_TRACKED False) = (keys_of (tracked ?s), tk_seen ?s)"
    using f by simp
  have "flags_ok (keys_of (c_tracked c)) (replicate MAX_TRACKED False)"
    using inv by (simp add: flags_ok_def col_inv_def keys_of_def)
  note seen = fold_keys_result(5,6) [OF this fk]
  have ck: "key_of (a, b) \<in> conflict_keys lm ?ps" using conf ab by (force simp: conflict_keys_def)
  show "key_of (a, b) \<in> seen_keys (keys_of (tracked ?s)) (tk_seen ?s)"
  proof (cases "List.find (\<lambda>t. tp_key t = key_of (a, b)) (c_tracked c)")
    case None
    then show ?thesis using seen(1) new ck by (simp add: crash_is_new_def)
  next
    case (Some t)
    then have "key_of (a, b) \<in> set (keys_of (c_tracked c))" by (auto simp: find_Some_iff keys_of_def) (metis image_eqI nth_mem)
    then show ?thesis using seen(2) ck by blast
  qed
qed

lemma crash_tick_result:
  fixes conn :: bool and now :: ms and m :: missile
  assumes inv: "col_inv c" and db: "db_short db"
    and ab: "(a, b) \<in> set (row_pairs (snapshot lm db))" and lvl: "pair_level (f64_num lm) a b = COLLISION_CRASH"
    and new: "crash_is_new lm db now (key_of (a, b)) c"
  shows "\<exists>t \<in> set (c_tracked (fst (work_handler lm conn now db (c, m)))).
      tp_key t = key_of (a, b) \<and> tp_level t = COLLISION_CRASH \<and> tp_crash_until_ms t = now + 15000"
    and "conn \<Longrightarrow> BleSend (crash_frame now (crash_other (sim_side_of db a b) (fst (key_of (a, b))) a b))
      \<in> set (snd (snd (work_handler lm conn now db (c, m))))"
proof -
  let ?ps = "row_pairs (snapshot lm db)" and ?step = "pair_step lm conn now db"
  let ?s = "after_pairs lm conn now db c m"
  let ?e = "BleSend (crash_frame now (crash_other (sim_side_of db a b) (fst (key_of (a, b))) a b))"
  have short: "\<forall>ab \<in> set ?ps. short_icaos ab" using short_pairs [OF db] .
  obtain p q where pq: "?ps = p @ (a, b) # q" using ab by (meson split_list)
  have conf: "in_conflict lm (a, b)" by (simp add: in_conflict_def lvl)
  have apart: "key_of (a, b) \<notin> key_of ` set p" using db_pairs_apart [OF db, of lm] unfolding pq keys_apart_def by auto
  define s1 where "s1 = foldl ?step (tick_start c m) p"
  define s2 where "s2 = ?step s1 (a, b)"
  have s: "?s = foldl ?step s2 q" by (simp add: after_pairs_def pq s1_def s2_def)
  obtain lo hi where key: "pair_key (sr_icao a) (sr_icao b) = (lo, hi)" by fastforce
  have ko: "key_of (a, b) = (lo, hi)" by (simp add: key_of_def key)
  have sh: "length lo \<le> 6" "length hi \<le> 6" using key_of_short [of "(a, b)"] short ab ko by auto
  have p: "\<forall>x \<in> set p. short_icaos x" "short_icaos (a, b)" using short by (simp_all add: pq)
  note tk = crash_new_at_pair [OF new inv pq conf p apart, of conn m, folded s1_def, unfolded ko fst_conv snd_conv]
  note c = crash_entered [OF key lvl sh tk, of conn db, folded s2_def]
  show "conn \<Longrightarrow> ?e \<in> set (snd (snd (work_handler lm conn now db (c, m))))"
  proof -
    assume conn
    from c(2) [OF this] have "sent ?e s2" by (simp add: sent_def ko)
    then have "sent ?e (clear_sweep now (length (tracked ?s)) ?s)" unfolding s by (intro sent_sweep sent_fold)
    then show ?thesis by (simp add: sent_def work_handler_def Let_def tick_finish_def after_pairs_def tracked_def)
  qed
  obtain t where t: "t \<in> set (tracked s2)" "tp_key t = (lo, hi)" "tp_level t = COLLISION_CRASH" "tp_crash_until_ms t = now + 15000"
    using c(1) by blast
  obtain j where j: "j < length (tracked s2)" "tracked s2 ! j = t" using t(1) by (auto simp: in_set_conv_nth)
  have e: "j < length (tracked ?s)" "tracked ?s ! j = t"
    using locked_entry_fold [OF j(1), of now lm conn db q] j t(4) by (simp_all add: s)
  note f = crash_seen [OF inv db ab conf new, of conn m]
  have "t \<in> set (c_tracked (fst (work_handler lm conn now db (c, m))))"
    using seen_entry_kept [of lm conn now db c m j] f e t(2) by (simp add: tick_inv_def ko)
  then show "\<exists>t \<in> set (c_tracked (fst (work_handler lm conn now db (c, m)))).
      tp_key t = key_of (a, b) \<and> tp_level t = COLLISION_CRASH \<and> tp_crash_until_ms t = now + 15000"
    using t ko by auto
qed

end
