(* ===== verification/World.thy ===== *)
theory World
  imports System Sim_Gatt Collision_Crash
begin

text \<open>
  The two boards together: the controller, the simulator, and between them the notifications
  and the writes that are in the air, each first in first out.  Every board does what it does
  in any order; a notification or a write arrives when its board gets to it, or is lost.
\<close>

section \<open>The two boards and the air\<close>

text \<open>
  A write in the air goes to a handle.  \<open>w_warn\<close> is where the simulator's stack has put the value
  of the warning characteristic: a write to it runs \<open>warn_write\<close>, one to another handle does not.
\<close>

record ('q, 'r) world =
  w_ctl :: "('q, 'r) controller"
  w_sim :: sim
  w_up :: "u8 list list"
  w_down :: "(u16 \<times> u8 list) list"
  w_warn :: u16

text \<open>
  \<open>WLose n m\<close> loses the next \<open>n\<close> notifications and \<open>m\<close> writes (all of them when the link drops).
\<close>

datatype world_op = WCtl ct_op | WSim sim_op | WNotify | WWrite ms | WLose nat nat

definition radio_writes :: "ct_out list \<Rightarrow> (u16 \<times> u8 list) list" where
  "radio_writes out = concat (map (\<lambda>e. case e of OutBt (WriteNoRsp h bs) \<Rightarrow> [(h, bs)] | _ \<Rightarrow> []) out)"

definition radio_notifies :: "sim_event list \<Rightarrow> u8 list list" where
  "radio_notifies out = concat (map (\<lambda>e. case e of SimNotify f \<Rightarrow> [sim_frame_bytes f] | _ \<Rightarrow> []) out)"

fun world_step :: "('q, 'r) environment \<Rightarrow> libmf \<Rightarrow> world_op \<Rightarrow> ('q, 'r) world \<Rightarrow> ('q, 'r) world" where
  "world_step en lm (WCtl x) w =
     (let (c, out) = ct_exec en x (w_ctl w) in w\<lparr>w_ctl := c, w_down := w_down w @ radio_writes out\<rparr>)"
| "world_step en lm (WSim x) w =
     (let (s, out) = sim_exec lm x (w_sim w) in w\<lparr>w_sim := s, w_up := w_up w @ radio_notifies out\<rparr>)"
| "world_step en lm WNotify w = (case w_up w of [] \<Rightarrow> w
     | bs # rest \<Rightarrow> w\<lparr>w_ctl := ct_step en (OpNotify (Some bs)) (w_ctl w), w_up := rest\<rparr>)"
| "world_step en lm (WWrite now) w = (case w_down w of [] \<Rightarrow> w
     | (h, bs) # rest \<Rightarrow> w\<lparr>w_sim := (if h = w_warn w then sim_step lm (SimWrite now bs) (w_sim w) else w_sim w),
         w_down := rest\<rparr>)"
| "world_step en lm (WLose n m) w = w\<lparr>w_up := drop n (w_up w), w_down := drop m (w_down w)\<rparr>"

text \<open>
  On the air are only the two boards: bytes come to a board through \<open>WNotify\<close> and \<open>WWrite\<close>.  The
  operator's \<open>aircraft set\<close> is left out, as in \<open>sim_legal\<close>.
\<close>

fun world_legal :: "world_op \<Rightarrow> bool" where
  "world_legal (WCtl x) \<longleftrightarrow> op_clock_ok x \<and> (\<forall>bs. x \<noteq> OpNotify (Some bs))"
| "world_legal (WSim x) \<longleftrightarrow> sim_legal x \<and> (\<forall>now bs. x \<noteq> SimWrite now bs)"
| "world_legal _ \<longleftrightarrow> True"

section \<open>The protocol\<close>

definition up_ok :: "u8 list \<Rightarrow> bool" where
  "up_ok bs \<longleftrightarrow> (\<exists>f. bs = frame_encode f \<and> frame_ok f \<and> frame_accepted f)"

definition down_ok :: "u8 list \<Rightarrow> bool" where
  "down_ok bs \<longleftrightarrow> (\<exists>w. bs = warning_encode w \<and> warning_ok w \<and> crc_ok bs
     \<and> wf_msg_type w \<in> {BLE_WARN_MSG_COLLISION, BLE_WARN_MSG_DIVERSION, BLE_WARN_MSG_CRASH})"

text \<open>The controller has never had to refuse anything that came over the air.\<close>

definition none_refused :: "('q \<Rightarrow> ble_aircraft_frame list) \<Rightarrow> ('q, 'r) controller \<Rightarrow> bool" where
  "none_refused qc s \<longleftrightarrow> bcs_bad_length (g_stats (ct_ble s)) = 0 \<and> list_all frame_accepted (qc (br_msgq (ct_bridge s)))
     \<and> bs_rej_source (br_stats (ct_bridge s)) = 0 \<and> bs_rej_icao (br_stats (ct_bridge s)) = 0
     \<and> bs_rej_latlon (br_stats (ct_bridge s)) = 0"

definition world_inv ::
  "('q \<Rightarrow> ble_aircraft_frame list) \<Rightarrow> ('r \<Rightarrow> string) \<Rightarrow> ('q, 'r) world \<Rightarrow> bool" where
  "world_inv qc rc w \<longleftrightarrow> controller_inv qc rc (w_ctl w) \<and> none_refused qc (w_ctl w) \<and> in_bounds (w_sim w)
     \<and> list_all up_ok (w_up w) \<and> list_all (\<lambda>p. down_ok (snd p)) (w_down w)"

section \<open>What the boards send\<close>

definition writes_ok :: "ct_out list \<Rightarrow> bool" where
  "writes_ok out \<longleftrightarrow> list_all (\<lambda>p. down_ok (snd p)) (radio_writes out)"

lemma radio_writes_simps [simp]:
  "radio_writes [] = []" "radio_writes (OutUsb l # out) = radio_writes out"
  "radio_writes (OutPrint l # out) = radio_writes out" "radio_writes (OutError l # out) = radio_writes out"
  "radio_writes (OutBt (WriteNoRsp h bs) # out) = (h, bs) # radio_writes out"
  "radio_writes (out @ out') = radio_writes out @ radio_writes out'" "radio_writes (map OutPrint ls) = []"
  by (simp_all add: radio_writes_def comp_def)

lemma writes_ok_simps [simp]:
  "writes_ok []" "writes_ok (OutUsb l # out) = writes_ok out"
  "writes_ok (OutPrint l # out) = writes_ok out" "writes_ok (OutError l # out) = writes_ok out"
  "writes_ok (out @ out') \<longleftrightarrow> writes_ok out \<and> writes_ok out'" "writes_ok (map OutPrint ls)"
  by (simp_all add: writes_ok_def)

lemma deliver_ok:
  assumes "\<forall>e \<in> set es. event_ok conn e" shows "writes_ok (concat (map (deliver rc ready dtr ble) es))"
  using assms
proof (induction es)
  case (Cons e es)
  then show ?case
    by (cases e) (auto simp: writes_ok_def ble_central_send_warning_def down_ok_def crc_ok_encode)
qed simp

text \<open>The calls of the link's callbacks write nothing, and the bad-length counter is the notification's.\<close>

definition no_writes :: "bt_call list \<Rightarrow> bool" where
  "no_writes cs \<longleftrightarrow> (\<forall>c \<in> set cs. \<forall>h bs. c \<noteq> WriteNoRsp h bs)"

lemma no_writes_ok: "no_writes cs \<Longrightarrow> writes_ok (map OutBt cs)"
  by (induction cs) (auto simp: no_writes_def writes_ok_def radio_writes_def split: bt_call.split)

definition link_only :: "(ble_central \<Rightarrow> ble_central \<times> bt_call list) \<Rightarrow> bool" where
  "link_only f \<longleftrightarrow> (\<forall>s. bcs_bad_length (g_stats (fst (f s))) = bcs_bad_length (g_stats s) \<and> no_writes (snd (f s)))"

lemma link_callbacks:
  "link_only (ble_central_scan_start r)" "link_only ble_central_scan_stop" "link_only (device_found r now addr type ad)"
  "link_only (connected_cb r err)" "link_only (disconnected_cb r)" "link_only mtu_exchange_cb"
  "link_only (discover_cb attr)" "link_only (watchdog r now)"
proof -
  note [simp] = link_only_def no_writes_def
  show start: "link_only (ble_central_scan_start r)" for r by (simp add: ble_central_scan_start_def)
  show "link_only ble_central_scan_stop" by (simp add: ble_central_scan_stop_def)
  have conn: "link_only (do_connect r now addr)"
    by (auto simp: do_connect_def ble_central_scan_start_def Let_def)
  show "link_only (device_found r now addr type ad)"
    unfolding link_only_def
  proof
    fix s show "bcs_bad_length (g_stats (fst (device_found r now addr type ad s))) = bcs_bad_length (g_stats s)
        \<and> no_writes (snd (device_found r now addr type ad s))"
      by (rule device_found_cases [of r now addr type ad s]) (use conn in \<open>simp_all add: link_only_def\<close>)
  qed
  show "link_only (connected_cb r err)" using start
    by (auto simp: connected_cb_def start_discovery_def ble_central_scan_start_def Let_def)
  show "link_only (disconnected_cb r)" by (auto simp: disconnected_cb_def ble_central_scan_start_def)
  show "link_only mtu_exchange_cb" by (simp add: mtu_exchange_cb_def start_discovery_def)
  show "link_only (discover_cb attr)" by (auto simp: discover_cb_def split: option.split disc_state.split)
  show "link_only (watchdog r now)" using start by (auto simp: watchdog_def)
qed

lemma crc_ok_with_crc:
  assumes "warning_ok w" shows "warning_ok (with_crc w) \<and> crc_ok (warning_encode (with_crc w))"
  using with_crc_ok [OF assms] crc_ok_encode by blast

section \<open>The controller\<close>

lemma none_refused_cong:
  "bcs_bad_length (g_stats (ct_ble s')) = bcs_bad_length (g_stats (ct_ble s)) \<Longrightarrow> ct_bridge s' = ct_bridge s
     \<Longrightarrow> none_refused qc s' = none_refused qc s"
  by (simp add: none_refused_def)

definition step_sound ::
  "('q \<Rightarrow> ble_aircraft_frame list) \<Rightarrow> ('q, 'r) controller \<Rightarrow> ('q, 'r) controller \<times> ct_out list \<Rightarrow> bool" where
  "step_sound qc s r \<longleftrightarrow> (none_refused qc s \<longrightarrow> none_refused qc (fst r)) \<and> writes_ok (snd r)"

text \<open>A step that leaves the bridge and the link's counters alone.\<close>

lemma step_sound_quiet:
  "bcs_bad_length (g_stats (ct_ble s')) = bcs_bad_length (g_stats (ct_ble s)) \<Longrightarrow> ct_bridge s' = ct_bridge s
     \<Longrightarrow> writes_ok out \<Longrightarrow> step_sound qc s (s', out)"
  using none_refused_cong [of s' s qc] by (simp add: step_sound_def)

lemma ble_sound: "link_only f \<Longrightarrow> step_sound qc s (on_ble f s)"
  unfolding on_ble_def case_prod_unfold Let_def
  by (rule step_sound_quiet) (simp_all add: link_only_def no_writes_ok)

lemma ble_print_sound: "link_only f \<Longrightarrow> step_sound qc s (fst (on_ble f s), snd (on_ble f s) @ [OutPrint l])"
  using ble_sound [of f qc s] by (simp add: step_sound_def)

definition cmd_sound :: "('q \<Rightarrow> ble_aircraft_frame list) \<Rightarrow> ('q, 'r) command \<Rightarrow> bool" where
  "cmd_sound qc h \<longleftrightarrow> (\<forall>argv s. step_sound qc s (snd (h argv s)))"

lemma read_only_sound: "read_only h \<Longrightarrow> cmd_sound qc h"
proof -
  assume h: "read_only h"
  have "writes_ok out" if "list_all (\<lambda>e. case e of OutPrint l \<Rightarrow> True | OutError l \<Rightarrow> True | _ \<Rightarrow> False) out" for out
    using that by (induction out) (auto split: ct_out.splits)
  then show ?thesis using h by (auto simp: cmd_sound_def step_sound_def read_only_def)
qed

lemma quiet_cmds_sound:
  "cmd_sound qc cmd_ble_disconnect" "cmd_sound qc (cmd_kalman_q en)" "cmd_sound qc (cmd_kalman_r en)"
  "cmd_sound qc cmd_collision_stop" "cmd_sound qc cmd_collision_ghost_stop" "cmd_sound qc cmd_db_clear"
  "cmd_sound qc (cmd_collision_inject en io)" "cmd_sound qc cmd_missile_cancel" "cmd_sound qc (cmd_missile_launch en io)"
  "cmd_sound qc (cmd_collision_ghost en io)" "cmd_sound qc (cmd_collision_ghost_at en io)"
proof -
  have disc: "writes_ok (map OutBt (ble_central_disconnect b))" for b
    by (rule no_writes_ok) (simp add: ble_central_disconnect_def no_writes_def)
  note [simp] = cmd_sound_def Let_def case_prod_unfold
  show "cmd_sound qc cmd_ble_disconnect" "cmd_sound qc (cmd_kalman_q en)" "cmd_sound qc (cmd_kalman_r en)"
    "cmd_sound qc cmd_collision_stop" "cmd_sound qc cmd_collision_ghost_stop" "cmd_sound qc cmd_db_clear"
    "cmd_sound qc (cmd_collision_inject en io)" "cmd_sound qc cmd_missile_cancel"
    by (auto simp: cmd_ble_disconnect_def cmd_kalman_q_def cmd_kalman_r_def cmd_collision_stop_def
        cmd_collision_ghost_stop_def cmd_db_clear_def cmd_collision_inject_def cmd_missile_cancel_def disc
        intro!: step_sound_quiet)
  show "cmd_sound qc (cmd_missile_launch en io)" "cmd_sound qc (cmd_collision_ghost en io)" "cmd_sound qc (cmd_collision_ghost_at en io)"
    by (auto simp: cmd_missile_launch_def cmd_collision_ghost_def cmd_collision_ghost_at_def
        intro!: step_sound_quiet split: sum.split errno.split)
qed

lemma sending_cmds_sound:
  "cmd_sound qc (cmd_ble_scan_start io)" "cmd_sound qc cmd_ble_scan_stop" "cmd_sound qc (cmd_diversion en io d)"
  "cmd_sound qc (cmd_collision_crash en io)" "cmd_sound qc (cmd_ble_inject en io)"
proof -
  have out: "writes_ok (deliver_all io b (snd (collision_diversion_send conn now db d)))"
    "writes_ok (deliver_all io b (snd (snd (collision_crash_trigger conn now db x y (c, m)))))" for b conn now db x y c m
    unfolding deliver_all_def by (rule deliver_ok; use scenario_out in blast)+
  show "cmd_sound qc (cmd_ble_scan_start io)" "cmd_sound qc cmd_ble_scan_stop"
    by (simp_all add: ble_print_sound link_callbacks cmd_sound_def cmd_ble_scan_start_def cmd_ble_scan_stop_def case_prod_unfold Let_def)
  show "cmd_sound qc (cmd_diversion en io d)"
    by (auto simp: cmd_sound_def cmd_diversion_def case_prod_unfold Let_def out intro!: step_sound_quiet split: sum.split errno.split)
  show "cmd_sound qc (cmd_collision_crash en io)"
    by (auto simp: cmd_sound_def cmd_collision_crash_def case_prod_unfold Let_def out intro!: step_sound_quiet
        split: sum.split errno.split)
  show "cmd_sound qc (cmd_ble_inject en io)"
    by (auto simp: cmd_sound_def cmd_ble_inject_def convert_accepts [OF sample_frame_accepted] case_prod_unfold Let_def
        intro!: step_sound_quiet)
qed

lemma shell_sound:
  assumes "shell_line en io ws s = Some (r, s', out)" shows "step_sound qc s (s', out)"
proof -
  obtain h argv where h: "resolve (shell_root en io) ws = Some (h, argv)" and r: "(r, s', out) = h argv s"
    using assms by (auto simp: shell_line_def split: option.splits)
  have "cmd_sound qc h"
    using resolve_cmd [OF h] read_only_cmds [THEN read_only_sound] quiet_cmds_sound sending_cmds_sound
    by (auto simp: shell_tables)
  then show ?thesis using r by (metis cmd_sound_def snd_conv)
qed

lemma thread_refuses_nothing:
  assumes mq: "msgq_spec BRIDGE_QUEUE_DEPTH qc (en_msgq en)" and s: "none_refused qc s"
  shows "none_refused qc (on_bridge_thread en now s)"
proof (cases "msgq_get (en_msgq en) (br_msgq (ct_bridge s))")
  case None
  then show ?thesis using s by (simp add: on_bridge_thread_def bridge_thread_step_def none_refused_def)
next
  case (Some fq)
  obtain f q where fq: "fq = (f, q)" by fastforce
  have "qc (br_msgq (ct_bridge s)) = f # qc q" using msgq_getD(2) [OF mq] Some fq by simp
  moreover from this have "frame_accepted f" using s by (simp add: none_refused_def)
  ultimately show ?thesis using s Some fq
    by (simp add: on_bridge_thread_def bridge_thread_step_def convert_accepts none_refused_def)
qed

lemma notify_refuses_nothing:
  assumes mq: "msgq_spec BRIDGE_QUEUE_DEPTH qc (en_msgq en)" and s: "none_refused qc s"
    and len: "length (qc (br_msgq (ct_bridge s))) \<le> BRIDGE_QUEUE_DEPTH"
    and data: "data = None \<or> (\<exists>bs. data = Some bs \<and> up_ok bs)"
  shows "none_refused qc (on_notify en data s)"
proof (cases data)
  case None
  then show ?thesis using s by (simp add: on_notify_def notify_cb_def none_refused_def)
next
  case (Some bs)
  then obtain f where f: "frame_decode bs = Some f" "frame_accepted f"
    using data aircraft_codec.dec_enc by (auto simp: up_ok_def)
  obtain stored q where p: "msgq_put (en_msgq en) f (br_msgq (ct_bridge s)) = (stored, q)" by fastforce
  have "list_all frame_accepted (qc q)"
    using msgq_putD(2) [OF mq len p] s f(2) by (simp add: none_refused_def)
  then show ?thesis using s f(1) Some
    by (simp add: on_notify_def notify_cb_def bridge_submit_frame_def none_refused_def Let_def p)
qed

lemma controller_step_sound:
  assumes en: "environment_ok qc rc en" and inv: "controller_inv qc rc s" and op: "\<And>bs. x \<noteq> OpNotify (Some bs)"
  shows "step_sound qc s (ct_exec en x s)"
proof -
  have mq: "msgq_spec BRIDGE_QUEUE_DEPTH qc (en_msgq en)" using en by (simp add: environment_ok_def)
  have len: "length (qc (br_msgq (ct_bridge s))) \<le> BRIDGE_QUEUE_DEPTH"
    using inv by (simp add: controller_inv_def bridge_inv_def)
  show ?thesis
  proof (cases x)
    case (OpNotify data)
    then show ?thesis using op notify_refuses_nothing [OF mq _ len, of data] by (cases data) (simp_all add: step_sound_def)
  next
    case (OpBridge t)
    then show ?thesis using thread_refuses_nothing [OF mq] by (simp add: step_sound_def)
  next
    case (OpTick r ready dtr t)
    have "writes_ok (concat (map (deliver r ready dtr (ct_ble s))
        (snd (snd (work_handler (en_libm en) (ble_central_is_connected (ct_ble s)) t (ct_db s) (ct_col s, ct_missile s))))))"
      by (rule deliver_ok) (use work_handler_out in blast)
    then show ?thesis unfolding OpTick
      by (auto simp: on_collision_tick_def case_prod_unfold Let_def intro!: step_sound_quiet)
  next
    case (OpShell io ws)
    then show ?thesis using shell_sound [of en io ws s]
      by (auto simp: step_sound_def split: option.split)
  qed (auto simp: ble_sound link_callbacks on_usb_irq_def on_usb_thread_def on_reaper_def on_inject_def on_ghost_def
      on_missile_def on_publish_def heartbeat_def case_prod_unfold Let_def intro!: step_sound_quiet)
qed

section \<open>The simulator\<close>

text \<open>What the simulator notifies, while it is inside its box.\<close>

lemma sim_notifies_ok:
  assumes "in_bounds s" "sim_legal x"
  shows "list_all up_ok (radio_notifies (snd (sim_exec lm x s)))"
proof -
  have pos: "radio_notifies (position_json s') = []" for s' by (simp add: radio_notifies_def position_json_def)
  have app: "radio_notifies (xs @ ys) = radio_notifies xs @ radio_notifies ys" for xs ys by (simp add: radio_notifies_def)
  have none: "radio_notifies xs = []" if "\<forall>f. SimNotify f \<notin> set xs" for xs
    using that by (auto simp: radio_notifies_def split: sim_event.split) 
  show ?thesis
  proof (cases x)
    case (SimTick now)
    have b: "in_bounds (fst (sim_tick lm now s))" using assms(1) by (rule tick_in_bounds [OF disjI1])
    have "list_all up_ok (radio_notifies (snd (sim_tick lm now s)))"
    proof -
      let ?n = "sim_frame now (fst (sim_tick lm now s))"
      have "radio_notifies (snd (sim_tick lm now s)) \<in> {[], [sim_frame_bytes ?n]}"
        by (auto simp: sim_tick_def tick_ground_def Let_def app pos case_prod_unfold)
          (auto simp: radio_notifies_def)
      moreover have "up_ok (sim_frame_bytes ?n)"
        unfolding up_ok_def sim_frame_bytes_eq using sim_frame_accepted [OF b] by blast
      ultimately show ?thesis by auto
    qed
    then show ?thesis by (simp add: SimTick)
  next
    case (SimShell ws)
    have "\<forall>f. SimNotify f \<notin> set out" if "sim_shell_line ws s = Some (rc, s', out)" for rc s' out
      using that
    proof (cases rule: sim_shell_cases)
      case (2 argv)
      then show ?thesis
        by (auto simp: cmd_aircraft_wasd_def cmd_aircraft_status_def cmd_aircraft_reset_def cmd_aircraft_circle_def
            position_json_def Let_def split: if_splits)
    qed (use assms(2) SimShell in simp)
    then show ?thesis using none by (auto simp: SimShell split: option.split)
  qed (auto simp: none warn_write_def custom_msg_def warn_frame_def disconnected_sim_def warning_clear_fn_def
      crash_reset_fn_def Let_def)
qed

section \<open>The invariant\<close>

definition world_start ::
  "('q, 'r) environment \<Rightarrow> bt_rc \<Rightarrow> errno + unit \<Rightarrow> ms \<Rightarrow> 'q \<Rightarrow> 'r \<Rightarrow> int \<Rightarrow> u16 \<Rightarrow> ('q, 'r) world" where
  "world_start en b enable now q r wdt vh =
     \<lparr>w_ctl = started en b enable now q r, w_sim = fst (snd (sim_main True 0 0 wdt sim_boot)), w_up = [], w_down = [], w_warn = vh\<rparr>"

lemma sim_main_in_bounds: "in_bounds s \<Longrightarrow> in_bounds (fst (snd (sim_main ready rc adv wdt s)))"
  by (simp add: sim_main_def in_bounds_def Let_def)

lemma started_refuses_nothing: "qc q = [] \<Longrightarrow> none_refused qc (started en b enable now q r)"
  by (auto simp: started_def controller_main_def controller_boot_def none_refused_def bridge_init_def bridge_stats_zero_def
      ble_central_init_def ble_central_scan_start_def ble_stats_zero_def ble_central_boot_def Let_def case_prod_unfold
      split: sum.split)

lemma world_start_inv:
  "environment_ok qc rc en \<Longrightarrow> qc q = [] \<Longrightarrow> rc r = [] \<Longrightarrow> world_inv qc rc (world_start en b enable now q r wdt vh)"
  by (simp add: world_inv_def world_start_def started_inv started_refuses_nothing sim_main_in_bounds in_bounds_boot)

lemma up_ok_any: "up_ok bs \<Longrightarrow> \<exists>f. frame_decode bs = Some f \<and> frame_accepted f"
  using aircraft_codec.dec_enc by (auto simp: up_ok_def)

lemma list_all_drop: "list_all P xs \<Longrightarrow> list_all P (drop n xs)"
  by (auto simp: list_all_iff dest: in_set_dropD)

lemma world_step_inv:
  assumes en: "environment_ok qc rc en" and inv: "world_inv qc rc w" and x: "world_legal x"
  shows "world_inv qc rc (world_step en lm x w)"
proof -
  have ci: "controller_inv qc rc (w_ctl w)" and nr: "none_refused qc (w_ctl w)" and si: "in_bounds (w_sim w)"
    and up: "list_all up_ok (w_up w)" and down: "list_all (\<lambda>p. down_ok (snd p)) (w_down w)"
    using inv by (simp_all add: world_inv_def)
  have mq: "msgq_spec BRIDGE_QUEUE_DEPTH qc (en_msgq en)" using en by (simp add: environment_ok_def)
  show ?thesis
  proof (cases x)
    case (WCtl y)
    have y: "op_clock_ok y" "\<And>bs. y \<noteq> OpNotify (Some bs)" using x by (simp_all add: WCtl)
    have "controller_inv qc rc (fst (ct_exec en y (w_ctl w)))"
      using controller_step_inv [OF en ci y(1)] by (simp add: ct_step_def)
    then show ?thesis using controller_step_sound [OF en ci y(2)] nr si up down
      by (simp add: WCtl world_inv_def step_sound_def writes_ok_def case_prod_unfold Let_def)
  next
    case (WSim y)
    have "in_bounds (fst (sim_exec lm y (w_sim w)))" using sim_sys.inv_step [of "w_sim w" y lm] si x by (simp add: WSim)
    then show ?thesis using sim_notifies_ok [OF si, of y lm] x ci nr up down
      by (simp add: WSim world_inv_def case_prod_unfold Let_def)
  next
    case WNotify
    show ?thesis
    proof (cases "w_up w")
      case (Cons bs rest)
      have len: "length (qc (br_msgq (ct_bridge (w_ctl w)))) \<le> BRIDGE_QUEUE_DEPTH"
        using ci by (simp add: controller_inv_def bridge_inv_def)
      have "up_ok bs" using up Cons by simp
      then have "none_refused qc (on_notify en (Some bs) (w_ctl w))"
        by (intro notify_refuses_nothing [OF mq nr len]) simp
      then show ?thesis using inv Cons controller_step_inv [OF en ci, of "OpNotify (Some bs)"]
        by (simp add: WNotify world_inv_def ct_step_def)
    qed (use inv WNotify in simp)
  next
    case (WWrite now)
    show ?thesis
    proof (cases "w_down w")
      case (Cons p rest)
      then show ?thesis using inv sim_sys.inv_step [OF si, of "SimWrite now (snd p)" lm]
        by (simp add: WWrite world_inv_def case_prod_unfold)
    qed (use inv WWrite in simp)
  next
    case (WLose n m)
    then show ?thesis using inv by (simp add: world_inv_def list_all_drop)
  qed
qed

lemma world_system:
  assumes "environment_ok qc rc en" "qc q = []" "rc r = []"
  shows "op_system (world_start en b enable now q r wdt vh) (world_step en lm) world_legal (world_inv qc rc)"
  by standard (use world_start_inv [where qc = qc and rc = rc] world_step_inv [OF assms(1)] assms in blast)+

text \<open>What is in the air will be accepted: a write by the simulator, in whatever state it is.\<close>

lemma down_ok_write:
  assumes "down_ok bs" shows "\<exists>v. bs = warning_encode v \<and> warn_write t bs s = (Inr 16, warn_frame t v s)
    \<and> wf_msg_type v \<in> {BLE_WARN_MSG_COLLISION, BLE_WARN_MSG_DIVERSION, BLE_WARN_MSG_CRASH}"
proof -
  obtain v where v: "bs = warning_encode v" "warning_ok v" "crc_ok bs"
      "wf_msg_type v \<in> {BLE_WARN_MSG_COLLISION, BLE_WARN_MSG_DIVERSION, BLE_WARN_MSG_CRASH}"
    using assms by (auto simp: down_ok_def)
  moreover have "wf_msg_type v \<noteq> 4"
    using v(4) by (auto simp: BLE_WARN_MSG_COLLISION_def BLE_WARN_MSG_DIVERSION_def BLE_WARN_MSG_CRASH_def)
  ultimately show ?thesis using warn_write_frame [of v t s] by auto
qed

lemma sim_accepts_warnings:
  "list_all (\<lambda>e. case e of UsbLine l \<Rightarrow> True
      | BleSend w \<Rightarrow> warn_write t (warning_encode w) s = (Inr 16, warn_frame t w s) \<and> g_warning_active (fst (warn_frame t w s)))
    (snd (snd (work_handler lm conn now db (c, m))))"
  unfolding list_all_iff
proof
  fix e assume "e \<in> set (snd (snd (work_handler lm conn now db (c, m))))"
  from work_handler_out [OF this]
  show "case e of UsbLine l \<Rightarrow> True
      | BleSend w \<Rightarrow> warn_write t (warning_encode w) s = (Inr 16, warn_frame t w s) \<and> g_warning_active (fst (warn_frame t w s))"
    by (cases e) (auto simp: warn_write_frame crc_ok_encode warn_frame_def enter_freeze_def Let_def BLE_WARN_MSG_COLLISION_def
        BLE_WARN_MSG_DIVERSION_def BLE_WARN_MSG_CRASH_def)
qed

lemma down_ok_warns: "down_ok bs \<Longrightarrow> fst (warn_write t bs s) = Inr 16 \<and> g_warning_active (fst (snd (warn_write t bs s)))"
  using down_ok_write [of bs t s]
  by (auto simp: warn_frame_def enter_freeze_def Let_def BLE_WARN_MSG_COLLISION_def BLE_WARN_MSG_DIVERSION_def
      BLE_WARN_MSG_CRASH_def)

section \<open>A position goes to the database\<close>

lemma tick_keeps_link:
  "s_conn (fst (sim_tick lm t s)) = s_conn s" "s_notif_enabled (fst (sim_tick lm t s)) = s_notif_enabled s"
proof -
  have clamp: "s_conn (clamp_position s) = s_conn s" "s_notif_enabled (clamp_position s) = s_notif_enabled s" for s
    unfolding clamp_position_def Let_def by simp_all
  have "s_conn (tick_turn s) = s_conn s" "s_notif_enabled (tick_turn s) = s_notif_enabled s"
    "s_conn (tick_move lm s) = s_conn s" "s_notif_enabled (tick_move lm s) = s_notif_enabled s"
    "s_conn (fst (tick_ground t s)) = s_conn s" "s_notif_enabled (fst (tick_ground t s)) = s_notif_enabled s"
    "s_conn (tick_leds s) = s_conn s" "s_notif_enabled (tick_leds s) = s_notif_enabled s" for s
    unfolding tick_turn_def tick_move_def tick_ground_def tick_leds_def enter_freeze_def Let_def by (simp_all add: clamp)
  then show "s_conn (fst (sim_tick lm t s)) = s_conn s" "s_notif_enabled (fst (sim_tick lm t s)) = s_notif_enabled s"
    by (simp_all add: sim_tick_def case_prod_unfold Let_def)
qed

lemma tick_notifies:
  assumes "s_conn s" "s_notif_enabled s"
  shows "radio_notifies (snd (sim_tick lm t s)) = [sim_frame_bytes (sim_frame t (fst (sim_tick lm t s)))]"
proof -
  have c: "s_conn (fst (sim_tick lm t s)) \<and> s_notif_enabled (fst (sim_tick lm t s))"
    using assms by (simp add: tick_keeps_link)
  then show ?thesis
    by (auto simp: sim_tick_def position_json_def radio_notifies_def tick_ground_def case_prod_unfold Let_def)
qed

lemma position_arrives:
  assumes en: "environment_ok qc rc en" and inv: "world_inv qc rc w"
    and idle: "w_up w = []" "qc (br_msgq (ct_bridge (w_ctl w))) = []" and sim: "s_conn (w_sim w)" "s_notif_enabled (w_sim w)"
    and room: "aircraft_db_count (ct_db (w_ctl w)) < int AIRCRAFT_DB_MAX_ENTRIES"
    and w': "w' = run (world_step en lm) w [WSim (SimTick t), WNotify, WCtl (OpBridge now)]"
  shows "\<exists>a. aircraft_db_lookup ''da7705'' (ct_db (w_ctl w')) = Inr a
    \<and> same_observation a (frame_observation (sim_frame t (w_sim w')))"
proof -
  have mq: "msgq_spec BRIDGE_QUEUE_DEPTH qc (en_msgq en)" using en by (simp add: environment_ok_def)
  have db: "db_inv (ct_db (w_ctl w))" using inv by (simp add: world_inv_def controller_inv_def db_short_def)
  define s where "s = fst (sim_tick lm t (w_sim w))"
  define f where "f = sim_frame t s"
  have b: "in_bounds s" unfolding s_def using inv by (intro tick_in_bounds) (simp add: world_inv_def)
  note acc = sim_frame_accepted [OF b, of t, folded f_def]
  have sent: "radio_notifies (snd (sim_tick lm t (w_sim w))) = [sim_frame_bytes f]"
    using tick_notifies [OF sim] by (simp add: f_def s_def)
  let ?c = "on_notify en (Some (sim_frame_bytes f)) (w_ctl w)"
  have step: "w_ctl w' = on_bridge_thread en now ?c" "w_sim w' = s"
    using idle(1) sent by (simp_all add: w' ct_step_def s_def case_prod_unfold Let_def)
  obtain stored q where p: "msgq_put (en_msgq en) f (br_msgq (ct_bridge (w_ctl w))) = (stored, q)" by fastforce
  have q: "qc q = [f]" using msgq_putD(2) [OF mq _ p] idle(2) by (simp add: BRIDGE_QUEUE_DEPTH_def)
  have "br_msgq (ct_bridge ?c) = q" "ct_db ?c = ct_db (w_ctl w)"
    using aircraft_codec.dec_enc [OF acc(2)]
    by (simp_all add: sim_frame_bytes_eq on_notify_def notify_cb_def bridge_submit_frame_def p Let_def)
  with thread_stores [OF mq db _ acc(1) upsert_room [OF db room], of "ct_bridge ?c" "[]" "en_libm en" "ct_kal ?c" now] q
  obtain a where a: "aircraft_db_lookup (icao_string (uint (bf_icao24 f))) (ct_db (w_ctl w')) = Inr a"
      "same_observation a (frame_observation f)"
    by (auto simp: step on_bridge_thread_def case_prod_unfold Let_def)
  moreover have "icao_string (uint (bf_icao24 f)) = ''da7705''"
    using sim_frame_icao [of t s] by (simp add: frame_observation_def f_def Let_def)
  ultimately show ?thesis by (auto simp: step(2) f_def)
qed

section \<open>A collision stops the simulator\<close>

lemma write_same_flight:
  assumes "down_ok bs" "same_flight s0 s" shows "same_flight s0 (sim_step lm (SimWrite t bs) s)"
  using down_ok_write [OF assms(1), of t s] assms(2)
  by (auto simp: warn_frame_def enter_freeze_def same_flight_def Let_def)

lemma write_crash:
  assumes "down_ok bs" "bs = warning_encode v" "wf_msg_type v = BLE_WARN_MSG_CRASH" "0 \<le> t"
  shows "crashed_until (t + 10000) (sim_step lm (SimWrite t bs) s)"
proof -
  have "fst (warn_write t bs s) = Inr 16" using down_ok_write [OF assms(1), of t s] by auto
  moreover have "bs ! 0 = BLE_WARN_MSG_CRASH" using assms(2,3) by (simp add: warning_encode_def)
  ultimately show ?thesis using crash_write [of t bs s 16] freeze_crashed [OF assms(4), of s] assms(4) by simp
qed

text \<open>Every write in the air is delivered, those to the warnings' handle to the simulator.\<close>

definition for_sim :: "('q, 'r) world \<Rightarrow> u8 list list" where
  "for_sim w = map snd (filter (\<lambda>p. fst p = w_warn w) (w_down w))"

lemma writes_delivered:
  "run (world_step en lm) w (replicate (length (w_down w)) (WWrite t)) =
     w\<lparr>w_sim := run (sim_step lm) (w_sim w) (map (SimWrite t) (for_sim w)), w_down := []\<rparr>"
proof (induction "w_down w" arbitrary: w)
  case (Cons p rest)
  obtain h bs where p: "p = (h, bs)" by fastforce
  let ?w = "w\<lparr>w_sim := (if h = w_warn w then sim_step lm (SimWrite t bs) (w_sim w) else w_sim w), w_down := rest\<rparr>"
  have w: "w_down w = (h, bs) # rest" using Cons(2) p by simp
  from Cons(1) [of ?w] show ?case by (simp add: w for_sim_def del: sim_step_def sim_exec.simps)
qed (simp add: for_sim_def)

lemma crash_delivered:
  assumes "list_all down_ok bss" "warning_encode v \<in> set bss" "wf_msg_type v = BLE_WARN_MSG_CRASH" "0 \<le> t"
    "same_flight s0 s"
  shows "crashed_until (t + 10000) (run (sim_step lm) s (map (SimWrite t) bss))
    \<and> same_flight s0 (run (sim_step lm) s (map (SimWrite t) bss))"
  using assms(1,2,5)
proof (induction bss arbitrary: s)
  case (Cons bs bss)
  let ?s = "sim_step lm (SimWrite t bs) s"
  have flight: "same_flight s0 ?s" using write_same_flight [of bs s0 s] Cons.prems by simp
  show ?case
  proof (cases "bs = warning_encode v")
    case True
    have "crashed_until (t + 10000) ?s" using write_crash [of bs v t] Cons.prems(1) True assms(3,4) by simp
    from frozen_run [OF this flight _ assms(4), of "map (SimWrite t) bss" lm] show ?thesis
      by (simp del: sim_step_def)
  next
    case False
    then show ?thesis using Cons.IH [of ?s] Cons.prems flight by (simp del: sim_step_def)
  qed
qed simp

lemma crash_arrives:
  assumes en: "environment_ok qc rc en" and inv: "world_inv qc rc w"
    and link: "g_connected (ct_ble (w_ctl w))" "g_conn (ct_ble (w_ctl w))"
      "g_warn_handle (ct_ble (w_ctl w)) = w_warn w" "w_warn w \<noteq> 0"
    and ab: "(a, b) \<in> set (row_pairs (snapshot (en_libm en) (ct_db (w_ctl w))))"
      "pair_level (f64_num (en_libm en)) a b = COLLISION_CRASH"
    and new: "crash_is_new (en_libm en) (ct_db (w_ctl w)) now (key_of (a, b)) (ct_col (w_ctl w))"
    and w1: "w1 = world_step en lm (WCtl (OpTick r ready dtr now)) w"
    and w2: "w2 = run (world_step en lm) w1 (replicate (length (w_down w1)) (WWrite t))" and t: "0 \<le> t"
  shows "crashed_until (t + 10000) (w_sim w2) \<and> same_flight (w_sim w) (w_sim w2)"
proof -
  let ?c = "w_ctl w"
  let ?v = "crash_frame now (crash_other (sim_side_of (ct_db ?c) a b) (fst (key_of (a, b))) a b)"
  have col: "col_inv (ct_col ?c)" "db_short (ct_db ?c)" using inv by (simp_all add: world_inv_def controller_inv_def)
  have "BleSend ?v \<in> set (snd (snd (work_handler (en_libm en) (ble_central_is_connected (ct_ble ?c)) now (ct_db ?c)
      (ct_col ?c, ct_missile ?c))))"
    using crash_tick_result(2) [OF col ab new] link(1) by (simp add: ble_central_is_connected_def)
  then have "OutBt (WriteNoRsp (g_warn_handle (ct_ble ?c)) (warning_encode ?v))
      \<in> set (snd (on_collision_tick en r ready dtr now ?c))"
    using link by (force simp: on_collision_tick_def case_prod_unfold Let_def ble_central_send_warning_def)
  then have "(w_warn w1, warning_encode ?v) \<in> set (w_down w1)"
    using link(3) by (force simp: w1 radio_writes_def case_prod_unfold Let_def)
  then have "warning_encode ?v \<in> set (for_sim w1)" by (force simp: for_sim_def)
  moreover have "list_all down_ok (for_sim w1)"
    using world_step_inv [OF en inv, of "WCtl (OpTick r ready dtr now)" lm]
    by (auto simp: w1 world_inv_def for_sim_def list_all_iff)
  moreover have "wf_msg_type ?v = BLE_WARN_MSG_CRASH" by (simp add: crash_frame_def)
  moreover have "same_flight (w_sim w) (w_sim w1)" by (simp add: w1 same_flight_def case_prod_unfold Let_def)
  ultimately show ?thesis unfolding w2 writes_delivered using crash_delivered t by simp
qed

section \<open>From power-up to a position in the database\<close>

text \<open>
  What the stack reports when all goes well, in its order: the simulator's advertisement, the
  connection on both sides, the end of the MTU exchange, and the answers to the central's four
  searches; its subscription reaches the simulator before the search for the warning service.
\<close>

definition link_events :: "gatt_search \<Rightarrow> bt_rc \<Rightarrow> ms \<Rightarrow> bt_addr \<Rightarrow> nat \<Rightarrow> nat \<Rightarrow> world_op list" where
  "link_events search b now addr hs hw =
     [WCtl (OpAdvert b now addr BT_GAP_ADV_TYPE_ADV_IND sim_ad), WCtl (OpConnected b False), WSim (SimConnected False),
      WCtl OpMtu, WCtl (OpDiscover (search UUID_SKY_SVC 1 0xffff)),
      WCtl (OpDiscover (search UUID_SKY_CHR (of_nat hs + 1) 0xffff)), WSim (SimCcc 1),
      WCtl (OpDiscover (search UUID_WARN_SVC 1 0xffff)), WCtl (OpDiscover (search UUID_WARN_CHR (of_nat hw + 1) 0xffff))]"

text \<open>The central that was started, before the first advertisement.\<close>

definition central_waiting :: "ble_central \<Rightarrow> bool" where
  "central_waiting s \<longleftrightarrow> g_scanning s \<and> \<not> g_connected s \<and> \<not> g_connecting s \<and> g_scan_results s = []"

lemma started_waiting:
  "rc_scan_start b = Inr () \<Longrightarrow> central_waiting (ct_ble (started en b (Inr ()) now q r))"
  by (simp add: central_waiting_def started_def controller_main_def controller_boot_def ble_central_init_def
      ble_central_scan_start_def ble_central_boot_def case_prod_unfold Let_def)

lemma link_comes_up:
  assumes "central_waiting (ct_ble (w_ctl w))" "rc_conn_create b = Inr ()" "rc_exchange_mtu b = Inr ()"
    "sim_gatt_db db hs hw" "stack_finds db search"
    "w' = run (world_step en lm) w (link_events search b now addr hs hw)"
  shows "g_connected (ct_ble (w_ctl w'))" "g_conn (ct_ble (w_ctl w'))" "g_warn_handle (ct_ble (w_ctl w')) = of_nat (hw + 2)"
    "g_aircraft_handle (ct_ble (w_ctl w')) = of_nat (hs + 2)" "s_conn (w_sim w')" "s_notif_enabled (w_sim w')"
    "w_up w' = w_up w" "w_down w' = w_down w" "w_warn w' = w_warn w" "ct_bridge (w_ctl w') = ct_bridge (w_ctl w)" "ct_db (w_ctl w') = ct_db (w_ctl w)"
proof -
  note f = sim_gatt_find [OF assms(4)]
  have g: "search u start stop = gatt_find db u start stop" for u start stop using assms(5) by (simp add: stack_finds_def)
  note d = assms(1) [unfolded central_waiting_def]
  note [simp] = g f assms(6) link_events_def on_ble_def device_found_def do_connect_def connected_cb_def mtu_exchange_cb_def
    start_discovery_def discover_cb_def sim_ad_name connected_sim_def aircraft_ccc_changed_def Let_def radio_writes_def
    radio_notifies_def ct_step_def SCAN_MAX_RESULTS_def
  show "g_connected (ct_ble (w_ctl w'))" "g_conn (ct_ble (w_ctl w'))" "g_warn_handle (ct_ble (w_ctl w')) = of_nat (hw + 2)"
    "g_aircraft_handle (ct_ble (w_ctl w')) = of_nat (hs + 2)" "s_conn (w_sim w')" "s_notif_enabled (w_sim w')"
    "w_up w' = w_up w" "w_down w' = w_down w" "w_warn w' = w_warn w" "ct_bridge (w_ctl w') = ct_bridge (w_ctl w)" "ct_db (w_ctl w') = ct_db (w_ctl w)"
    using d assms(2,3) by simp_all
qed

lemma link_events_legal: "\<forall>x \<in> set (link_events search b now addr hs hw). world_legal x"
  by (simp add: link_events_def)

lemma started_empty:
  "br_msgq (ct_bridge (started en b enable now q r)) = q" "ct_db (started en b enable now q r) = aircraft_db_init"
  by (simp_all add: started_def controller_main_def controller_boot_def bridge_init_def case_prod_unfold Let_def)

lemma power_up:
  assumes en: "environment_ok qc rc en" and q: "qc q = []" "rc r = []"
    and stack: "rc_scan_start b = Inr ()" "rc_conn_create b = Inr ()" "rc_exchange_mtu b = Inr ()"
    and gatt: "sim_gatt_db db hs hw" "stack_finds db search"
    and w: "w = run (world_step en lm) (world_start en b (Inr ()) t0 q r wdt (of_nat (hw + 2))) (link_events search b t1 addr hs hw)"
    and w': "w' = run (world_step en lm) w [WSim (SimTick t), WNotify, WCtl (OpBridge now)]"
  shows "g_connected (ct_ble (w_ctl w))" "g_conn (ct_ble (w_ctl w))" "g_warn_handle (ct_ble (w_ctl w)) = of_nat (hw + 2)"
    "w_warn w = of_nat (hw + 2)"
    "\<exists>a. aircraft_db_lookup ''da7705'' (ct_db (w_ctl w')) = Inr a \<and> same_observation a (frame_observation (sim_frame t (w_sim w')))"
proof -
  let ?w0 = "world_start en b (Inr ()) t0 q r wdt (of_nat (hw + 2))"
  have "central_waiting (ct_ble (w_ctl ?w0))" using started_waiting [OF stack(1)] by (simp add: world_start_def)
  note up = link_comes_up [OF this stack(2,3) gatt w]
  show "g_connected (ct_ble (w_ctl w))" "g_conn (ct_ble (w_ctl w))" "g_warn_handle (ct_ble (w_ctl w)) = of_nat (hw + 2)"
    "w_warn w = of_nat (hw + 2)"
    using up by (simp_all add: world_start_def)
  have inv: "world_inv qc rc w"
    unfolding w by (rule op_system.inv_run [OF world_system [OF en q] link_events_legal])
  have idle: "w_up w = []" "qc (br_msgq (ct_bridge (w_ctl w))) = []" using up q(1) by (simp_all add: world_start_def started_empty)
  have "db_rows aircraft_db_init = []" by (simp add: db_rows_def aircraft_db_init_def)
  then have "aircraft_db_count (ct_db (w_ctl w)) < int AIRCRAFT_DB_MAX_ENTRIES"
    using up by (simp add: world_start_def started_empty count_rows AIRCRAFT_DB_MAX_ENTRIES_def)
  from position_arrives [OF en inv idle up(5,6) this w']
  show "\<exists>a. aircraft_db_lookup ''da7705'' (ct_db (w_ctl w')) = Inr a \<and> same_observation a (frame_observation (sim_frame t (w_sim w')))" .
qed

text \<open>The two boards started, linked, and the encounter in the database.\<close>

definition meet_world :: "(ble_aircraft_frame list, string) world" where
  "meet_world = (let w = world_start plain_environment rc_ok (Inr ()) 0 [] [] 1 22; c = w_ctl w
     in w\<lparr>w_ctl := c\<lparr>ct_db := meet_db 9995, ct_ble := (ct_ble c)\<lparr>g_connected := True, g_conn := True, g_warn_handle := 22\<rparr>\<rparr>\<rparr>)"

lemma meet_world_inv: "world_inv (\<lambda>q. q) (\<lambda>r. r) meet_world"
proof -
  have "world_inv (\<lambda>q. q) (\<lambda>r. r) (world_start plain_environment rc_ok (Inr ()) 0 [] [] 1 22)"
    by (rule world_start_inv [OF plain_environment_ok]) simp_all
  moreover have "db_short (meet_db 9995)" by (simp add: db_short_def meet_rows)
  ultimately show ?thesis using bridge_inv_db
    by (auto simp: meet_world_def world_inv_def controller_inv_def none_refused_def Let_def)
qed

lemma meet_world_simps:
  "ct_db (w_ctl meet_world) = meet_db 9995" "g_connected (ct_ble (w_ctl meet_world))" "g_conn (ct_ble (w_ctl meet_world))"
  "g_warn_handle (ct_ble (w_ctl meet_world)) = w_warn meet_world" "w_warn meet_world \<noteq> 0" "c_tracked (ct_col (w_ctl meet_world)) = []"
  by (simp_all add: meet_world_def world_start_def started_def controller_main_def controller_boot_def collision_init_def
      case_prod_unfold Let_def)

lemma meet_crash_new:
  "c_tracked c = [] \<Longrightarrow> crash_is_new libm_flat (meet_db 9995) now (key_of (sim_row, threat_row 9995)) c"
  by (simp add: crash_is_new_def keys_of_def meet_conflicts meet_crash MAX_TRACKED_def)

end
