(* ===== verification/Usb_Device.thy ===== *)
theory Usb_Device
  imports Sky_Prelude
begin

text \<open>
  \<open>usb_device.c\<close>, the same function on both boards (the two files differ in
  comments only): the order in which descriptors, the
  configuration and the two CDC ACM classes are registered with Zephyr's USB stack before it is
  initialised and enabled.  What the stack answers to a call is an argument, 0 for success; the
  result is the return value and the calls made.
\<close>

datatype usbd_desc = UsbdLang | UsbdMfr | UsbdProduct

datatype usbd_call = UsbdAddDescriptor usbd_desc | UsbdAddConfiguration | UsbdRegisterClass string
  | UsbdSetCodeTriple | UsbdInit | UsbdEnable

text \<open>
  The calls that must succeed, one after the other until one fails (\<open>goto do_init\<close>): whether
  all did, and those made.
\<close>

fun register_all :: "(usbd_call \<Rightarrow> int) \<Rightarrow> usbd_call list \<Rightarrow> bool \<times> usbd_call list" where
  "register_all rc [] = (True, [])"
| "register_all rc (c # cs) =
     (if rc c \<noteq> 0 then (False, [c]) else let (ok, made) = register_all rc cs in (ok, c # made))"

definition usbd_required :: "usbd_call list" where
  "usbd_required = [UsbdAddDescriptor UsbdLang, UsbdAddDescriptor UsbdMfr, UsbdAddDescriptor UsbdProduct,
     UsbdAddConfiguration, UsbdRegisterClass ''cdc_acm_0'']"

text \<open>The second class is best-effort: its result is only logged.\<close>

definition usb_device_init :: "(usbd_call \<Rightarrow> int) \<Rightarrow> int \<times> usbd_call list" where
  "usb_device_init rc =
     (let (ok, made) = register_all rc usbd_required;
          registered = made @ (if ok then [UsbdRegisterClass ''cdc_acm_1'', UsbdSetCodeTriple] else [])
      in if rc UsbdInit \<noteq> 0 then (0, registered @ [UsbdInit]) else (0, registered @ [UsbdInit, UsbdEnable]))"

text \<open>The simulator's copy has the same statements.\<close>

definition sim_usb_device_init :: "(usbd_call \<Rightarrow> int) \<Rightarrow> int \<times> usbd_call list" where
  "sim_usb_device_init = usb_device_init"

section \<open>What is called\<close>

lemma register_all_prefix:
  "register_all rc cs = (ok, made) \<Longrightarrow> \<exists>rest. cs = made @ rest
     \<and> (if ok then rest = [] \<and> (\<forall>c \<in> set cs. rc c = 0) else made \<noteq> [] \<and> rc (last made) \<noteq> 0)"
  by (induction cs arbitrary: ok made) (auto split: if_splits prod.splits)

text \<open>
  Whatever fails, the stack is initialised once, after the registrations, it is enabled exactly
  when that succeeds, and the boot goes on.
\<close>

lemma usb_device_init_calls:
  assumes "usb_device_init rc = (r, calls)"
  obtains pre where "r = 0" "calls = pre @ UsbdInit # (if rc UsbdInit = 0 then [UsbdEnable] else [])"
    "UsbdInit \<notin> set pre" "UsbdEnable \<notin> set pre"
proof -
  obtain ok made where m: "register_all rc usbd_required = (ok, made)" by fastforce
  from register_all_prefix [OF this] have "set made \<subseteq> set usbd_required" by (metis set_append Un_upper1)
  then show thesis using assms m that
    by (fastforce simp: usb_device_init_def usbd_required_def split: if_splits)
qed

text \<open>The data port is only tried when the shell's port is there.\<close>

lemma data_port_needs_shell_port:
  assumes "UsbdRegisterClass ''cdc_acm_1'' \<in> set (snd (usb_device_init rc))"
  shows "rc (UsbdRegisterClass ''cdc_acm_0'') = 0"
proof -
  obtain ok made where m: "register_all rc usbd_required = (ok, made)" by fastforce
  show ?thesis using register_all_prefix [OF m] assms m
    by (cases ok) (auto simp: usb_device_init_def usbd_required_def Cons_eq_append_conv split: if_splits)
qed

end
