(* ===== verification/Db_Use.thy ===== *)
theory Db_Use
  imports System
begin

text \<open>
  What the firmware stores in the database: for every step of the controller the sequence of
  database operations it amounts to, with the records written out from what the step reads and
  from the state of the activity that writes.  So what the database promises about sequences of
  its operations holds of the database inside the running controller.
\<close>

section \<open>Sequences of operations at one time\<close>

fun op_at :: "ms option \<Rightarrow> db_op \<Rightarrow> bool" where
  "op_at t DbInit \<longleftrightarrow> False"
| "op_at t (DbUpsert now a) \<longleftrightarrow> t = Some now"
| "op_at t (DbReap now) \<longleftrightarrow> t = Some now"
| "op_at t DbClear \<longleftrightarrow> t \<noteq> None"

section \<open>What each activity stores\<close>

text \<open>A complete line, and the lines that a chunk of characters completes, after those in the buffer.\<close>

definition line_stores :: "json_obj_parse \<Rightarrow> ms \<Rightarrow> string \<Rightarrow> db_op list" where
  "line_stores parse now line = (if line = [] then [] else case json_parse_aircraft parse line of
     Inr a \<Rightarrow> [DbUpsert now a] | Inl _ \<Rightarrow> [])"

fun chunk_stores :: "json_obj_parse \<Rightarrow> ms \<Rightarrow> string \<Rightarrow> string \<Rightarrow> db_op list" where
  "chunk_stores parse now line [] = []"
| "chunk_stores parse now line (c # cs) =
     (if c = CHR 0x0D then chunk_stores parse now line cs
      else if c = CHR 0x0A then line_stores parse now line @ chunk_stores parse now [] cs
      else chunk_stores parse now (if length line < 511 then line @ [c] else []) cs)"

text \<open>The oldest frame of the queue, when it is one to accept.\<close>

definition frame_stores :: "ms \<Rightarrow> (ble_aircraft_frame \<times> 'q) option \<Rightarrow> db_op list" where
  "frame_stores now got = (case got of None \<Rightarrow> []
     | Some (f, q) \<Rightarrow> if frame_accepted f then [DbUpsert now (frame_observation f)] else [])"

text \<open>The made-up aircraft, where the detector's static variables have them.\<close>

definition inject_stores :: "ms \<Rightarrow> collision \<Rightarrow> db_op list" where
  "inject_stores now c =
     [DbUpsert now (fict_aircraft ''c011a1'' now (c_inj_a_lat c) (c_inj_a_lon c) INJECT_SPEED_KT (fp_lit 90 1)),
      DbUpsert now (fict_aircraft ''c011b2'' now (c_inj_b_lat c) (c_inj_b_lon c) INJECT_SPEED_KT (fp_lit 270 1))]"

definition ghost_stores :: "ms \<Rightarrow> collision \<Rightarrow> db_op list" where
  "ghost_stores now c =
     [DbUpsert now ((fict_aircraft GHOST_ICAO now (c_ghost_lat c) (c_ghost_lon c) GHOST_SPEED_KT (c_ghost_hdg_deg c))
        \<lparr>ac_valid_mask := AIRCRAFT_VALID_ALT OR AIRCRAFT_VALID_VEL OR AIRCRAFT_VALID_HDG, ac_alt_ft := c_ghost_alt_ft c\<rparr>)]"

definition missile_stores :: "ms \<Rightarrow> missile \<Rightarrow> db_op list" where
  "missile_stores now m =
     [DbUpsert now ((fict_aircraft MISSILE_ICAO now (ms_lat m) (ms_lon m) (ms_speed_kt m) (ms_hdg_deg m))
        \<lparr>ac_valid_mask := AIRCRAFT_VALID_ALT OR AIRCRAFT_VALID_VEL OR AIRCRAFT_VALID_HDG, ac_alt_ft := ms_alt_ft m\<rparr>)]"

text \<open>The commands that store, by their words; \<open>s'\<close> is the state after the command.\<close>

definition command_stores :: "string list \<Rightarrow> ms \<Rightarrow> ('q, 'r) controller \<Rightarrow> db_op list" where
  "command_stores path now s' =
     (if path = [''skywatch'', ''db'', ''clear''] then [DbClear]
      else if path = [''skywatch'', ''ble'', ''inject''] then [DbUpsert now (frame_observation (sample_frame now))]
      else if path = [''skywatch'', ''collision'', ''inject''] then inject_stores now (ct_col s')
      else if path = [''skywatch'', ''collision'', ''ghost''] then ghost_stores now (ct_col s')
      else if path = [''skywatch'', ''collision'', ''ghost_at''] then ghost_stores now (ct_col s')
      else if path = [''skywatch'', ''missile'', ''launch''] then missile_stores now (ct_missile s')
      else [])"

text \<open>A step, by the state before and after it.\<close>

fun step_stores ::
  "('q, 'r) environment \<Rightarrow> ct_op \<Rightarrow> ('q, 'r) controller \<Rightarrow> ('q, 'r) controller \<Rightarrow> db_op list" where
  "step_stores en (OpUsbThread now) s s' = (if ux_phase (ct_usb s) = RxDrain
     then chunk_stores (en_json en) now (ux_line (ct_usb s)) (fst (rb_get (en_ring en) 128 (ux_ring (ct_usb s)))) else [])"
| "step_stores en (OpBridge now) s s' = frame_stores now (msgq_get (en_msgq en) (br_msgq (ct_bridge s)))"
| "step_stores en (OpReap now) s s' = [DbReap now]"
| "step_stores en (OpInject now) s s' = (if c_inject_active (ct_col s) then inject_stores now (ct_col s') else [])"
| "step_stores en (OpGhost now) s s' = (if c_ghost_active (ct_col s) then ghost_stores now (ct_col s') else [])"
| "step_stores en (OpMissile now) s s' =
     (if ms_active (ct_missile s) \<and> now < ms_expire_ms (ct_missile s) then missile_stores now (ct_missile s') else [])"
| "step_stores en (OpShell io ws) s s' = (case shell_line en io ws s of
     Some (Inr _, _, _) \<Rightarrow> command_stores (take 3 ws) (io_now io) s' | _ \<Rightarrow> [])"
| "step_stores en _ s s' = []"

named_theorems stores

section \<open>Receiver and bridge\<close>

lemma end_of_line_stores:
  "snd (snd (end_of_line parse lm g now (line, st, db))) = run (db_step lm g) db (line_stores parse now line)"
  "fst (end_of_line parse lm g now (line, st, db)) = []"
  by (simp_all add: end_of_line_def line_stores_def split: sum.split)

lemma rx_chars_store:
  "snd (snd (foldl (rx_char parse lm g now) (line, st, db) cs)) = run (db_step lm g) db (chunk_stores parse now line cs)"
proof (induction cs arbitrary: line st db)
  case (Cons c cs)
  obtain line' st' db' where e: "end_of_line parse lm g now (line, st, db) = (line', st', db')" using prod_cases3 by blast
  have "line' = []" "db' = run (db_step lm g) db (line_stores parse now line)"
    using end_of_line_stores [of parse lm g now line st db] by (simp_all add: e)
  then show ?case using Cons by (simp add: rx_char_def e LINE_BUF_BYTES_def)
qed simp

lemma usb_thread_stores [stores]:
  "ct_db (on_usb_thread en now s) = run (db_step (en_libm en) (ct_kal s)) (ct_db s) (step_stores en (OpUsbThread now) s s')"
proof -
  obtain chunk ring where "rb_get (en_ring en) 128 (ux_ring (ct_usb s)) = (chunk, ring)" by fastforce
  then show ?thesis
    using rx_chars_store [of "en_json en" "en_libm en" "ct_kal s" now "ux_line (ct_usb s)" "ux_stats (ct_usb s)" "ct_db s" chunk]
    by (auto simp: on_usb_thread_def rx_thread_step_def case_prod_unfold Let_def split: rx_phase.split)
qed

lemma bridge_thread_stores [stores]:
  "ct_db (on_bridge_thread en now s) = run (db_step (en_libm en) (ct_kal s)) (ct_db s) (step_stores en (OpBridge now) s s')"
proof (cases "msgq_get (en_msgq en) (br_msgq (ct_bridge s))")
  case (Some fq)
  obtain f q where fq: "fq = (f, q)" by fastforce
  show ?thesis
  proof (cases "frame_accepted f")
    case True
    then show ?thesis using Some fq
      by (simp add: on_bridge_thread_def bridge_thread_step_def convert_accepts frame_stores_def)
  next
    case False
    obtain st' where "bridge_convert f (br_stats (ct_bridge s)) = (Inl EINVAL, st')" using convert_rejects [OF False] by blast
    then show ?thesis using False Some fq by (simp add: on_bridge_thread_def bridge_thread_step_def frame_stores_def)
  qed
qed (simp add: on_bridge_thread_def bridge_thread_step_def frame_stores_def)

section \<open>Work items\<close>

lemma inject_stores_db:
  "snd (inject_step_and_upsert lm g now dt (c, db)) =
     run (db_step lm g) db (inject_stores now (fst (inject_step_and_upsert lm g now dt (c, db))))"
  by (simp add: inject_step_and_upsert_def inject_stores_def Let_def)

lemma inject_stores_cong [simp]:
  "inject_stores now (c\<lparr>c_inject_due := d\<rparr>) = inject_stores now c"
  "inject_stores now (c\<lparr>c_inject_active := b\<rparr>) = inject_stores now c"
  by (simp_all add: inject_stores_def)

lemma ghost_upsert_stores: "ghost_upsert lm g now c db = run (db_step lm g) db (ghost_stores now c)"
  by (simp add: ghost_upsert_def ghost_stores_def)

lemma ghost_stores_cong [simp]:
  "ghost_stores now (c\<lparr>c_ghost_due := d\<rparr>) = ghost_stores now c"
  "ghost_stores now (c\<lparr>c_ghost_active := b\<rparr>) = ghost_stores now c"
  by (simp_all add: ghost_stores_def)

lemma work_items_store [stores]:
  "ct_db (on_inject en now s) =
     run (db_step (en_libm en) (ct_kal s)) (ct_db s) (step_stores en (OpInject now) s (on_inject en now s))"
  "ct_db (on_ghost en now s) =
     run (db_step (en_libm en) (ct_kal s)) (ct_db s) (step_stores en (OpGhost now) s (on_ghost en now s))"
  "ct_db (on_missile en now s) =
     run (db_step (en_libm en) (ct_kal s)) (ct_db s) (step_stores en (OpMissile now) s (on_missile en now s))"
  by (simp_all add: on_inject_def inject_keepalive_handler_def inject_stores_db on_ghost_def ghost_keepalive_handler_def
      ghost_upsert_def ghost_stores_def on_missile_def missile_worker_def missile_upsert_def missile_aircraft_def
      missile_stores_def case_prod_unfold Let_def)

lemma ghost_start_stores:
  "snd (ghost_start_internal lm g now target tca miss alt (c, db)) =
     run (db_step lm g) db (ghost_stores now (fst (ghost_start_internal lm g now target tca miss alt (c, db))))"
  by (simp add: ghost_start_internal_def ghost_upsert_stores Let_def)

section \<open>Commands\<close>

definition stores_as :: "('q, 'r) environment \<Rightarrow> ms \<Rightarrow> string list \<Rightarrow> ('q, 'r) command \<Rightarrow> bool" where
  "stores_as en now path h \<longleftrightarrow> (\<forall>argv s. ct_db (fst (snd (h argv s))) = run (db_step (en_libm en) (ct_kal s)) (ct_db s)
     (case fst (h argv s) of Inr _ \<Rightarrow> command_stores path now (fst (snd (h argv s))) | Inl _ \<Rightarrow> []))"

definition stores_nothing :: "('q, 'r) command \<Rightarrow> bool" where
  "stores_nothing h \<longleftrightarrow> (\<forall>argv s. ct_db (fst (snd (h argv s))) = ct_db s)"

lemma quiet_cmds_store:
  "stores_nothing (cmd_ble_scan_start io)" "stores_nothing cmd_ble_scan_stop" "stores_nothing cmd_ble_disconnect"
  "stores_nothing (cmd_kalman_q en)" "stores_nothing (cmd_kalman_r en)" "stores_nothing cmd_collision_stop"
  "stores_nothing cmd_collision_ghost_stop" "stores_nothing (cmd_diversion en io d)" "stores_nothing cmd_missile_cancel"
  "stores_nothing (cmd_collision_crash en io)"
  by (simp_all add: stores_nothing_def cmd_ble_scan_start_def cmd_ble_scan_stop_def cmd_ble_disconnect_def cmd_kalman_q_def
      cmd_kalman_r_def cmd_collision_stop_def cmd_collision_ghost_stop_def cmd_diversion_def cmd_missile_cancel_def
      cmd_collision_crash_def on_ble_def case_prod_unfold Let_def)

lemma read_only_stores: "read_only h \<Longrightarrow> stores_nothing h"
  by (simp add: read_only_def stores_nothing_def)

definition storing_paths :: "string list list" where
  "storing_paths = map (Cons ''skywatch'') [[''db'', ''clear''], [''ble'', ''inject''], [''collision'', ''inject''],
     [''collision'', ''ghost''], [''collision'', ''ghost_at''], [''missile'', ''launch'']]"

lemma stores_nothing_as: "stores_nothing h \<Longrightarrow> path \<notin> set storing_paths \<Longrightarrow> stores_as en now path h"
  by (auto simp: stores_nothing_def stores_as_def command_stores_def storing_paths_def split: sum.split)

lemma storing_cmds:
  "stores_as en (io_now io) [''skywatch'', ''db'', ''clear''] cmd_db_clear"
  "stores_as en (io_now io) [''skywatch'', ''ble'', ''inject''] (cmd_ble_inject en io)"
  "stores_as en (io_now io) [''skywatch'', ''collision'', ''inject''] (cmd_collision_inject en io)"
  "stores_as en (io_now io) [''skywatch'', ''collision'', ''ghost''] (cmd_collision_ghost en io)"
  "stores_as en (io_now io) [''skywatch'', ''collision'', ''ghost_at''] (cmd_collision_ghost_at en io)"
  "stores_as en (io_now io) [''skywatch'', ''missile'', ''launch''] (cmd_missile_launch en io)"
proof -
  note [simp] = stores_as_def command_stores_def case_prod_unfold Let_def
  show "stores_as en (io_now io) [''skywatch'', ''db'', ''clear''] cmd_db_clear" by (simp add: cmd_db_clear_def)
  show "stores_as en (io_now io) [''skywatch'', ''ble'', ''inject''] (cmd_ble_inject en io)"
    by (simp add: cmd_ble_inject_def convert_accepts [OF sample_frame_accepted])
  show "stores_as en (io_now io) [''skywatch'', ''collision'', ''inject''] (cmd_collision_inject en io)"
    by (simp add: cmd_collision_inject_def collision_inject_scenario_def inject_stores_db)
  show "stores_as en (io_now io) [''skywatch'', ''collision'', ''ghost''] (cmd_collision_ghost en io)"
    by (simp add: cmd_collision_ghost_def collision_ghost_start_def ghost_start_stores split: option.split)
  show "stores_as en (io_now io) [''skywatch'', ''collision'', ''ghost_at''] (cmd_collision_ghost_at en io)"
    by (simp add: cmd_collision_ghost_at_def collision_ghost_start_at_def collision_ghost_start_def
        ghost_start_stores split: option.split sum.split)
  show "stores_as en (io_now io) [''skywatch'', ''missile'', ''launch''] (cmd_missile_launch en io)"
    by (simp add: cmd_missile_launch_def missile_launch_def missile_upsert_def missile_aircraft_def missile_stores_def
        split: option.split)
qed

text \<open>A line of words runs a command that stores what its first three words say.\<close>

lemma table_stores:
  "\<forall>e \<in> set (sub_db en io). \<forall>h \<in> entry_cmds e. stores_as en (io_now io) [''skywatch'', ''db'', entry_name e] h"
  "\<forall>e \<in> set (sub_ble en io). \<forall>h \<in> entry_cmds e. stores_as en (io_now io) [''skywatch'', ''ble'', entry_name e] h"
  "\<forall>e \<in> set (sub_collision en io). \<forall>h \<in> entry_cmds e. stores_as en (io_now io) [''skywatch'', ''collision'', entry_name e] h"
  "\<forall>e \<in> set (sub_missile en io). \<forall>h \<in> entry_cmds e. stores_as en (io_now io) [''skywatch'', ''missile'', entry_name e] h"
  by (simp_all add: shell_tables storing_cmds stores_nothing_as quiet_cmds_store read_only_cmds [THEN read_only_stores]
      storing_paths_def)

lemma group_stores:
  assumes "\<forall>e \<in> set es. \<forall>h \<in> entry_cmds e. stores_as en now [a, b, entry_name e] h" "resolve es (v # vs) = Some (h, argv)"
  shows "stores_as en now [a, b, v] h"
  using resolve_head [OF assms(2)] assms(1) by blast

lemma resolve_stores:
  assumes "resolve (shell_root en io) ws = Some (h, argv)" shows "stores_as en (io_now io) (take 3 ws) h"
proof -
  obtain ws1 where 1: "ws = ''skywatch'' # ws1" "resolve (sub_skywatch en io) ws1 = Some (h, argv)"
    using assms by (cases ws) (auto simp: shell_root_def split: if_splits)
  obtain w ws2 where 2: "ws1 = w # ws2" using 1(2) by (cases ws1) auto
  show ?thesis
  proof (cases "w \<in> {''db'', ''ble'', ''collision'', ''missile''}")
    case True
    obtain v vs where "ws2 = v # vs" using 1(2) True 2 by (cases ws2) (auto simp: sub_skywatch_def)
    then show ?thesis using True 1 2 group_stores [OF table_stores(1) [of en io], of v vs h argv]
        group_stores [OF table_stores(2) [of en io], of v vs h argv] group_stores [OF table_stores(3) [of en io], of v vs h argv]
        group_stores [OF table_stores(4) [of en io], of v vs h argv]
      by (auto simp: sub_skywatch_def numeral_eq_Suc)
  next
    case False
    have "\<forall>e \<in> set (sub_skywatch en io). entry_name e \<notin> {''db'', ''ble'', ''collision'', ''missile''}
        \<longrightarrow> (\<forall>h \<in> entry_cmds e. stores_nothing h)"
      by (simp add: shell_tables quiet_cmds_store read_only_cmds [THEN read_only_stores])
    moreover obtain e where "e \<in> set (sub_skywatch en io)" "entry_name e = w" "h \<in> entry_cmds e"
      using resolve_head [of "sub_skywatch en io" w ws2] 1(2) 2 by blast
    ultimately have "stores_nothing h" using False by blast
    moreover have "take 3 ws \<notin> set storing_paths" using False 1(1) 2 by (auto simp: storing_paths_def)
    ultimately show ?thesis by (rule stores_nothing_as)
  qed
qed

lemma shell_stores [stores]:
  "ct_db (fst (ct_exec en (OpShell io ws) s)) = run (db_step (en_libm en) (ct_kal s)) (ct_db s)
     (step_stores en (OpShell io ws) s (fst (ct_exec en (OpShell io ws) s)))"
proof (cases "shell_line en io ws s")
  case (Some r)
  obtain rc s' out where r: "r = (rc, s', out)" using prod_cases3 by blast
  obtain h argv where h: "resolve (shell_root en io) ws = Some (h, argv)" "h argv s = (rc, s', out)"
    using Some by (auto simp: shell_line_def r split: option.splits)
  have "ct_db s' = run (db_step (en_libm en) (ct_kal s)) (ct_db s)
      (case rc of Inr _ \<Rightarrow> command_stores (take 3 ws) (io_now io) s' | Inl _ \<Rightarrow> [])"
    using resolve_stores [OF h(1)] unfolding stores_as_def by (metis h(2) fst_conv snd_conv)
  then show ?thesis by (simp add: Some r split: sum.splits)
qed simp

section \<open>Steps\<close>

lemma step_stores_exactly:
  "ct_db (ct_step en x s) = run (db_step (en_libm en) (ct_kal s)) (ct_db s) (step_stores en x s (ct_step en x s))"
proof (cases x)
  case (OpShell io ws)
  then show ?thesis using shell_stores [of en io ws s] by (simp only: ct_step_def)
qed (simp_all add: ct_step_def stores del: step_stores.simps(1-6), simp_all add: controller_defs case_prod_unfold Let_def)

text \<open>When a step happens, for those that look at the clock.\<close>

fun op_time :: "ct_op \<Rightarrow> ms option" where
  "op_time (OpUsbThread now) = Some now"
| "op_time (OpBridge now) = Some now"
| "op_time (OpReap now) = Some now"
| "op_time (OpTick rc ready dtr now) = Some now"
| "op_time (OpInject now) = Some now"
| "op_time (OpGhost now) = Some now"
| "op_time (OpMissile now) = Some now"
| "op_time (OpPublish ready dtr now) = Some now"
| "op_time (OpAdvert rc now addr type ad) = Some now"
| "op_time (OpWatchdog rc now) = Some now"
| "op_time (OpShell io ws) = Some (io_now io)"
| "op_time _ = None"

lemma line_stores_at: "list_all (op_at (Some now)) (line_stores parse now line)"
  by (simp add: line_stores_def split: sum.split)

lemma chunk_stores_at: "list_all (op_at (Some now)) (chunk_stores parse now line cs)"
  by (induction parse now line cs rule: chunk_stores.induct) (simp_all add: line_stores_at)

lemma step_stores_at: "list_all (op_at (op_time x)) (step_stores en x s s')"
  by (cases x) (auto simp: chunk_stores_at frame_stores_def inject_stores_def ghost_stores_def missile_stores_def
      command_stores_def split: option.split sum.split)

text \<open>What every operation of the database keeps, every step of the controller keeps.\<close>

lemma step_keeps:
  assumes "P (ct_db s)" "\<And>y d. op_at (op_time x) y \<Longrightarrow> P d \<Longrightarrow> P (db_step (en_libm en) (ct_kal s) y d)"
  shows "P (ct_db (ct_step en x s))"
proof -
  have "list_all (op_at (op_time x)) ops \<Longrightarrow> P d \<Longrightarrow> P (run (db_step (en_libm en) (ct_kal s)) d ops)" for ops d
    by (induction ops arbitrary: d) (simp_all add: assms(2))
  then show ?thesis unfolding step_stores_exactly using step_stores_at assms(1) by blast
qed

lemma controller_db_sound:
  "db_sound (ct_db s) \<Longrightarrow> db_sound (ct_db (ct_step en x s))"
  by (rule step_keeps) (simp_all add: db_pred_sys.inv_step)

lemma controller_db_sound_run:
  "db_sound (ct_db s) \<Longrightarrow> db_sound (ct_db (run (ct_step en) s ops))"
  by (induction ops arbitrary: s) (simp_all add: controller_db_sound)

lemma started_db [simp]: "ct_db (started en b enable now q r) = aircraft_db_init"
  by (simp add: started_def controller_main_def Let_def case_prod_unfold)

end
