(* ===== verification/Schedule.thy ===== *)
theory Schedule
  imports Db_Use
begin

text \<open>
  The controller on a clock.  Time passes between its steps; a thread that sleeps and a work
  item that was scheduled run when their time has come, at most \<open>L\<close> milliseconds late, which is
  what the kernel owes them.  Everything else happens at any time.
\<close>

section \<open>What is scheduled when\<close>

text \<open>A due time that lies at most a period ahead, and that has not been missed by more than \<open>L\<close>.\<close>

definition timely :: "ms \<Rightarrow> ms \<Rightarrow> ms \<Rightarrow> ms option \<Rightarrow> bool" where
  "timely L period now due \<longleftrightarrow> (case due of None \<Rightarrow> True | Some d \<Rightarrow> now \<le> d + L \<and> d \<le> now + period)"

lemma timely_simps [simp]:
  "timely L p now None" "timely L p now (Some d) \<longleftrightarrow> now \<le> d + L \<and> d \<le> now + p"
  by (simp_all add: timely_def)

definition missile_on_time :: "ms \<Rightarrow> ms \<Rightarrow> missile \<Rightarrow> bool" where
  "missile_on_time L now m \<longleftrightarrow> (ms_active m \<longrightarrow> ms_due m \<noteq> None) \<and> timely L MISSILE_TICK_MS now (ms_due m)
     \<and> (case ms_due m of None \<Rightarrow> True | Some d \<Rightarrow> d \<le> max (ms_launch_ms m) (ms_expire_ms m) + MISSILE_TICK_MS)"

fun work_on_time :: "ms \<Rightarrow> ms \<Rightarrow> missile \<times> bool \<times> ms option \<times> bool \<times> ms option \<Rightarrow> bool" where
  "work_on_time L now (m, inject, inject_due, ghost, ghost_due) \<longleftrightarrow> missile_on_time L now m
     \<and> (inject \<longrightarrow> inject_due \<noteq> None) \<and> timely L INJECT_TICK_MS now inject_due
     \<and> (ghost \<longrightarrow> ghost_due \<noteq> None) \<and> timely L GHOST_TICK_MS now ghost_due"

definition on_time :: "ms \<Rightarrow> ms \<Rightarrow> ('q, 'r) controller \<Rightarrow> bool" where
  "on_time L now s \<longleftrightarrow> c_due (ct_col s) \<noteq> None \<and> timely L COLLISION_TICK_MS now (c_due (ct_col s))
     \<and> pb_due (ct_pub s) \<noteq> None \<and> timely L PUBLISH_PERIOD_MS now (pb_due (ct_pub s))
     \<and> work_on_time L now (ct_missile s, timers (ct_col s))"

lemma on_timeI:
  assumes "on_time L now s" "c_due (ct_col s') = c_due (ct_col s)" "pb_due (ct_pub s') = pb_due (ct_pub s)"
    "work_on_time L now (ct_missile s', timers (ct_col s'))"
  shows "on_time L now s'"
  using assms by (simp add: on_time_def)

lemmas periods = MISSILE_TICK_MS_def INJECT_TICK_MS_def GHOST_TICK_MS_def COLLISION_TICK_MS_def PUBLISH_PERIOD_MS_def

section \<open>Every step schedules in time\<close>

lemma missile_time_cancel: "missile_on_time L now m \<Longrightarrow> missile_on_time L now (snd (missile_cancel m))"
  by (auto simp: missile_on_time_def missile_cancel_def split: option.splits)

lemma missile_time_worker: "missile_on_time L now m \<Longrightarrow> 0 \<le> L \<Longrightarrow> missile_on_time L now (fst (missile_worker lm g now (m, db)))"
  by (auto simp: missile_worker_def missile_on_time_def MISSILE_TICK_MS_def Let_def split: option.splits)

lemma missile_time_launch:
  "missile_on_time L now m \<Longrightarrow> 0 \<le> L \<Longrightarrow> missile_on_time L now (fst (snd (missile_launch lm g now ttl turn speed (m, db))))"
  by (auto simp: missile_launch_def missile_on_time_def MISSILE_TICK_MS_def Let_def split: option.splits)

lemma inject_fields [simp]:
  "c_inject_active (fst (inject_step_and_upsert lm g now dt (c, db))) = c_inject_active c"
  "c_inject_due (fst (inject_step_and_upsert lm g now dt (c, db))) = c_inject_due c"
  "c_ghost_active (fst (inject_step_and_upsert lm g now dt (c, db))) = c_ghost_active c"
  "c_ghost_due (fst (inject_step_and_upsert lm g now dt (c, db))) = c_ghost_due c"
  "c_due (fst (inject_step_and_upsert lm g now dt (c, db))) = c_due c"
  by (simp_all add: inject_step_and_upsert_def Let_def)

lemma drop_ghost_fields [simp]:
  "c_inject_active (drop_ghost_pairs n c) = c_inject_active c" "c_inject_due (drop_ghost_pairs n c) = c_inject_due c"
  "c_ghost_active (drop_ghost_pairs n c) = c_ghost_active c" "c_ghost_due (drop_ghost_pairs n c) = c_ghost_due c"
  "c_due (drop_ghost_pairs n c) = c_due c"
  by (induction n arbitrary: c) (simp_all add: tracked_remove_def)

lemma scenario_due [simp]:
  "c_due (fst (inject_keepalive_handler lm g now (c, db))) = c_due c"
  "c_due (fst (collision_inject_scenario lm g now (c, db))) = c_due c"
  "c_due (fst (ghost_keepalive_handler lm g now (c, db))) = c_due c"
  "c_due (fst (ghost_start_internal lm g now t tca miss alt (c, db))) = c_due c"
  "c_due (fst (snd (collision_ghost_start lm g now tca miss alt (c, db)))) = c_due c"
  "c_due (fst (snd (collision_ghost_start_at lm g now icao tca miss alt (c, db)))) = c_due c"
  "c_due (fst (snd (collision_crash_trigger conn now db a b (c, m)))) = c_due c"
  by (auto simp: inject_keepalive_handler_def collision_inject_scenario_def inject_reset_state_def ghost_keepalive_handler_def
      ghost_start_internal_def collision_ghost_start_def collision_ghost_start_at_def collision_crash_trigger_def
      emit_collision_def send_events_def case_prod_unfold Let_def split: option.splits sum.splits)

lemma inject_time:
  assumes "work_on_time L now (m, timers c)" "0 \<le> L"
  shows "work_on_time L now (m, timers (fst (inject_keepalive_handler lm g now (c, db))))"
    "work_on_time L now (m, timers (fst (collision_inject_scenario lm g now (c, db))))"
  using assms by (simp_all add: inject_keepalive_handler_def collision_inject_scenario_def inject_reset_state_def timers_def
      case_prod_unfold Let_def INJECT_TICK_MS_def)

lemma ghost_time:
  assumes "work_on_time L now (m, timers c)" "0 \<le> L"
  shows "work_on_time L now (m, timers (fst (ghost_keepalive_handler lm g now (c, db))))"
    "work_on_time L now (m, timers (fst (ghost_start_internal lm g now t tca miss alt (c, db))))"
  using assms by (simp_all add: ghost_keepalive_handler_def ghost_start_internal_def timers_def Let_def GHOST_TICK_MS_def)

lemma ghost_start_time:
  assumes "work_on_time L now (m, timers c)" "0 \<le> L"
  shows "work_on_time L now (m, timers (fst (snd (collision_ghost_start lm g now tca miss alt (c, db)))))"
    "work_on_time L now (m, timers (fst (snd (collision_ghost_start_at lm g now icao tca miss alt (c, db)))))"
  using ghost_time(2) [OF assms] assms(1)
  by (auto simp: collision_ghost_start_def collision_ghost_start_at_def split: option.splits sum.splits)

lemma crash_trigger_time [simp]: "timers (fst (snd (collision_crash_trigger conn now db a b (c, m)))) = timers c"
  by (auto simp: collision_crash_trigger_def emit_collision_def send_events_def timers_def Let_def split: sum.splits prod.splits)

section \<open>Commands\<close>

definition cmd_on_time :: "ms \<Rightarrow> ms \<Rightarrow> ('q, 'r) command \<Rightarrow> bool" where
  "cmd_on_time L now h \<longleftrightarrow> (\<forall>argv s. on_time L now s \<longrightarrow> on_time L now (fst (snd (h argv s))))"

lemma cmd_on_timeI:
  assumes "\<And>argv s. c_due (ct_col (fst (snd (h argv s)))) = c_due (ct_col s)"
    "\<And>argv s. ct_pub (fst (snd (h argv s))) = ct_pub s"
    "\<And>argv s. work_on_time L now (ct_missile s, timers (ct_col s))
      \<Longrightarrow> work_on_time L now (ct_missile (fst (snd (h argv s))), timers (ct_col (fst (snd (h argv s)))))"
  shows "cmd_on_time L now h"
  using assms unfolding cmd_on_time_def on_time_def by simp

lemma read_only_time: "read_only h \<Longrightarrow> cmd_on_time L now h"
  by (simp add: read_only_def cmd_on_time_def)

lemma other_cmds_time:
  "cmd_on_time L now (cmd_ble_scan_start io)" "cmd_on_time L now cmd_ble_scan_stop" "cmd_on_time L now cmd_ble_disconnect"
  "cmd_on_time L now (cmd_kalman_q en)" "cmd_on_time L now (cmd_kalman_r en)" "cmd_on_time L now cmd_collision_stop"
  "cmd_on_time L now cmd_collision_ghost_stop" "cmd_on_time L now (cmd_diversion en io d)"
  "cmd_on_time L now cmd_db_clear" "cmd_on_time L now (cmd_ble_inject en io)"
  by (rule cmd_on_timeI; simp add: simple_cmd_defs cmd_db_clear_def cmd_ble_inject_def
      convert_accepts [OF sample_frame_accepted] timers_def case_prod_unfold Let_def)+

text \<open>The missile and the keepalives, after a command that touches them.\<close>

lemma work_missile: "work_on_time L now (m, w) \<Longrightarrow> missile_on_time L now m' \<Longrightarrow> work_on_time L now (m', w)"
  by (cases w) simp

lemma work_on_timeD: "work_on_time L now (m, w) \<Longrightarrow> missile_on_time L now m"
  by (cases w) simp

lemma work_cancel: "work_on_time L now (m, w) \<Longrightarrow> work_on_time L now (snd (missile_cancel m), w)"
  by (rule work_missile [OF _ missile_time_cancel [OF work_on_timeD]])

lemma timer_cmds_time:
  assumes "0 \<le> L"
  shows "cmd_on_time L (io_now io) (cmd_collision_inject en io)" "cmd_on_time L (io_now io) (cmd_collision_ghost en io)"
    "cmd_on_time L (io_now io) (cmd_collision_ghost_at en io)" "cmd_on_time L now (cmd_collision_crash en io)"
    "cmd_on_time L (io_now io) (cmd_missile_launch en io)" "cmd_on_time L now cmd_missile_cancel"
proof -
  note [simp] = case_prod_unfold Let_def
  show "cmd_on_time L (io_now io) (cmd_collision_inject en io)"
    by (rule cmd_on_timeI) (simp_all add: cmd_collision_inject_def inject_time(2) [OF _ assms])
  show "cmd_on_time L (io_now io) (cmd_collision_ghost en io)"
    by (rule cmd_on_timeI) (simp_all add: cmd_collision_ghost_def ghost_start_time(1) [OF _ assms])
  show "cmd_on_time L (io_now io) (cmd_collision_ghost_at en io)"
    by (rule cmd_on_timeI) (simp_all add: cmd_collision_ghost_at_def ghost_start_time(2) [OF _ assms])
  show "cmd_on_time L now (cmd_collision_crash en io)"
    by (rule cmd_on_timeI) (simp_all add: cmd_collision_crash_def)
  show "cmd_on_time L (io_now io) (cmd_missile_launch en io)"
    by (rule cmd_on_timeI)
      (simp_all add: cmd_missile_launch_def work_missile [OF _ missile_time_launch [OF work_on_timeD assms]])
  show "cmd_on_time L now cmd_missile_cancel"
    by (rule cmd_on_timeI) (simp_all add: cmd_missile_cancel_def work_cancel)
qed

lemma shell_time:
  assumes "0 \<le> L" "on_time L (io_now io) s" "shell_line en io ws s = Some (r, s', out)"
  shows "on_time L (io_now io) s'"
proof -
  obtain h argv where h: "resolve (shell_root en io) ws = Some (h, argv)" and s': "s' = fst (snd (h argv s))"
    using assms(3) by (auto simp: shell_line_def split: option.splits)
  have "cmd_on_time L (io_now io) h"
    using resolve_cmd [OF h] read_only_cmds [THEN read_only_time] other_cmds_time timer_cmds_time [OF assms(1)]
    by (auto simp: shell_tables)
  then show ?thesis using assms(2) by (simp add: cmd_on_time_def s')
qed

lemma step_time:
  assumes "0 \<le> L" "on_time L now s" "op_time x = None \<or> op_time x = Some now"
  shows "on_time L now (ct_step en x s)"
proof (cases x)
  case (OpTick rc ready dtr t)
  have w: "work_on_time L now (ct_missile s, timers (ct_col s))" using assms(2) by (simp add: on_time_def)
  obtain c m out where r: "work_handler (en_libm en) (ble_central_is_connected (ct_ble s)) now (ct_db s) (ct_col s, ct_missile s) = (c, m, out)"
    by (rule prod_cases3)
  have "case work_handler (en_libm en) (ble_central_is_connected (ct_ble s)) now (ct_db s) (ct_col s, ct_missile s) of
      (c, m, out) \<Rightarrow> work_on_time L now (m, timers c) \<and> c_due c = Some (now + COLLISION_TICK_MS)"
    by (rule tick_work [where P = "work_on_time L now"]) (use w in \<open>auto intro: work_cancel\<close>)
  then show ?thesis using assms OpTick
    by (simp add: ct_step_def on_collision_tick_def on_time_def r COLLISION_TICK_MS_def)
next
  case (OpShell io ws)
  then show ?thesis using assms shell_time [OF assms(1), of io s en ws]
    by (cases "shell_line en io ws s") (auto simp: ct_step_def)
next
  case (OpPublish ready dtr t)
  then show ?thesis using assms
    by (simp add: ct_step_def on_publish_def publisher_work_def on_time_def PUBLISH_PERIOD_MS_def case_prod_unfold Let_def)
next
  case (OpMissile t)
  have "missile_on_time L now (ct_missile s)" using assms(2) work_on_timeD unfolding on_time_def by blast
  from missile_time_worker [OF this assms(1)] show ?thesis using assms OpMissile
    by (auto simp: ct_step_def on_missile_def on_time_def case_prod_unfold Let_def intro: work_missile)
qed (use assms in \<open>auto simp: ct_step_def controller_defs case_prod_unfold Let_def
    intro!: on_timeI [OF assms(2)] inject_time(1) ghost_time(1) simp: on_time_def\<close>)

section \<open>Steps on the clock\<close>

record ('q, 'r) timed =
  tm_now :: ms
  tm_ctl :: "('q, 'r) controller"
  tm_reap :: ms
  tm_wd :: ms

datatype timed_event = Wait ms | Do ct_op

text \<open>When the step's thread or work item is due; the other steps may come any time.\<close>

fun work_due :: "('q, 'r) timed \<Rightarrow> ct_op \<Rightarrow> ms option" where
  "work_due s (OpReap now) = Some (tm_reap s)"
| "work_due s (OpWatchdog rc now) = Some (tm_wd s)"
| "work_due s (OpTick rc ready dtr now) = c_due (ct_col (tm_ctl s))"
| "work_due s (OpInject now) = c_inject_due (ct_col (tm_ctl s))"
| "work_due s (OpGhost now) = c_ghost_due (ct_col (tm_ctl s))"
| "work_due s (OpMissile now) = ms_due (ct_missile (tm_ctl s))"
| "work_due s (OpPublish ready dtr now) = pb_due (ct_pub (tm_ctl s))"
| "work_due s _ = Some (tm_now s)"

definition may_run :: "('q, 'r) timed \<Rightarrow> ct_op \<Rightarrow> bool" where
  "may_run s x \<longleftrightarrow> (op_time x = None \<or> op_time x = Some (tm_now s))
     \<and> (case work_due s x of None \<Rightarrow> False | Some d \<Rightarrow> d \<le> tm_now s)"

definition all_due :: "('q, 'r) timed \<Rightarrow> ms list" where
  "all_due s = tm_reap s # tm_wd s # map the (filter (\<lambda>d. d \<noteq> None)
     [c_due (ct_col (tm_ctl s)), c_inject_due (ct_col (tm_ctl s)), c_ghost_due (ct_col (tm_ctl s)),
      ms_due (ct_missile (tm_ctl s)), pb_due (ct_pub (tm_ctl s))])"

text \<open>A step; the two threads go back to sleep after their round.\<close>

definition perform :: "('q, 'r) environment \<Rightarrow> ct_op \<Rightarrow> ('q, 'r) timed \<Rightarrow> ('q, 'r) timed" where
  "perform en x s =
     (let s1 = s\<lparr>tm_ctl := ct_step en x (tm_ctl s)\<rparr>
      in case x of
           OpReap now \<Rightarrow> s1\<lparr>tm_reap := snd (reaper_thread_fn now (ct_db (tm_ctl s)))\<rparr>
         | OpWatchdog rc now \<Rightarrow> s1\<lparr>tm_wd := now + WD_PERIOD_MS\<rparr>
         | _ \<Rightarrow> s1)"

inductive timed_step :: "('q, 'r) environment \<Rightarrow> ms \<Rightarrow> ('q, 'r) timed \<Rightarrow> timed_event \<Rightarrow> ('q, 'r) timed \<Rightarrow> bool" for en L where
  Wait: "0 \<le> d \<Longrightarrow> list_all (\<lambda>t. tm_now s + d \<le> t + L) (all_due s) \<Longrightarrow> timed_step en L s (Wait d) (s\<lparr>tm_now := tm_now s + d\<rparr>)"
| Do: "may_run s x \<Longrightarrow> timed_step en L s (Do x) (perform en x s)"

inductive_cases timed_stepE: "timed_step en L s ev s'"

text \<open>
  The start: the reaper was spawned before \<open>main\<close>, which started everything else; the clock
  stands where \<open>main\<close> is done.
\<close>

definition timed_start :: "('q, 'r) environment \<Rightarrow> bt_rc \<Rightarrow> ms \<Rightarrow> 'q \<Rightarrow> 'r \<Rightarrow> ('q, 'r) timed" where
  "timed_start en b t0 q r = \<lparr>tm_now = t0, tm_ctl = started en b (Inr ()) t0 q r, tm_reap = reaper_spawn t0,
     tm_wd = t0 + WD_PERIOD_MS\<rparr>"

inductive timed_reachable :: "('q, 'r) environment \<Rightarrow> ms \<Rightarrow> ('q, 'r) timed \<Rightarrow> ('q, 'r) timed \<Rightarrow> bool" for en L s0 where
  Start: "timed_reachable en L s0 s0"
| Move: "timed_reachable en L s0 s \<Longrightarrow> timed_step en L s ev s' \<Longrightarrow> timed_reachable en L s0 s'"

lemma perform_simps [simp]:
  "tm_now (perform en x s) = tm_now s" "tm_ctl (perform en x s) = ct_step en x (tm_ctl s)"
  "tm_reap (perform en x s) = (case x of OpReap now \<Rightarrow> now + REAPER_TICK_MS | _ \<Rightarrow> tm_reap s)"
  "tm_wd (perform en x s) = (case x of OpWatchdog rc now \<Rightarrow> now + WD_PERIOD_MS | _ \<Rightarrow> tm_wd s)"
  by (simp_all add: perform_def Let_def split: ct_op.splits)

section \<open>Nothing scheduled is forgotten\<close>

definition timed_inv :: "ms \<Rightarrow> ('q, 'r) timed \<Rightarrow> bool" where
  "timed_inv L s \<longleftrightarrow> on_time L (tm_now s) (tm_ctl s) \<and> timely L REAPER_TICK_MS (tm_now s) (Some (tm_reap s))
     \<and> timely L WD_PERIOD_MS (tm_now s) (Some (tm_wd s))"

lemma timely_later: "timely L p now due \<Longrightarrow> 0 \<le> d \<Longrightarrow> (\<And>t. due = Some t \<Longrightarrow> now + d \<le> t + L) \<Longrightarrow> timely L p (now + d) due"
  by (cases due) auto

lemma timed_inv_wait:
  assumes "timed_inv L s" "0 \<le> d" "list_all (\<lambda>t. tm_now s + d \<le> t + L) (all_due s)"
  shows "timed_inv L (s\<lparr>tm_now := tm_now s + d\<rparr>)"
proof -
  have due: "tm_now s + d \<le> t + L" if "Some t \<in> {Some (tm_reap s), Some (tm_wd s), c_due (ct_col (tm_ctl s)),
      c_inject_due (ct_col (tm_ctl s)), c_ghost_due (ct_col (tm_ctl s)), ms_due (ct_missile (tm_ctl s)), pb_due (ct_pub (tm_ctl s))}" for t
    using that assms(3) by (auto simp: all_due_def split: if_splits)
  have later: "timely L p (tm_now s + d) t" if "timely L p (tm_now s) t"
      "t \<in> {Some (tm_reap s), Some (tm_wd s), c_due (ct_col (tm_ctl s)), c_inject_due (ct_col (tm_ctl s)),
        c_ghost_due (ct_col (tm_ctl s)), ms_due (ct_missile (tm_ctl s)), pb_due (ct_pub (tm_ctl s))}" for p t
    using that due by (intro timely_later [OF _ assms(2)]) auto
  show ?thesis using assms(1)
    by (simp add: timed_inv_def on_time_def missile_on_time_def timers_def later del: timely_simps(2))
qed

lemma timed_inv_do:
  assumes "timed_inv L s" "0 \<le> L" "may_run s x"
  shows "timed_inv L (perform en x s)"
proof -
  have t: "op_time x = None \<or> op_time x = Some (tm_now s)" using assms(3) by (simp add: may_run_def)
  have "on_time L (tm_now s) (ct_step en x (tm_ctl s))"
    using assms(1) by (intro step_time [OF assms(2) _ t]) (simp add: timed_inv_def)
  then show ?thesis using assms(1,2) t
    by (cases x) (simp_all add: timed_inv_def REAPER_TICK_MS_def WD_PERIOD_MS_def)
qed

lemma started_on_time:
  assumes "0 \<le> L" shows "on_time L now (started en b enable now q r)"
  using assms by (simp add: on_time_def started_def controller_main_def controller_boot_def collision_init_def
      db_publisher_init_def missile_zero_def missile_on_time_def timers_def COLLISION_TICK_MS_def PUBLISH_PERIOD_MS_def
      case_prod_unfold Let_def)

lemma timed_inv_start: "0 \<le> L \<Longrightarrow> timed_inv L (timed_start en b t0 q r)"
  by (simp add: timed_inv_def timed_start_def started_on_time reaper_spawn_def REAPER_TICK_MS_def WD_PERIOD_MS_def)

lemma timed_inv_reachable:
  assumes "0 \<le> L" shows "timed_reachable en L (timed_start en b t0 q r) s \<Longrightarrow> timed_inv L s"
proof (induction rule: timed_reachable.induct)
  case Start
  show ?case by (rule timed_inv_start [OF assms])
next
  case (Move s ev s')
  from Move.hyps(2) show ?case
    by cases (use Move.IH timed_inv_wait timed_inv_do [OF _ assms] in simp_all)
qed

section \<open>How old an entry of the database can be\<close>

definition seen_within :: "ms \<Rightarrow> ms \<Rightarrow> aircraft_db \<Rightarrow> bool" where
  "seen_within lo hi db \<longleftrightarrow> db_inv db \<and> (\<forall>e \<in> set (db_rows db). lo \<le> de_last_seen_ms e \<and> de_last_seen_ms e \<le> hi)"

lemma upsert_seen:
  assumes "db_inv db" "e \<in> set (db_rows (snd (aircraft_db_upsert lm g now a db)))"
  shows "e \<in> set (db_rows db) \<or> de_last_seen_ms e = now"
proof -
  obtain rc db' where u: "aircraft_db_upsert lm g now a db = (rc, db')" by fastforce
  have s: "(rc, db_rows db') = spec_upsert lm g now a (db_rows db)" using upsert_refines [OF assms(1) u] by simp
  have t: "de_last_seen_ms (refreshed_entry lm g now a x) = now" "de_last_seen_ms (fresh_entry lm g now a) = now" for x
    by (simp_all add: refreshed_entry_def fresh_entry_def)
  consider "db_rows db' = db_rows db" | "db_rows db' = db_rows db @ [fresh_entry lm g now a]"
    | k where "db_rows db' = (db_rows db)[k := refreshed_entry lm g now a (db_rows db ! k)]"
    using s by (auto simp: spec_upsert_def split: if_splits option.splits)
  then show ?thesis
    by cases (use assms(2) t in \<open>auto simp: u dest!: set_update_subset_insert [THEN subsetD]\<close>)
qed

lemma seen_within_op:
  assumes "seen_within lo now db" "lo \<le> now" "op_at (Some now) x"
  shows "seen_within lo now (db_step lm g x db)"
proof (cases x)
  case (DbUpsert t a)
  then show ?thesis using assms upsert_seen by (fastforce simp: seen_within_def db_inv_upsert)
next
  case (DbReap t)
  then show ?thesis using assms reap_result by (auto simp: seen_within_def)
next
  case DbClear
  then show ?thesis using assms clear_result by (auto simp: seen_within_def)
qed (use assms in simp)

lemma step_seen_within:
  assumes "seen_within lo now (ct_db s)" "lo \<le> now" "op_time x = None \<or> op_time x = Some now"
  shows "seen_within lo now (ct_db (ct_step en x s))"
proof -
  have "op_at (Some now) y" if "op_at (op_time x) y" for y using that assms(3) by (cases y) auto
  then show ?thesis
    using step_keeps [where P = "seen_within lo now", OF assms(1)] seen_within_op [OF _ assms(2)] by blast
qed

text \<open>At any time no entry is older than what the reaper's last round left, plus the time since.\<close>

definition ages_ok :: "('q, 'r) timed \<Rightarrow> bool" where
  "ages_ok s \<longleftrightarrow> seen_within (tm_reap s - REAPER_TICK_MS - AIRCRAFT_DB_STALE_MS) (tm_now s) (ct_db (tm_ctl s))"

lemma ages_ok_reachable:
  assumes "0 \<le> L" "timed_reachable en L (timed_start en b t0 q r) s"
  shows "ages_ok s"
  using assms(2)
proof (induction rule: timed_reachable.induct)
  case Start
  show ?case using db_inv_init by (simp add: ages_ok_def seen_within_def timed_start_def)
next
  case (Move s ev s')
  from Move.hyps(2) show ?case
  proof cases
    case (Wait d)
    then show ?thesis using Move.IH by (fastforce simp: ages_ok_def seen_within_def)
  next
    case (Do x)
    let ?lo = "tm_reap s - REAPER_TICK_MS - AIRCRAFT_DB_STALE_MS"
    have t: "op_time x = None \<or> op_time x = Some (tm_now s)" using Do by (simp add: may_run_def)
    have "tm_reap s \<le> tm_now s + REAPER_TICK_MS" using timed_inv_reachable [OF assms(1) Move.hyps(1)] by (simp add: timed_inv_def)
    then have lo: "?lo \<le> tm_now s" by (simp add: AIRCRAFT_DB_STALE_MS_def)
    have w: "seen_within ?lo (tm_now s) (ct_db (ct_step en x (tm_ctl s)))"
      using Move.IH by (intro step_seen_within [OF _ lo t]) (simp add: ages_ok_def)
    show ?thesis
    proof (cases "\<exists>now. x = OpReap now")
      case True
      then have x: "x = OpReap (tm_now s)" using t by auto
      have "db_rows (ct_db (ct_step en x (tm_ctl s))) = filter (fresh_enough (tm_now s)) (db_rows (ct_db (tm_ctl s)))"
        using Move.IH reap_result by (simp add: x ct_step_def on_reaper_def ages_ok_def seen_within_def)
      then show ?thesis using Do w x by (auto simp: ages_ok_def seen_within_def fresh_enough_def AIRCRAFT_DB_STALE_MS_def)
    next
      case False
      then have "tm_reap s' = tm_reap s" using Do by (cases x) auto
      then show ?thesis using Do w by (simp add: ages_ok_def)
    qed
  qed
qed

section \<open>How long the link can stay idle\<close>

definition link_idle :: "('q, 'r) timed \<Rightarrow> bool" where
  "link_idle s \<longleftrightarrow> (let b = ct_ble (tm_ctl s) in \<not> g_connected b \<and> \<not> g_connecting b \<and> \<not> g_scanning b)"

abbreviation last_attempt :: "('q, 'r) timed \<Rightarrow> ms" where
  "last_attempt s \<equiv> g_last_attempt_ms (ct_ble (tm_ctl s))"

text \<open>The stack accepts to start a scan in this step, or says that one runs already.\<close>

definition scan_ok :: "bt_rc \<Rightarrow> bool" where
  "scan_ok rc \<longleftrightarrow> rc_scan_start rc = Inr () \<or> rc_scan_start rc = Inl EALREADY"

fun accepts_scan :: "timed_event \<Rightarrow> bool" where
  "accepts_scan (Do (OpAdvert rc now addr type ad)) \<longleftrightarrow> scan_ok rc"
| "accepts_scan (Do (OpWatchdog rc now)) \<longleftrightarrow> scan_ok rc"
| "accepts_scan _ \<longleftrightarrow> True"

lemma scan_start_attempt [simp]: "g_last_attempt_ms (fst (ble_central_scan_start rc b)) = g_last_attempt_ms b"
  by (simp add: ble_central_scan_start_def)

lemma advert_attempt:
  "g_last_attempt_ms (fst (device_found rc now addr type ad b)) \<in> {g_last_attempt_ms b, now}"
  by (rule device_found_cases [of rc now addr type ad b]) (simp_all add: do_connect_def case_prod_unfold Let_def)

lemma advert_not_idle:
  assumes "scan_ok rc" "\<not> g_connected (fst (device_found rc now addr type ad b))" "\<not> g_connecting (fst (device_found rc now addr type ad b))"
    "\<not> g_scanning (fst (device_found rc now addr type ad b))"
  shows "g_last_attempt_ms (fst (device_found rc now addr type ad b)) = g_last_attempt_ms b"
proof (rule device_found_cases [of rc now addr type ad b])
  fix rs
  assume d: "device_found rc now addr type ad b = do_connect rc now addr (b\<lparr>g_scan_results := rs, g_last_connected := Some addr\<rparr>)"
    and n: "\<not> g_connected b" "\<not> g_connecting b"
  then show ?thesis using assms
    by (auto simp: do_connect_def ble_central_scan_start_def scan_ok_def case_prod_unfold Let_def split: if_splits)
qed simp

definition cmd_keeps_attempt :: "('q, 'r) command \<Rightarrow> bool" where
  "cmd_keeps_attempt h \<longleftrightarrow> (\<forall>argv s. g_last_attempt_ms (ct_ble (fst (snd (h argv s)))) = g_last_attempt_ms (ct_ble s))"

lemma cmds_keep_attempt:
  "read_only h \<Longrightarrow> cmd_keeps_attempt h"
  "cmd_keeps_attempt (cmd_ble_scan_start io)" "cmd_keeps_attempt cmd_ble_scan_stop" "cmd_keeps_attempt cmd_ble_disconnect"
  "cmd_keeps_attempt (cmd_kalman_q en)" "cmd_keeps_attempt (cmd_kalman_r en)" "cmd_keeps_attempt cmd_collision_stop"
  "cmd_keeps_attempt cmd_collision_ghost_stop" "cmd_keeps_attempt (cmd_diversion en io d)" "cmd_keeps_attempt cmd_missile_cancel"
  "cmd_keeps_attempt (cmd_collision_crash en io)" "cmd_keeps_attempt cmd_db_clear" "cmd_keeps_attempt (cmd_ble_inject en io)"
  "cmd_keeps_attempt (cmd_collision_inject en io)" "cmd_keeps_attempt (cmd_collision_ghost en io)"
  "cmd_keeps_attempt (cmd_collision_ghost_at en io)" "cmd_keeps_attempt (cmd_missile_launch en io)"
  by (simp_all add: cmd_keeps_attempt_def read_only_def simple_cmd_defs cmd_missile_cancel_def cmd_collision_crash_def
      cmd_db_clear_def cmd_ble_inject_def convert_accepts [OF sample_frame_accepted] cmd_collision_inject_def
      cmd_collision_ghost_def cmd_collision_ghost_at_def cmd_missile_launch_def ble_central_scan_stop_def
      case_prod_unfold Let_def)

lemma shell_attempt:
  assumes "shell_line en io ws s = Some (r, s', out)"
  shows "g_last_attempt_ms (ct_ble s') = g_last_attempt_ms (ct_ble s)"
proof -
  obtain h argv where h: "resolve (shell_root en io) ws = Some (h, argv)" and s': "s' = fst (snd (h argv s))"
    using assms by (auto simp: shell_line_def split: option.splits)
  have "cmd_keeps_attempt h"
    using resolve_cmd [OF h] read_only_cmds [THEN cmds_keep_attempt(1)] cmds_keep_attempt(2-) by (auto simp: shell_tables)
  then show ?thesis by (simp add: cmd_keeps_attempt_def s')
qed

text \<open>Only an advertisement's attempt to connect sets the time of the last attempt.\<close>

lemma step_attempt:
  "g_last_attempt_ms (ct_ble (ct_step en x s)) = (case x of
     OpAdvert rc now addr type ad \<Rightarrow> g_last_attempt_ms (fst (device_found rc now addr type ad (ct_ble s)))
   | _ \<Rightarrow> g_last_attempt_ms (ct_ble s))"
proof (cases x)
  case (OpShell io ws)
  then show ?thesis using shell_attempt by (cases "shell_line en io ws s") (fastforce simp: ct_step_def)+
qed (simp_all add: ct_step_def controller_defs notify_cb_def connected_cb_def disconnected_cb_def mtu_exchange_cb_def
    start_discovery_def discover_cb_def watchdog_def case_prod_unfold Let_def split: option.splits disc_state.splits)

lemma attempt_past:
  assumes "0 \<le> t0" "timed_reachable en L (timed_start en b t0 q r) s"
  shows "last_attempt s \<le> tm_now s"
  using assms(2)
proof (induction rule: timed_reachable.induct)
  case Start
  show ?case using assms(1)
    by (simp add: timed_start_def started_def controller_main_def ble_central_init_def case_prod_unfold Let_def)
next
  case (Move s ev s')
  from Move.hyps(2) show ?case
  proof cases
    case (Do x)
    show ?thesis
    proof (cases "\<exists>rc now addr type ad. x = OpAdvert rc now addr type ad")
      case True
      then obtain rc addr type ad where x: "x = OpAdvert rc (tm_now s) addr type ad" using Do by (auto simp: may_run_def)
      show ?thesis using Do Move.IH advert_attempt [of rc "tm_now s" addr type ad "ct_ble (tm_ctl s)"]
        by (auto simp: step_attempt x)
    next
      case False
      then have "last_attempt s' = last_attempt s" using Do by (cases x) (simp_all add: step_attempt)
      then show ?thesis using Do Move.IH by simp
    qed
  qed (use Move.IH in simp)
qed

inductive idle_run :: "('q, 'r) environment \<Rightarrow> ms \<Rightarrow> ('q, 'r) timed \<Rightarrow> ('q, 'r) timed \<Rightarrow> bool" for en L s0 where
  Idle: "link_idle s0 \<Longrightarrow> idle_run en L s0 s0"
| More: "idle_run en L s0 s \<Longrightarrow> timed_step en L s ev s' \<Longrightarrow> accepts_scan ev \<Longrightarrow> link_idle s' \<Longrightarrow> idle_run en L s0 s'"

lemma idle_run_reachable: "idle_run en L s s' \<Longrightarrow> timed_reachable en L s0 s \<Longrightarrow> timed_reachable en L s0 s'"
  by (induction rule: idle_run.induct) (auto intro: timed_reachable.Move)

lemma idle_run_wd:
  "idle_run en L s s' \<Longrightarrow> link_idle s' \<and> last_attempt s' = last_attempt s
     \<and> tm_wd s' \<le> max (tm_wd s) (last_attempt s + RECONNECT_RETRY_MS + WD_PERIOD_MS)"
proof (induction rule: idle_run.induct)
  case (More s1 ev s2)
  from More.hyps(2) show ?case
  proof cases
    case (Wait d)
    then show ?thesis using More by (simp add: link_idle_def)
  next
    case (Do x)
    show ?thesis
    proof (cases x)
      case (OpAdvert rc now addr type ad)
      then show ?thesis using More Do advert_not_idle [of rc now addr type ad "ct_ble (tm_ctl s1)"]
        by (auto simp: link_idle_def step_attempt ct_step_def on_ble_def case_prod_unfold Let_def)
    next
      case (OpWatchdog rc now)
      have "\<not> RECONNECT_RETRY_MS < now - last_attempt s1"
      proof
        assume "RECONNECT_RETRY_MS < now - last_attempt s1"
        from watchdog_scans(1) [OF _ _ this] More Do OpWatchdog show False
          by (auto simp: link_idle_def scan_ok_def ct_step_def on_ble_def case_prod_unfold Let_def)
      qed
      then show ?thesis using More Do OpWatchdog by (simp add: step_attempt)
    qed (use More Do in \<open>simp_all add: step_attempt\<close>)
  qed
qed simp

lemma idle_bounded:
  assumes "0 \<le> L" "0 \<le> t0" "timed_reachable en L (timed_start en b t0 q r) s" "idle_run en L s s'"
  shows "tm_now s' \<le> tm_now s + RECONNECT_RETRY_MS + WD_PERIOD_MS + L"
proof -
  have "timed_inv L s" "timed_inv L s'"
    by (rule timed_inv_reachable [OF assms(1) assms(3)], rule timed_inv_reachable [OF assms(1) idle_run_reachable [OF assms(4,3)]])
  then have "tm_now s' \<le> tm_wd s' + L" "tm_wd s \<le> tm_now s + WD_PERIOD_MS" by (simp_all add: timed_inv_def)
  then show ?thesis using idle_run_wd [OF assms(4)] attempt_past [OF assms(2,3)] by (simp add: RECONNECT_RETRY_MS_def max_def split: if_splits)
qed

text \<open>What the schedule says of a missile in flight.\<close>

lemma missile_deadline:
  assumes "timed_inv L s" "ms_active (ct_missile (tm_ctl s))"
  shows "tm_now s \<le> max (ms_launch_ms (ct_missile (tm_ctl s))) (ms_expire_ms (ct_missile (tm_ctl s))) + MISSILE_TICK_MS + L"
proof -
  have "missile_on_time L (tm_now s) (ct_missile (tm_ctl s))"
    using assms(1) work_on_timeD unfolding timed_inv_def on_time_def by blast
  then show ?thesis using assms(2) by (auto simp: missile_on_time_def)
qed

section \<open>A run on the clock\<close>

text \<open>An aircraft injected and a missile launched at it 240 ms after the start, with \<open>L = 50\<close>.\<close>

definition clock_start :: "(ble_aircraft_frame list, string) timed" where
  "clock_start = timed_start plain_environment rc_ok 0 [] []"

definition clock_injected :: "(ble_aircraft_frame list, string) timed" where
  "clock_injected = perform plain_environment (OpShell (console_at 240) [''skywatch'', ''ble'', ''inject'']) (clock_start\<lparr>tm_now := 240\<rparr>)"

definition clock_launched :: "(ble_aircraft_frame list, string) timed" where
  "clock_launched = perform plain_environment (OpShell (console_at 240) [''skywatch'', ''missile'', ''launch'']) clock_injected"

lemma start_due: "all_due (timed_start en b t0 q r) = [t0 + 2000, t0 + 2000, t0 + COLLISION_TICK_MS, t0 + PUBLISH_PERIOD_MS]"
  by (simp add: all_due_def timed_start_def started_def controller_main_def controller_boot_def collision_init_def
      db_publisher_init_def missile_zero_def reaper_spawn_def REAPER_TICK_MS_def WD_PERIOD_MS_def case_prod_unfold Let_def)

lemma timed_start_now [simp]: "tm_now (timed_start en b t0 q r) = t0"
  by (simp add: timed_start_def)

lemma clock_wait: "timed_step en 50 (timed_start en b 0 q r) (Wait 240) ((timed_start en b 0 q r)\<lparr>tm_now := 240\<rparr>)"
  using timed_step.Wait [of 240 "timed_start en b 0 q r" 50 en] by (simp add: start_due periods)

lemma may_run_shell: "may_run s (OpShell io ws) \<longleftrightarrow> io_now io = tm_now s"
  by (auto simp: may_run_def)

lemma clock_times [simp]: "tm_now clock_injected = 240" "tm_now clock_launched = 240"
  by (simp_all add: clock_injected_def clock_launched_def)

lemma clock_reachable: "timed_reachable plain_environment 50 clock_start clock_launched"
proof -
  have "timed_reachable plain_environment 50 clock_start (clock_start\<lparr>tm_now := 240\<rparr>)"
    unfolding clock_start_def by (rule timed_reachable.Move [OF timed_reachable.Start clock_wait])
  moreover have "may_run (clock_start\<lparr>tm_now := 240\<rparr>) (OpShell (console_at 240) ws)" "may_run clock_injected (OpShell (console_at 240) ws)" for ws
    by (simp_all add: may_run_shell console_at_def)
  ultimately show ?thesis
    unfolding clock_launched_def clock_injected_def by (blast intro: timed_reachable.Move timed_step.Do)
qed

lemma clock_flying: "ms_active (ct_missile (tm_ctl clock_launched))"
proof -
  let ?s = "tm_ctl clock_start" and ?a = "frame_observation (sample_frame 240)"
  let ?d = "snd (aircraft_db_upsert libm_flat (ct_kal ?s) 240 ?a aircraft_db_init)"
  have db: "ct_db ?s = aircraft_db_init" by (simp add: clock_start_def timed_start_def)
  have inj: "ct_db (tm_ctl clock_injected) = ?d"
    using convert_accepts [OF sample_frame_accepted, of 240] db
    by (simp add: clock_injected_def ct_step_def shell_line_def shell_root_def sub_skywatch_def sub_ble_def cmd_ble_inject_def
        console_at_def plain_environment_def case_prod_unfold Let_def)
  have "length (icao_string 0xABCDEF) = 6" by (simp add: icao_string_digits)
  then have "ac_icao ?a \<noteq> []" "ac_source ?a = SRC_BLE_SIM"
    by (auto simp: frame_observation_def sample_frame_def Let_def)
  then have "db_rows ?d = [fresh_entry libm_flat (ct_kal ?s) 240 ?a]" "ac_source (de_ac (fresh_entry libm_flat (ct_kal ?s) 240 ?a)) = SRC_BLE_SIM"
    using upsert_refines [OF db_inv_init, of libm_flat "ct_kal ?s" 240 ?a] entry_observation(2) [of libm_flat "ct_kal ?s" 240 ?a]
    by (auto simp: spec_upsert_def AIRCRAFT_DB_MAX_ENTRIES_def same_observation_def prod_eq_iff)
  then obtain tgt where "find_ble_sim (ct_db (tm_ctl clock_injected)) = Some tgt" by (simp add: inj find_ble_sim_rows)
  then show ?thesis
    by (simp add: clock_launched_def ct_step_def shell_line_def shell_root_def sub_skywatch_def sub_missile_def
        cmd_missile_launch_def missile_launch_def case_prod_unfold Let_def)
qed

text \<open>A central whose scan was refused at the start.\<close>

definition rc_no_scan :: bt_rc where
  "rc_no_scan = rc_ok\<lparr>rc_scan_start := Inl EINVAL\<rparr>"

lemma clock_idle: "idle_run plain_environment 50 (timed_start plain_environment rc_no_scan 0 [] [])
    ((timed_start plain_environment rc_no_scan 0 [] [])\<lparr>tm_now := 240\<rparr>)"
proof -
  have "link_idle (timed_start plain_environment rc_no_scan 0 [] [])"
    by (simp add: link_idle_def timed_start_def started_def controller_main_def controller_boot_def ble_central_init_def
        ble_central_boot_def ble_central_scan_start_def rc_no_scan_def case_prod_unfold Let_def)
  moreover from this have "link_idle ((timed_start plain_environment rc_no_scan 0 [] [])\<lparr>tm_now := 240\<rparr>)"
    by (simp add: link_idle_def)
  ultimately show ?thesis using idle_run.More [OF idle_run.Idle clock_wait] by simp
qed

end
