(* ===== verification/Ingest.thy ===== *)
theory Ingest
  imports Db_Use
begin

text \<open>
  From the data port to the data port: bytes of a line come in by interrupts, the receiver's
  thread assembles, parses and stores them, and the publisher's next round writes the aircraft.
\<close>

section \<open>Interrupts\<close>

text \<open>A quiet receiver with room takes a burst of up to 64 bytes whole.\<close>

lemma irq_whole:
  assumes sp: "ring_spec RINGBUF_BYTES contents ops" and aw: "rx_awake contents u" "\<not> ux_throttled u"
    and len: "length bs \<le> 64" "length (contents (ux_ring u)) + length bs < RINGBUF_BYTES"
  shows "fst (interrupt_handler ops bs u) = bs"
proof (cases "bs = []")
  case False
  have "rb_space ops (ux_ring u) = RINGBUF_BYTES - length (contents (ux_ring u))"
    by (rule ring_specD(1) [OF sp rx_awakeD(1) [OF aw(1)]])
  then have "min 64 (rb_space ops (ux_ring u)) \<noteq> 0" "take (min 64 (rb_space ops (ux_ring u))) bs = bs"
    using len by auto
  then show ?thesis using False aw(2) by (simp add: interrupt_handler_def case_prod_unfold Let_def)
qed (simp add: interrupt_handler_def)

lemma irq_keeps:
  assumes "fst (interrupt_handler ops bs u) = bs"
  shows "ux_throttled (snd (interrupt_handler ops bs u)) = ux_throttled u" "ux_phase (snd (interrupt_handler ops bs u)) = ux_phase u"
  using assms by (auto simp: interrupt_handler_def case_prod_unfold Let_def split: if_splits)

lemma irqs_arrive:
  assumes sp: "ring_spec RINGBUF_BYTES contents (en_ring en)"
    and "rx_awake contents (ct_usb s)" "\<not> ux_throttled (ct_usb s)" "list_all (\<lambda>c. length c \<le> 64) chunks"
    "length (contents (ux_ring (ct_usb s))) + length (concat chunks) < RINGBUF_BYTES"
    "s' = run (ct_step en) s (map OpUsbIrq chunks)"
  shows "rx_awake contents (ct_usb s') \<and> contents (ux_ring (ct_usb s')) = contents (ux_ring (ct_usb s)) @ concat chunks
    \<and> ux_line (ct_usb s') = ux_line (ct_usb s) \<and> ct_db s' = ct_db s"
  using assms(2-)
proof (induction chunks arbitrary: s)
  case (Cons c chunks)
  let ?s1 = "ct_step en (OpUsbIrq c) s"
  have whole: "fst (interrupt_handler (en_ring en) c (ct_usb s)) = c"
    using Cons.prems by (intro irq_whole [OF sp]) auto
  then have i: "interrupt_handler (en_ring en) c (ct_usb s) = (c, snd (interrupt_handler (en_ring en) c (ct_usb s)))"
    by (metis prod.collapse)
  note r = interrupt_result [OF sp Cons.prems(1) i]
  have armed: "ux_armed (ct_usb s)" using rx_awakeD(2) [OF Cons.prems(1)] Cons.prems(2) by simp
  then have s1: "?s1 = s\<lparr>ct_usb := snd (interrupt_handler (en_ring en) c (ct_usb s))\<rparr>"
    by (simp add: ct_step_def on_usb_irq_def)
  have "rx_awake contents (ct_usb s') \<and> contents (ux_ring (ct_usb s')) = contents (ux_ring (ct_usb ?s1)) @ concat chunks
      \<and> ux_line (ct_usb s') = ux_line (ct_usb ?s1) \<and> ct_db s' = ct_db ?s1"
    by (rule Cons.IH) (use r s1 Cons.prems irq_keeps [OF whole] in auto)
  then show ?case using r s1 by auto
qed simp

section \<open>The thread\<close>

lemma thread_rounds:
  assumes sp: "ring_spec RINGBUF_BYTES contents ops" and "rx_awake contents u"
    and "(rx_thread_step ops parse lm g now ^^ n) (u, db) = (u', db')"
  shows "\<exists>cs. contents (ux_ring u) = cs @ contents (ux_ring u')
    \<and> foldl (rx_char parse lm g now) (ux_line u, ux_stats u, db) cs = (ux_line u', ux_stats u', db')"
  using assms(2,3)
proof (induction n arbitrary: u' db')
  case (Suc n)
  obtain v d where v: "(rx_thread_step ops parse lm g now ^^ n) (u, db) = (v, d)" by fastforce
  obtain cs where cs: "contents (ux_ring u) = cs @ contents (ux_ring v)"
    "foldl (rx_char parse lm g now) (ux_line u, ux_stats u, db) cs = (ux_line v, ux_stats v, d)"
    using Suc.IH [OF Suc.prems(1) v] by blast
  have "rx_awake contents (fst ((rx_thread_step ops parse lm g now ^^ n) (u, db)))"
    using Suc.prems(1) by (induction n) (simp_all add: awake_step [OF sp])
  moreover have "rx_thread_step ops parse lm g now (v, d) = (u', db')" using Suc.prems(2) v by simp
  ultimately obtain cs' where "contents (ux_ring v) = cs' @ contents (ux_ring u')"
    "foldl (rx_char parse lm g now) (ux_line v, ux_stats v, d) cs' = (ux_line u', ux_stats u', db')"
    using thread_result [OF sp] v by fastforce
  then show ?case using cs by (intro exI [of _ "cs @ cs'"]) simp
qed (auto intro: exI [of _ "[]"])

lemma run_threads:
  "run (ct_step en) s (replicate n (OpUsbThread now)) =
    (let (u, db) = (rx_thread_step (en_ring en) (en_json en) (en_libm en) (ct_kal s) now ^^ n) (ct_usb s, ct_db s)
     in s\<lparr>ct_usb := u, ct_db := db\<rparr>)"
proof (induction n arbitrary: s)
  case (Suc n)
  have "ct_kal (ct_step en (OpUsbThread now) s) = ct_kal s"
    "(ct_usb (ct_step en (OpUsbThread now) s), ct_db (ct_step en (OpUsbThread now) s)) =
      rx_thread_step (en_ring en) (en_json en) (en_libm en) (ct_kal s) now (ct_usb s, ct_db s)"
    by (simp_all add: ct_step_def on_usb_thread_def case_prod_unfold Let_def)
  then show ?case using Suc.IH [of "ct_step en (OpUsbThread now) s"]
    by (simp add: funpow_swap1 case_prod_unfold Let_def ct_step_def on_usb_thread_def)
qed simp

text \<open>A line of ordinary characters that fits the line buffer.\<close>

definition plain_line :: "string \<Rightarrow> bool" where
  "plain_line l \<longleftrightarrow> CHR 0x0A \<notin> set l \<and> CHR 0x0D \<notin> set l \<and> length l < LINE_BUF_BYTES"

lemma plain_line_stored:
  assumes "plain_line l" "json_parse_aircraft parse l = Inr a"
  shows "foldl (rx_char parse lm g now) ([], st, db) (l @ [CHR 0x0A]) =
    ([], st\<lparr>us_frames_rx := us_frames_rx st + 1\<rparr>, snd (aircraft_db_upsert lm g now a db))"
proof -
  have l: "filter (\<lambda>c. c \<noteq> CHR 0x0D) l = l" "length l div 512 = 0" "l \<noteq> []"
    using assms by (auto simp: plain_line_def LINE_BUF_BYTES_def filter_id_conv json_parse_aircraft_def)
  have "rx_stream parse lm g ([], st, db) (map (Pair now) l @ [(now, CHR 0x0A)]) = ([], line_result parse lm g now l (st, db))"
    using assms(1) by (subst rx_stream_line) (auto simp: plain_line_def comp_def)
  moreover have "line_result parse lm g now l (st, db) =
      (st\<lparr>us_frames_rx := us_frames_rx st + 1\<rparr>, snd (aircraft_db_upsert lm g now a db))"
    using l assms(2) by (simp add: line_result_def Let_def)
  ultimately show ?thesis using rx_stream_chunk [of parse lm g "([], st, db)" now "l @ [CHR 0x0A]"] by simp
qed

section \<open>Published\<close>

lemma lookup_published:
  assumes "db_inv db" "aircraft_db_lookup k db = Inr b" "length (aircraft_line b) < LINE_CAP"
  shows "\<exists>before after. snd (publisher_work True True t db p) = before @ aircraft_line b @ [CHR 0x0A] @ after"
proof -
  obtain j where j: "find_index (same_key k) (db_rows db) = Some j" "b = de_ac (db_rows db ! j)"
    using assms(2) by (auto simp: lookup_rows [OF assms(1)] spec_lookup_def split: option.splits)
  then have "db_rows db ! j \<in> set (db_rows db)" using find_index_Some [OF j(1)] by simp
  then have "aircraft_line b \<in> set (published_lines db)"
    using assms(3) j(2) by (force simp: published_lines_def)
  then obtain xs ys where "published_lines db = xs @ aircraft_line b # ys" by (meson split_list)
  then show ?thesis unfolding publisher_round [OF assms(1)] Let_def
    by (intro exI [of _ "concat (map (usb_serial_println True True) xs)"] exI [of _ "concat (map (usb_serial_println True True) ys)"])
      (simp add: usb_serial_println_def)
qed

lemma upsert_room_lookup:
  assumes "db_inv db" "ac_icao a \<noteq> []" "aircraft_db_count db < int AIRCRAFT_DB_MAX_ENTRIES"
  shows "\<exists>b. aircraft_db_lookup (ac_icao a) (snd (aircraft_db_upsert lm g now a db)) = Inr b \<and> same_observation b a"
proof -
  obtain rc db' where u: "aircraft_db_upsert lm g now a db = (rc, db')" by fastforce
  have "spec_upsert lm g now a (db_rows db) = (rc, db_rows db')" using upsert_refines [OF assms(1) u] by simp
  then obtain r where "rc = Inr r" using assms(2,3) by (auto simp: spec_upsert_def count_rows split: if_splits option.splits)
  then show ?thesis using db_store.get_put [OF assms(1)] u by fastforce
qed

lemma line_goes_through:
  assumes en: "environment_ok qc rc en" and inv: "controller_inv qc rc s" and quiet: "drained rc (ct_usb s)" "ux_line (ct_usb s) = []"
    and line: "plain_line l" "json_parse_aircraft (en_json en) l = Inr a" "ac_icao a \<noteq> []"
    and room: "aircraft_db_count (ct_db s) < int AIRCRAFT_DB_MAX_ENTRIES"
    and chunks: "concat chunks = l @ [CHR 0x0A]" "list_all (\<lambda>c. length c \<le> 64) chunks"
  defines "s1 \<equiv> run (ct_step en) s (map OpUsbIrq chunks)"
  shows "\<exists>n b. aircraft_db_lookup (ac_icao a) (ct_db (run (ct_step en) s1 (replicate n (OpUsbThread now)))) = Inr b
    \<and> same_observation b a \<and> drained rc (ct_usb (run (ct_step en) s1 (replicate n (OpUsbThread now))))
    \<and> db_inv (ct_db (run (ct_step en) s1 (replicate n (OpUsbThread now))))"
proof -
  have sp: "ring_spec RINGBUF_BYTES rc (en_ring en)" using en by (simp add: environment_ok_def)
  have aw: "rx_awake rc (ct_usb s)" and db: "db_inv (ct_db s)" using inv by (simp_all add: controller_inv_def db_short_def)
  have q: "rc (ux_ring (ct_usb s)) = []" "\<not> ux_throttled (ct_usb s)"
    using quiet rx_awakeD(2) [OF aw] by (simp_all add: drained_def)
  have "length (concat chunks) < RINGBUF_BYTES"
    using line(1) by (simp add: chunks(1) plain_line_def LINE_BUF_BYTES_def RINGBUF_BYTES_def)
  then have i: "rx_awake rc (ct_usb s1) \<and> rc (ux_ring (ct_usb s1)) = concat chunks \<and> ux_line (ct_usb s1) = []
      \<and> ct_db s1 = ct_db s"
    using irqs_arrive [OF sp aw q(2) chunks(2) _ s1_def [THEN meta_eq_to_obj_eq]] q quiet(2) by simp
  let ?step = "rx_thread_step (en_ring en) (en_json en) (en_libm en) (ct_kal s1) now"
  obtain n where n: "drained rc (fst ((?step ^^ n) (ct_usb s1, ct_db s1)))"
    using awake_drains [OF sp, of "(ct_usb s1, ct_db s1)" "en_json en" "en_libm en" "ct_kal s1" now] i by (auto simp: drains_def)
  obtain u' db' where r: "(?step ^^ n) (ct_usb s1, ct_db s1) = (u', db')" by fastforce
  obtain cs where cs: "rc (ux_ring (ct_usb s1)) = cs @ rc (ux_ring u')"
    "foldl (rx_char (en_json en) (en_libm en) (ct_kal s1) now) (ux_line (ct_usb s1), ux_stats (ct_usb s1), ct_db s1) cs
      = (ux_line u', ux_stats u', db')"
    using thread_rounds [OF sp _ r] i by blast
  have "cs = l @ [CHR 0x0A]" using cs(1) i n r by (simp add: drained_def chunks(1))
  then have db': "db' = snd (aircraft_db_upsert (en_libm en) (ct_kal s1) now a (ct_db s))"
    using cs(2) i plain_line_stored [OF line(1,2)] by simp
  obtain b where b: "aircraft_db_lookup (ac_icao a) db' = Inr b" "same_observation b a"
    using upsert_room_lookup [OF db line(3) room] db' by blast
  have "ct_usb (run (ct_step en) s1 (replicate n (OpUsbThread now))) = u'" "ct_db (run (ct_step en) s1 (replicate n (OpUsbThread now))) = db'"
    unfolding run_threads r by simp_all
  then show ?thesis using b n r db' db_inv_upsert [OF db] by (intro exI [of _ n] exI [of _ b]) simp
qed

section \<open>A line in a running controller\<close>

text \<open>A JSON library that finds the required members, and the controller just started with it.\<close>

definition json_environment :: "(ble_aircraft_frame list, string) environment" where
  "json_environment = plain_environment\<lparr>en_json := (\<lambda>buf descr src.
     (399, src\<lparr>aj_type := Some ''aircraft'', aj_icao := Some ''abc123'', aj_source := Some ''ADS_B''\<rparr>))\<rparr>"

lemma json_environment_ok: "environment_ok (\<lambda>q. q) (\<lambda>r. r) json_environment"
  using plain_environment_ok by (simp add: json_environment_def environment_ok_def)

lemma json_environment_parses:
  "\<exists>a. json_parse_aircraft (en_json json_environment) ''{}'' = Inr a \<and> ac_icao a = ''abc123'' \<and> ac_source a = SRC_ADS_B"
proof -
  have "bit (399 :: int) i" if "i \<in> {0, 1, 2, 3, 7, 8}" for i :: nat
    using that by (auto simp: bit_iff_odd)
  then have "json_accepted (en_json json_environment) ''{}''"
    by (simp add: json_accepted_def json_environment_def seen_def)
  from json_parse_accepts [OF this] show ?thesis
    by (simp add: json_environment_def json_observation_def source_of_name_def)
qed

lemma started_quiet:
  "drained (\<lambda>r. r) (ct_usb (started json_environment rc enable now q []))"
  "ux_line (ct_usb (started json_environment rc enable now q [])) = []"
  by (simp_all add: started_def controller_main_def controller_boot_def usb_handler_init_def usb_rx_boot_def drained_def
      case_prod_unfold Let_def)

end
