(* ===== verification/Spec2Isabelle.thy ===== *)
theory Spec2Isabelle
  imports Kalman_Exact World Usb_Device Schedule Ingest
begin

text \<open>
  SkyWatch is a tracker for aircraft on two boards running Zephyr.  The controller
  (\<open>src/controller\<close>) receives aircraft as JSON lines over USB and as binary frames over
  Bluetooth, keeps them in a database with a Kalman filter each, looks five times a second for
  pairs about to collide, warns the host and the simulated aircraft, and publishes the database
  twice a second.  The simulator (\<open>src/sim/mobile\<close>) flies one aircraft, sends its position and
  obeys the warnings.  Paths below are relative to these two directories.

  Data flow: the UART interrupt fills a ring buffer, \<open>usb_handler\<close>'s thread cuts lines,
  \<open>json_parser\<close> makes records, \<open>aircraft_db_upsert\<close> stores them; \<open>ble_central\<close>'s notification
  callback gives frames to \<open>bridge\<close>, whose queue and thread lead to the same upsert.
  \<open>collision\<close>'s work item reads a snapshot, keeps a table of pairs in conflict, writes JSON lines
  through \<open>usb_serial\<close>, writes frames through \<open>ble_central\<close>, and cancels \<open>missile\<close> or ghost when
  they hit.  \<open>shell\<close> can start or stop most of this.  \<open>main\<close> brings it up.  Between the boards are
  notifications with positions, up, and writes with warnings, down.
\<close>

text \<open>
  Theories and sources.

  \<open>Ieee754\<close>, \<open>Ieee754_Rounding\<close>: \<open>double\<close> and \<open>float\<close> as sign, integer significand and exponent,
  rounded to nearest even, with infinities, NaN and signed zeros; the results are the exact ones
  rounded, rounding is monotone and keeps representable numbers.
  \<open>Sky_Prelude\<close>: C integer types, \<open>errno\<close>, C strings, the number interface \<open>'a num\<close>, the locale
  \<open>op_system\<close>.  \<open>Printf\<close>: \<open>snprintf\<close>'s conversions and bound, \<open>atoi\<close>.
  \<open>Aircraft\<close>: \<open>common/src/aircraft_t.h\<close>.
  \<open>Aircraft_Db\<close>, \<open>Aircraft_Db_Correct\<close>: \<open>aircraft_db/src/aircraft_db.c\<close>.  The state
  \<open>aircraft_db\<close> has the pool, its use flags, the list as slot indices and the counters.
  \<open>db_rows\<close> reads it as a sequence of entries, over which \<open>spec_upsert\<close> and the facts on reap,
  lookup, count, traversal and clear are stated.
  \<open>Kalman\<close>, \<open>Kalman_Exact\<close>: \<open>kalman/src/kalman.c\<close> over any numbers, and its theory on reals.
  \<open>Geo\<close>, \<open>Collision_Geometry\<close>, \<open>Collision_Geometry_Correct\<close>: the mathematics of
  \<open>collision/src/collision.c\<close> (snapshot row, closest approach, level, vertical gate, CRASH upgrade,
  diversion), what it means on reals, and what doubles keep of it.
  \<open>Missile\<close>: \<open>missile/src/missile.c\<close>, launch, worker, cancel.
  \<open>Ble_Packet\<close>: \<open>common/src/ble_packet.h\<close> of both boards, the frames byte by byte.
  \<open>Bridge\<close>: \<open>bridge/src/bridge.c\<close>.
  \<open>Collision_Tracker\<close>, \<open>Collision_Tracker_Correct\<close>: the table of tracked pairs and
  \<open>work_handler\<close>; \<open>Collision_Crash\<close>: how a pair enters CRASH in a whole tick;
  \<open>Collision_Scenarios\<close>: injected pair, ghost, manual CRASH.
  \<open>Encounter\<close>: two aircraft on which the detector is evaluated.
  \<open>Ble_Central\<close>: \<open>ble/src/ble_central.c\<close> as a step relation with the stack as environment.
  \<open>Json_Parser\<close>, \<open>Usb_Handler\<close>, \<open>Db_Publisher\<close>: \<open>json_parser.c\<close>, \<open>usb_handler.c\<close>,
  \<open>db_publisher.c\<close> with \<open>usb_serial.c\<close>.
  \<open>Usb_Device\<close>: \<open>usb_device.c\<close> of both boards.
  \<open>Controller\<close>, \<open>Shell\<close>, \<open>System\<close>: \<open>main/src/main.c\<close> with the state of all components,
  \<open>shell/src/shell.c\<close> with its table of commands and what they print, and any interleaving of all
  of it.  \<open>Shell_Table\<close>: how a command line finds its handler, on both boards.
  \<open>Db_Use\<close>: every step of the controller as the sequence of database operations it amounts to,
  records included (\<open>step_stores\<close>).  \<open>Ingest\<close>: a line's way from the UART to the publisher's output.  \<open>Schedule\<close>: the controller on a clock, with
  the sleeps of its threads (\<open>reaper_thread_fn\<close>, \<open>wd_thread_fn\<close>) and the due times of its work items,
  as the step relation \<open>timed_step\<close>.
  \<open>Sim_Packet\<close>, \<open>Sim_Mobile\<close>: the simulator's own \<open>ble_packet.h\<close> and structs, its \<open>main/src/codein.c\<close>
  and \<open>usb_serial.c\<close>.  \<open>Sim_Gatt\<close>: what it advertises and its GATT services, against
  what the controller looks for.
  \<open>World\<close>: the two boards with the frames in the air between them; a write reaches the
  simulator's handler only at the handle where its stack has put the warning characteristic.
\<close>

text \<open>
  Conventions.  Functions keep their C names (a suffix where HOL has the name).  Static
  variables are record fields, passed in and returned; what a call sends is a list of events.
  \<open>-errno\<close> is \<open>Inl\<close>, another result \<open>Inr\<close>.  Integers that can wrap are words.
  Where the C code asks the kernel to run something later, the state has the time
  (\<open>c_due\<close>, \<open>pb_due\<close>, \<open>ms_due\<close> and so on); \<open>System\<close> and \<open>World\<close> run every activity at any time,
  \<open>Schedule\<close> at its time and at most \<open>L\<close> milliseconds late.  A handler reads the clock once where the
  C code may read it several times in a row; times are integers in milliseconds, and the properties that compute a time difference in doubles
  assume an uptime below \<open>2 ^ 52\<close> ms.

  Interfaces.  \<open>op_system\<close> (an initial state, operations, an invariant they keep) is
  interpreted by the database, its published predictions, the table of pairs, the filter and the
  simulator, and instantiated with the parameters below by bridge, receiver, missile,
  the whole controller and the two boards.  \<open>observation_store\<close> is what the producers rely on in the database,
  \<open>wire_codec\<close> what both boards rely on in a frame; the latter has one instance per frame.

  Parameters, for code outside the repository: the mathematics library (\<open>libm\<close>, \<open>libmf\<close>, with the
  ranges in \<open>libm_ok\<close>), \<open>k_msgq\<close> (\<open>msgq_spec\<close>), the ring buffer (\<open>ring_spec\<close>),
  \<open>json_obj_parse\<close> and \<open>strtod\<close>; each has a concrete instance, used in the witnesses.  What the
  Bluetooth stack answers and reports is an argument of the steps of \<open>Ble_Central\<close>, its search for
  attributes one of \<open>Sim_Gatt\<close> (\<open>stack_finds\<close>), what the USB stack answers one of \<open>Usb_Device\<close>.

  Bounds, all the code's: 32 aircraft, 32 tracked pairs, queue of 8 frames, ring buffer of
  2048 bytes, lines of 512 characters, output buffers of 256 and 320 bytes.  No definition has
  fuel: recursion follows the data, and the loops that wrap an angle are \<open>while\<close> loops proved to
  end (\<open>pick_diversion_returns\<close>, \<open>wrap_180_range\<close>) for angles up to \<open>2 ^ 40\<close> degrees; beyond
  about \<open>2 ^ 61\<close> subtracting 360 leaves a double unchanged.

  What is shown.  Database: soundness, refinement of the specification, lookups, reaping,
  predictions.  Filter, on reals: the covariance stays sound, measurements do not raise it.
  Detector: the level as a function of the geometry, the table holds exactly the pairs in
  conflict, how CRASH is entered and kept, well-formed output.  Transport: round trips, corrupted
  frames refused, nothing lost between interrupt or callback and database except what is counted.  Bluetooth: the flags agree with
  the link, and it recovers.  Missile: schedule, ranges, end of flight.  Simulator: bounds,
  frames accepted, the freeze after a CRASH.  Controller: all invariants
  together under any interleaving, what each step stores in the database, a line through to
  the publisher, and commands that fail leave it alone.  On the clock: nothing scheduled is late or
  forgotten, no aircraft older than twelve seconds, missiles end, the link is not idle for long.
  Both boards: discovery
  ends with the right handles, neither ever refuses what the other sends, a position gets into
  the database, a collision stops the simulator.  Some properties state behaviour that surprises
  (\<open>crash_sent_again_under_lock\<close>, \<open>crash_trigger_names_sim\<close>): it is what the code does.

  Where results are stated on reals they say what the algorithm computes; for doubles the
  development has ranges, termination and the decisions that involve comparisons only.
\<close>

text \<open>
  Not modelled: log lines, the shell's help texts, the contents of the USB descriptors, the
  internals of the task watchdog, stack sizes and priorities.  A step of the model is a whole handler or one round of a thread's
  loop, so two handlers interleave between rounds but not inside one: the mutexes, spinlocks and
  the system work queue make the handlers atomic with respect to the database and to each other;
  unlocked reads of single variables across threads are not examined.  The Python programs and
  documents under \<open>src/controller/host\<close>, \<open>src/sim/pc\<close> and \<open>src/resources\<close> are outside the
  firmware.
\<close>

section \<open>Aircraft database\<close>

text \<open>
  C1: after any sequence of initialisations, observations, reaps and clears the database is
  sound: the list holds exactly the pool slots marked used, each once, no two entries have the
  same address, none has an empty one, and there are at most 32.
\<close>

theorem db_invariant: "db_inv (run (db_step lm g) aircraft_db_init ops)"
  by (rule db_sys.inv_run) simp

text \<open>
  C2: in every reachable state \<open>aircraft_db_upsert\<close> does what the specification on rows says:
  the same return code, and the rows before related to the rows after as \<open>spec_upsert\<close> computes.
\<close>

theorem db_upsert_refines_spec:
  "(let db = run (db_step lm g) aircraft_db_init ops; (rc, db') = aircraft_db_upsert lm g now a db
    in spec_upsert lm g now a (db_rows db) = (rc, db_rows db'))"
proof -
  obtain rc db' where u: "aircraft_db_upsert lm g now a (run (db_step lm g) aircraft_db_init ops) = (rc, db')"
    by fastforce
  have "db_inv (run (db_step lm g) aircraft_db_init ops)" by (rule db_sys.inv_run) simp
  from upsert_refines [OF this u] show ?thesis by (simp add: u)
qed

text \<open>
  C23: once an address is in the database, feeding any list of observations leaves under it
  exactly the latest of the list with that address (position, time, source, optional fields
  with their bits), and the old record when there is none.
\<close>

theorem db_lookup_latest:
  assumes "db = run (db_step lm g) aircraft_db_init ops" "aircraft_db_lookup k db = Inr b"
  shows "\<exists>b'. aircraft_db_lookup k (foldl (\<lambda>s (now, a). snd (aircraft_db_upsert lm g now a s)) db xs) = Inr b' \<and>
    (case filter (\<lambda>(now, a). ac_key a = take AIRCRAFT_ICAO_BUF_LEN k) xs of
       [] \<Rightarrow> b' = b | ys \<Rightarrow> same_observation b' (snd (last ys)))"
proof -
  have "db_inv db" unfolding assms(1) by (rule db_sys.inv_run) simp
  from db_store.feed_latest [OF this assms(2), of lm g xs] show ?thesis unfolding db_store.feed_def .
qed

theorem db_lookup_latest_witness:
  "\<exists>b'. aircraft_db_lookup ''aaaaaa'' (foldl (\<lambda>s (now, a). snd (aircraft_db_upsert libm_flat tuning0 now a s))
      (meet_db 9910) [(500, sim_ac\<lparr>ac_alt_ft := 7\<rparr>)]) = Inr b' \<and> same_observation b' (sim_ac\<lparr>ac_alt_ft := 7\<rparr>)"
proof -
  have m: "meet_db 9910 = run (db_step libm_flat tuning0) aircraft_db_init [DbUpsert 0 sim_ac, DbUpsert 0 (threat_ac 9910)]"
    by (simp only: meet_db_def two_db_def)
  obtain b where b: "aircraft_db_lookup ''aaaaaa'' (meet_db 9910) = Inr b"
    using meet_lookup_sim by blast
  have "ac_key (sim_ac\<lparr>ac_alt_ft := 7\<rparr>) = take AIRCRAFT_ICAO_BUF_LEN ''aaaaaa''"
    by (simp add: ac_key_def sim_ac_def)
  then show ?thesis using db_lookup_latest [OF m b, of "[(500, sim_ac\<lparr>ac_alt_ft := 7\<rparr>)]"] by simp
qed

text \<open>
  C28: the reaper's round removes exactly the entries not seen for more than ten seconds, keeps
  the others in order, keeps the database sound, and counts what it removed.
\<close>

theorem db_reap_exact:
  "(let db = run (db_step lm g) aircraft_db_init ops; db' = reap_locked now db
    in db_rows db' = filter (fresh_enough now) (db_rows db) \<and> db_inv db'
     \<and> ds_stale_evicts (s_stats db') = ds_stale_evicts (s_stats db) + of_nat (length (db_rows db) - length (db_rows db')))"
proof -
  have "db_inv (run (db_step lm g) aircraft_db_init ops)" by (rule db_sys.inv_run) simp
  then show ?thesis unfolding Let_def using reap_result by blast
qed

section \<open>Kalman filter\<close>

text \<open>
  C9: on exact numbers, after any predictions and measurements, the filter is initialised, well
  formed, and its covariance is symmetric and positive semidefinite.
\<close>

theorem kalman_covariance_sound: "kf_sound (run (kf_step g) (kalman_init real_num lat lon) ops)"
  by (rule kf_sys.inv_run) simp

text \<open>
  C29: a measurement never raises the variance of the estimate, in any direction of the state
  space and in any reachable state.
\<close>

theorem kalman_update_shrinks:
  "(let s = run (kf_step g) (kalman_init real_num lat lon) ops
    in quad (kf_P (kalman_update real_num g a b s)) p q r t \<le> quad (kf_P s) p q r t)"
proof -
  have "kf_sound (run (kf_step g) (kalman_init real_num lat lon) ops)" by (rule kf_sys.inv_run) simp
  then show ?thesis using good_cov_update(2) by (simp add: kf_sound_def Let_def)
qed

text \<open>
  C30: \<open>kalman_predict_ahead\<close>, a shortcut that skips the covariance, gives the position that
  \<open>kalman_predict\<close> over the same time gives, in every reachable state.
\<close>

theorem kalman_predict_ahead_equiv:
  "(let s = run (kf_step g) (kalman_init real_num lat lon) ops; x = kf_x (kalman_predict real_num g t s)
    in kalman_predict_ahead s t = (x ! 0, x ! 1))"
proof -
  have "kf_sound (run (kf_step g) (kalman_init real_num lat lon) ops)" by (rule kf_sys.inv_run) simp
  from predict_ahead_real [OF this] show ?thesis by (simp add: Let_def)
qed

section \<open>Frames on the air\<close>

text \<open>
  C31: a well-formed aircraft frame arrives as it was sent, byte layout, doubles and signed
  fields included, and a notification is a frame exactly when it has 38 bytes.
\<close>

theorem frame_roundtrip:
  assumes "frame_ok f"
  shows "frame_decode (frame_encode f) = Some f \<and> length (frame_encode f) = BLE_FRAME_SIZE
    \<and> (frame_decode bs = None \<longleftrightarrow> length bs \<noteq> BLE_FRAME_SIZE)"
  using aircraft_codec.dec_enc [OF assms] aircraft_codec.enc_size [OF assms] aircraft_codec.dec_size [of bs] by auto

theorem frame_roundtrip_witness: "frame_decode (frame_encode meet_frame) = Some meet_frame"
  using frame_roundtrip [OF meet_frame_ok] by blast

text \<open>
  C32: a warning frame completed with its checksum keeps every other field, is received as it
  was sent, and passes the receiver's check.
\<close>

theorem warning_roundtrip:
  assumes "warning_ok w"
  shows "warning_decode (warning_encode (with_crc w)) = Some (with_crc w) \<and> crc_ok (warning_encode (with_crc w))
    \<and> with_crc w = w\<lparr>wf_crc := wf_crc (with_crc w)\<rparr>"
  using crc_ok_with_crc [OF assms] warning_codec.dec_enc [of "with_crc w"] by (simp add: with_crc_def)

theorem warning_roundtrip_witness: "crc_ok (warning_encode (with_crc warning_zero))"
  using warning_roundtrip [of warning_zero] by (simp add: warning_ok_def warning_zero_def)

text \<open>
  C33: a frame the controller completes with its checksum is accepted by the simulator, and with any
  one of its sixteen bytes changed to anything else it is refused: nothing happens and the
  controller is told, with the error of a wrong value, or of a wrong length when the change
  turned the type into that of the longer text frame.
\<close>

theorem corrupted_warning_refused:
  assumes "warning_ok w" "wf_msg_type w \<in> {BLE_WARN_MSG_COLLISION, BLE_WARN_MSG_DIVERSION, BLE_WARN_MSG_CRASH}"
    "bs = warning_encode (with_crc w)" "i < BLE_WARNING_FRAME_SIZE" "b \<noteq> bs ! i"
  shows "fst (warn_write now bs s) = Inr 16
    \<and> warn_write now (bs[i := b]) s =
        (Inl (if i = 0 \<and> b = 0x04 then INVALID_ATTRIBUTE_LEN else VALUE_NOT_ALLOWED), s, [])"
proof -
  have t: "wf_msg_type (with_crc w) \<noteq> 4"
    using assms(2) by (auto simp: BLE_WARN_MSG_COLLISION_def BLE_WARN_MSG_DIVERSION_def BLE_WARN_MSG_CRASH_def)
  note c = crc_ok_with_crc [OF assms(1)]
  have "length bs = BLE_WARNING_FRAME_SIZE" "bs ! 0 \<noteq> 0x04"
    using c t warning_encode_ends [of "with_crc w"] by (simp_all add: assms(3) BLE_WARNING_FRAME_SIZE_def)
  then show ?thesis using warn_write_frame [of "with_crc w" now s] corrupted_refused [of bs i b] c t assms(3-5) by simp
qed

theorem corrupted_warning_refused_witness:
  "warn_write 7 ((warning_encode (with_crc (warning_zero\<lparr>wf_msg_type := 5\<rparr>)))[0 := 2]) sim_boot = (Inl VALUE_NOT_ALLOWED, sim_boot, [])"
proof -
  have "warning_ok (warning_zero\<lparr>wf_msg_type := 5\<rparr>)" by (simp add: warning_ok_def warning_zero_def)
  moreover have "2 \<noteq> warning_encode (with_crc (warning_zero\<lparr>wf_msg_type := 5\<rparr>)) ! 0"
    by (simp add: warning_encode_def with_crc_def)
  ultimately show ?thesis using corrupted_warning_refused [of "warning_zero\<lparr>wf_msg_type := 5\<rparr>" _ 0 2 7 sim_boot]
    by (simp add: BLE_WARN_MSG_CRASH_def BLE_WARNING_FRAME_SIZE_def)
qed

section \<open>Bridge\<close>

text \<open>
  C34: a frame is converted exactly when its source is known, its address has 24 bits and its
  position is in range (a NaN passes); then the record is \<open>frame_observation\<close>: absent
  fields are zero with their bit clear.  Otherwise the result is \<open>EINVAL\<close> and exactly one
  rejection counter goes up.
\<close>

theorem bridge_convert_spec:
  "(case bridge_convert f st of (rc, st') \<Rightarrow>
     if frame_accepted f then rc = Inr (frame_observation f) \<and> st' = st
     else rc = Inl EINVAL \<and> (st' = st\<lparr>bs_rej_source := bs_rej_source st + 1\<rparr>
       \<or> st' = st\<lparr>bs_rej_icao := bs_rej_icao st + 1\<rparr> \<or> st' = st\<lparr>bs_rej_latlon := bs_rej_latlon st + 1\<rparr>))"
proof (cases "frame_accepted f")
  case True
  then show ?thesis by (simp add: convert_accepts)
next
  case False
  then show ?thesis using convert_rejects [OF False, of st] by auto
qed

section \<open>Collision geometry\<close>

text \<open>
  C8: on exact numbers, for two aircraft whose velocities differ, the projected separation is
  the least separation over all times from now on, and it is reached at the projected time.
\<close>

theorem closest_approach_least:
  assumes "\<not> same_velocity a b" "app = closest_approach real_num a b"
  shows "0 \<le> ap_tca_s app \<and> ap_min_sep_m app = sep_at a b (ap_tca_s app)
    \<and> (\<forall>t. 0 \<le> t \<longrightarrow> ap_min_sep_m app \<le> sep_at a b t)"
  using min_sep_least [OF assms(1)] closest_approach_real [OF assms(1)] by (simp add: assms(2))

theorem closest_approach_least_witness:
  "ap_min_sep_m (closest_approach real_num real_a real_b) \<le> sep_at real_a real_b 3"
  using closest_approach_least [OF real_meet(1) refl] by (meson zero_le_numeral)

text \<open>
  C6: on exact numbers, the level of two aircraft whose velocities differ is exactly this.  It is
  CLEAR when both altitudes are known and more than 1000 ft apart, or when their closest approach
  is not ahead.  Otherwise it is WARNING when the closest approach is less than 30 seconds ahead and
  the distance gets below 500 m, raised to CRASH when they are in contact; else ADVISORY when it is
  less than 60 seconds ahead and the distance gets below 1000 m; else CLEAR.  All bounds are strict.
  (Aircraft with equal velocities are CLEAR on doubles, \<open>equal_velocity_clear\<close>.)
\<close>

theorem pair_level_exact:
  assumes "\<not> same_velocity a b"
  shows "pair_level real_num a b =
    (if vertically_apart a b \<or> t_closest a b \<le> 0 then COLLISION_CLEAR
     else if t_closest a b < 30 \<and> (\<exists>t. sep_at a b t < 500)
       then if in_contact a b then COLLISION_CRASH else COLLISION_WARNING
     else if t_closest a b < 60 \<and> (\<exists>t. sep_at a b t < 1000) then COLLISION_ADVISORY
     else COLLISION_CLEAR)"
  by (rule pair_level_real [OF assms])

theorem pair_level_exact_witness: "pair_level real_num real_a real_b \<in> {COLLISION_WARNING, COLLISION_CRASH}"
proof -
  have "\<exists>t. sep_at real_a real_b t < 500" using real_meet(4) by blast
  then show ?thesis unfolding pair_level_exact [OF real_meet(1)] using real_meet(2,3) by simp
qed

text \<open>
  C35: whatever the two positions and velocities (NaN and infinities included), both wrapping
  loops of the diversion picker end and the relative bearing is between -180 and 180 degrees or
  NaN.  The comment at \<open>collision.c:401\<close> and \<open>ref/description.md\<close> promise RTB or CLIMB for a threat
  head-on and HOLD as the fallback; the code never picks RTB or HOLD, and without two altitudes to
  go by it turns away from a threat ahead, left or right, however nearly head-on.
\<close>

theorem pick_diversion_returns:
  assumes "libm_ok lm" "nm = f64_num lm"
    "d = bearing nm (sr_lat sim) (sr_lon sim) (sr_lat thr) (sr_lon thr)
       - to_compass nm (n_atan2 nm (sr_v_east_mps sim) (sr_v_north_mps sim))"
  shows "wrap_rel_returns lm d \<and> f64_in (rel_bearing nm sim thr) (- 180) 180
    \<and> pick_diversion nm sim thr \<in> {DIVERSION_LEFT, DIVERSION_RIGHT, DIVERSION_CLIMB, DIVERSION_DESCEND}
    \<and> (\<not> (sr_alt_valid sim \<and> sr_alt_valid thr) \<and> f64_deg (rel_bearing nm sim thr) (- 160) 160 \<longrightarrow>
        (0 < fp_val (rel_bearing nm sim thr) \<longrightarrow> pick_diversion nm sim thr = DIVERSION_LEFT)
        \<and> (fp_val (rel_bearing nm sim thr) < 0 \<longrightarrow> pick_diversion nm sim thr = DIVERSION_RIGHT))"
  using rel_bearing_in [OF assms(1), of sim thr] pick_diversion_cases pick_diversion_ahead [of sim thr lm]
  unfolding assms(2,3) by blast

theorem pick_diversion_returns_witness: "f64_in (rel_bearing (f64_num libm_flat) sim_row (threat_row 9910)) (- 180) 180"
  using pick_diversion_returns [OF libm_flat_ok refl refl] by blast

section \<open>Collision tracker\<close>

text \<open>
  C5: a tick leaves in the table only pairs that are in conflict in the database of that tick,
  and all of them when the old and new pairs together are at most 32.
\<close>

theorem tick_tracks_conflicts:
  assumes "\<forall>x \<in> set ops. col_legal x" "\<forall>x \<in> set dbops. short_op x"
    "c = run (col_step lm) collision_boot ops" "db = run (db_step lm g) aircraft_db_init dbops"
    "conf = conflict_keys lm (row_pairs (snapshot lm db))"
  shows "set (keys_of (c_tracked (fst (work_handler lm conn now db (c, m))))) \<subseteq> conf
    \<and> (card (set (keys_of (c_tracked c)) \<union> conf) \<le> MAX_TRACKED \<longrightarrow>
       set (keys_of (c_tracked (fst (work_handler lm conn now db (c, m))))) = conf)"
proof -
  have "db_short db" unfolding assms(4) by (rule short_sys.inv_run [OF assms(2)])
  then have "\<forall>ab \<in> set (row_pairs (snapshot lm db)). short_icaos ab" by (rule short_pairs)
  moreover have "col_inv c" unfolding assms(3) by (rule tracker_sys.inv_run [OF assms(1)])
  ultimately show ?thesis using tick_result(2,3) unfolding assms(5) by blast
qed

theorem tick_tracks_conflicts_witness:
  "set (keys_of (c_tracked (fst (work_handler libm_flat True 200 (meet_db 9910) (run (col_step libm_flat) collision_boot [ColInit 0], missile_zero)))))
    = {(''aaaaaa'', ''bbbbbb'')}"
proof -
  have m: "meet_db 9910 = run (db_step libm_flat tuning0) aircraft_db_init [DbUpsert 0 sim_ac, DbUpsert 0 (threat_ac 9910)]"
    by (simp only: meet_db_def two_db_def)
  have k: "conflict_keys libm_flat (row_pairs (snapshot libm_flat (meet_db 9910))) = {(''aaaaaa'', ''bbbbbb'')}"
    by (rule meet_conflicts) (simp add: meet_warning)
  have c: "\<forall>x \<in> set [ColInit 0]. col_legal x" "keys_of (c_tracked (run (col_step libm_flat) collision_boot [ColInit 0])) = []"
    by (simp_all add: collision_init_def keys_of_def)
  have "\<forall>x \<in> set [DbUpsert 0 sim_ac, DbUpsert 0 (threat_ac 9910)]. short_op x" by (simp add: sim_ac_def threat_ac_def)
  from tick_tracks_conflicts [OF c(1) this refl m refl, of True 200 missile_zero]
  show ?thesis unfolding k c(2) by (simp add: MAX_TRACKED_def)
qed

text \<open>
  C22: when a tick computes a pair at CRASH that was not (it was tracked below CRASH and not
  locked, or it is new and the table has room), then after the whole tick its entry is at CRASH
  and locked for 15 seconds, and with the link up the simulator has been sent the CRASH frame
  with the other aircraft's address.
\<close>

theorem crash_tick:
  assumes "col_inv c" "db_short db" "(a, b) \<in> set (row_pairs (snapshot lm db))"
    "pair_level (f64_num lm) a b = COLLISION_CRASH" "crash_is_new lm db now (key_of (a, b)) c"
  shows "(\<exists>t \<in> set (c_tracked (fst (work_handler lm conn now db (c, m)))).
        tp_key t = key_of (a, b) \<and> tp_level t = COLLISION_CRASH \<and> tp_crash_until_ms t = now + 15000)
    \<and> (conn \<longrightarrow> BleSend (crash_frame now (crash_other (sim_side_of db a b) (fst (key_of (a, b))) a b))
          \<in> set (snd (snd (work_handler lm conn now db (c, m)))))"
  using crash_tick_result [OF assms] by blast

theorem crash_tick_witness:
  "BleSend (crash_frame 700 ''bbbbbb'') \<in> set (snd (snd (work_handler libm_flat True 700 (meet_db 9995) (collision_boot, missile_zero))))"
proof -
  have c: "col_inv collision_boot" "c_tracked collision_boot = []" using tracker_sys.inv_init by (simp_all add: collision_boot_def)
  have "db_short (meet_db 9995)" by (simp add: db_short_def meet_rows)
  from crash_tick [OF c(1) this _ meet_crash meet_crash_new [OF c(2), of 700], of True missile_zero]
  show ?thesis by (simp add: meet_pairs sim_side_of_def meet_is_sim crash_other_def)
qed

text \<open>
  C36: a locked pair that stays in conflict keeps its entry unchanged through a tick: level,
  diversion, send time and lock.
\<close>

theorem crash_lock_holds:
  assumes "col_inv c" "db_short db" "t \<in> set (c_tracked c)" "now < tp_crash_until_ms t"
    "tp_key t \<in> conflict_keys lm (row_pairs (snapshot lm db))"
  shows "t \<in> set (c_tracked (fst (work_handler lm conn now db (c, m))))"
  by (rule locked_entry_tick) (use assms short_pairs in blast)+

theorem crash_lock_holds_witness:
  "locked_pair \<in> set (c_tracked (fst (work_handler libm_flat True 900 (meet_db 9910) (collision_boot\<lparr>c_tracked := [locked_pair]\<rparr>, missile_zero))))"
  by (rule crash_lock_holds) (simp_all add: col_inv_locked db_short_def meet_rows meet_conflicts meet_warning)

text \<open>
  C37: the lock does not keep a pair from flapping: when a pair enters CRASH, is CLEAR in the
  database of one tick, and is at CRASH again at a later one, all within the 15 seconds for which
  its entry was locked, the entry is gone after the second tick, and the third sends the CRASH frame
  once more.  The comment at \<open>collision.c:588\<close> and \<open>ref/description.md\<close> say it stays at CRASH.
\<close>

theorem crash_sent_again_under_lock:
  assumes "col_inv c" "db_short db1" "(a, b) \<in> set (row_pairs (snapshot lm db1))" "pair_level (f64_num lm) a b = COLLISION_CRASH"
    "crash_is_new lm db1 t1 (key_of (a, b)) c" "c1 = fst (work_handler lm conn t1 db1 (c, m1))"
    "db_short db2" "key_of (a, b) \<notin> conflict_keys lm (row_pairs (snapshot lm db2))" "c2 = fst (work_handler lm conn t2 db2 (c1, m2))"
    "db_short db3" "(a', b') \<in> set (row_pairs (snapshot lm db3))" "pair_level (f64_num lm) a' b' = COLLISION_CRASH"
    "key_of (a', b') = key_of (a, b)" "t3 < t1 + 15000"
    "card (set (keys_of (c_tracked c2)) \<union> conflict_keys lm (row_pairs (snapshot lm db3))) \<le> MAX_TRACKED"
  shows "(\<exists>t \<in> set (c_tracked c1). tp_key t = key_of (a, b) \<and> tp_level t = COLLISION_CRASH \<and> t3 < tp_crash_until_ms t)
    \<and> key_of (a, b) \<notin> set (keys_of (c_tracked c2))
    \<and> BleSend (crash_frame t3 (crash_other (sim_side_of db3 a' b') (fst (key_of (a', b'))) a' b'))
        \<in> set (snd (snd (work_handler lm True t3 db3 (c2, m3))))"
proof -
  note 1 = tick_result(1) [OF assms(1) short_pairs [OF assms(2), of lm], of conn t1 m1, folded assms(6)]
  note 2 = tick_result(1,2) [OF 1 short_pairs [OF assms(7), of lm], of conn t2 m2, folded assms(9)]
  have gone: "key_of (a, b) \<notin> set (keys_of (c_tracked c2))" using 2(2) assms(8) by blast
  then have "List.find (\<lambda>t. tp_key t = key_of (a', b')) (c_tracked c2) = None"
    by (auto simp: find_None_iff keys_of_def assms(13) image_iff)
  then have "crash_is_new lm db3 t3 (key_of (a', b')) c2" using assms(15) by (simp add: crash_is_new_def)
  from crash_tick_result(2) [OF 2(1) assms(10-12) this, of True m3] gone
    crash_tick_result(1) [OF assms(1-5), of conn m1, folded assms(6)] assms(14)
  show ?thesis by fastforce
qed

theorem crash_sent_again_under_lock_witness:
  "BleSend (crash_frame 1500 ''bbbbbb'') \<in> set (snd (snd (work_handler libm_flat True 1500 (meet_db 9995)
     (fst (work_handler libm_flat True 900 aircraft_db_init (fst (work_handler libm_flat True 700 (meet_db 9995)
        (collision_boot, missile_zero)), missile_zero)), missile_zero))))"
proof -
  have c: "col_inv collision_boot" "c_tracked collision_boot = []" using tracker_sys.inv_init by (simp_all add: collision_boot_def)
  have db: "db_short (meet_db 9995)" "db_short aircraft_db_init" by (simp_all add: db_short_def meet_rows short_sys.inv_init [unfolded db_short_def])
  let ?c1 = "fst (work_handler libm_flat True 700 (meet_db 9995) (collision_boot, missile_zero))"
  let ?c2 = "fst (work_handler libm_flat True 900 aircraft_db_init (?c1, missile_zero))"
  have none: "conflict_keys libm_flat (row_pairs (snapshot libm_flat aircraft_db_init)) = {}"
    by (simp add: snapshot_rows AIRCRAFT_DB_MAX_ENTRIES_def conflict_keys_def)
  have "col_inv ?c1" using tick_result(1) [OF c(1) short_pairs [OF db(1), of libm_flat]] .
  from tick_result(2) [OF this short_pairs [OF db(2), of libm_flat], of True 900 missile_zero]
  have "set (keys_of (c_tracked ?c2)) = {}" unfolding none by (rule subset_empty [THEN iffD1])
  then have room: "card (set (keys_of (c_tracked ?c2)) \<union> conflict_keys libm_flat (row_pairs (snapshot libm_flat (meet_db 9995)))) \<le> MAX_TRACKED"
    by (simp add: meet_conflicts meet_crash MAX_TRACKED_def)
  have ab: "(sim_row, threat_row 9995) \<in> set (row_pairs (snapshot libm_flat (meet_db 9995)))" by (simp add: meet_pairs)
  from crash_sent_again_under_lock [OF c(1) db(1) ab meet_crash meet_crash_new [OF c(2)] refl db(2) _ refl db(1) ab meet_crash refl _ room]
  show ?thesis by (simp add: none sim_side_of_def meet_is_sim crash_other_def)
qed

text \<open>
  C38: everything a tick sends is well formed: a line fits the 320-byte buffer, a frame has the
  right field sizes and a valid checksum, one of the three message types, and goes out only
  with the link up.
\<close>

theorem tick_events_ok: "list_all (event_ok conn) (snd (snd (work_handler lm conn now db (c, m))))"
  unfolding list_all_iff using work_handler_out by blast

text \<open>
  C39: the manual CRASH sends the simulator its own address when its address is the smaller
  argument and comes first: the frame should name the other aircraft.
\<close>

theorem crash_trigger_names_sim:
  assumes "icao_a \<le> icao_b" "aircraft_db_lookup icao_a db = Inr a" "aircraft_db_lookup icao_b db = Inr b"
    "ac_source a = SRC_BLE_SIM"
  shows "BleSend (crash_frame now icao_a) \<in> set (snd (snd (collision_crash_trigger True now db icao_a icao_b (c, m))))"
proof -
  have o: "trigger_other a b icao_a icao_b = icao_a" using assms(1,4) by (simp add: trigger_other_def strcmp_gt_def)
  show ?thesis
    by (simp add: collision_crash_trigger_def assms(2,3) o send_ble_crash_def crash_frame_def Let_def split: prod.splits)
qed

theorem crash_trigger_names_sim_witness:
  "BleSend (crash_frame 5 ''aaaaaa'') \<in> set (snd (snd (collision_crash_trigger True 5 (meet_db 9910) ''aaaaaa'' ''bbbbbb'' (collision_boot, missile_zero))))"
proof -
  obtain a where a: "aircraft_db_lookup ''aaaaaa'' (meet_db 9910) = Inr a" "same_observation a sim_ac"
    using meet_lookup_sim by blast
  obtain b where b: "aircraft_db_lookup ''bbbbbb'' (meet_db 9910) = Inr b" using meet_lookup_threat by blast
  have "ac_source a = SRC_BLE_SIM" using a(2) by (simp add: same_observation_def sim_ac_def)
  from crash_trigger_names_sim [OF _ a(1) b this] show ?thesis by simp
qed

section \<open>BLE central\<close>

text \<open>
  C14: in every state the link can reach, with or without an operator at the shell: the flags
  agree with the link, the counters of connections and disconnections differ by the one that is
  up, handles are only set on a link that is up and as far as discovery has come, at most 8
  peers are listed and none twice, and without the operator a scan never runs beside a
  connection.
\<close>

theorem ble_invariant:
  assumes "ble_reachable operator se" shows "ble_inv operator se"
  by (rule ble_inv_reachable [OF assms])

theorem ble_invariant_witness:
  "ble_inv False (respond rc_ok env_boot (snd (ble_central_init rc_ok (Inr ()) ble_central_boot)))"
  by (rule ble_invariant) (rule ble_reachable.Boot)

section \<open>USB receiver and publisher\<close>

text \<open>
  C24: the line assembler fed with lines of any length, each ended by a newline, does for each
  what \<open>line_result\<close> says, whenever the characters come: carriage returns go, 512 characters at
  a time are thrown away as an overrun, and what is left of the line is parsed and stored.
\<close>

theorem usb_lines:
  assumes "\<forall>(tcs, now) \<in> set ls. CHR 0x0A \<notin> snd ` set tcs"
  shows "rx_stream parse lm g ([], s) (concat (map (\<lambda>(tcs, now). tcs @ [(now, CHR 0x0A)]) ls)) =
    ([], foldl (\<lambda>s (tcs, now). line_result parse lm g now (map snd tcs) s) s ls)"
  by (rule rx_stream_lines [OF assms])

theorem usb_lines_witness:
  "rx_stream (\<lambda>buf descr src. (- 22, src)) libm_flat tuning0 ([], usb_stats_zero, aircraft_db_init)
      [(1, CHR ''a''), (1, CHR 0x0D), (2, CHR 0x0A)] = ([], usb_stats_zero\<lparr>us_parse_errors := 1\<rparr>, aircraft_db_init)"
proof -
  have "\<forall>(tcs, now) \<in> set [([(1, CHR ''a''), (1, CHR 0x0D)], 2)]. CHR 0x0A \<notin> snd ` set tcs" by simp
  from usb_lines [OF this, of "\<lambda>buf descr src. (- 22, src)" libm_flat tuning0 "(usb_stats_zero, aircraft_db_init)"]
  show ?thesis by (simp add: line_result_def json_parse_aircraft_def usb_stats_zero_def)
qed

text \<open>
  C10: whatever the order of interrupts and thread steps, no byte read from the UART is lost,
  repeated or reordered between the interrupt and the line assembler, none is counted as
  dropped, and the thread never waits with work to do or the receiver throttled unless its
  semaphore is up.
\<close>

theorem usb_rx_in_order:
  assumes "ring_spec RINGBUF_BYTES contents ops" "contents ring = []"
    "s = run (usb_step ops parse lm g) ((snd (usb_handler_init True (Inr ()) (usb_rx_boot ring)), db0), []) evs"
  shows "usb_inv parse lm g db0 contents s \<and> us_ringbuf_drops (ux_stats (fst (fst s))) = 0"
proof -
  have inv: "usb_inv parse lm g db0 contents s"
    unfolding assms(3) by (rule op_system.inv_run [OF usb_system [OF assms(1,2)]]) simp
  obtain u db hist where s: "s = ((u, db), hist)" by (cases s) auto
  obtain tcs line st where r: "rx_stream parse lm g ([], usb_stats_zero, db0) tcs = (line, st, db)"
      "ux_stats u = st\<lparr>us_bytes_rx := of_nat (length hist)\<rparr>"
    using inv by (auto simp: s usb_inv_def rx_in_order_def)
  have "us_ringbuf_drops st = 0"
    using rx_stream_no_drops [of parse lm g "([], usb_stats_zero, db0)" tcs] unfolding r by (simp add: usb_stats_zero_def)
  with inv r(2) show ?thesis by (simp add: s)
qed

theorem usb_rx_in_order_witness:
  "us_ringbuf_drops (ux_stats (fst (fst (run (usb_step (list_ring RINGBUF_BYTES) (\<lambda>buf descr src. (- 22, src)) libm_flat tuning0)
     ((snd (usb_handler_init True (Inr ()) (usb_rx_boot [])), aircraft_db_init), []) [UsbIrq ''ab'', UsbThread 1, UsbThread 2])))) = 0"
  using usb_rx_in_order [OF list_ring_spec _ refl] by blast

text \<open>
  C20: the receiver cannot stall: in every reachable state the thread alone, run at any time,
  empties the ring buffer, ends a throttle and waits with reception armed.
\<close>

theorem usb_receiver_drains:
  assumes "ring_spec RINGBUF_BYTES contents ops" "contents ring = []"
    "s = run (usb_step ops parse lm g) ((snd (usb_handler_init True (Inr ()) (usb_rx_boot ring)), db0), []) evs"
  shows "drains ops parse lm g now contents (fst s)"
proof -
  have "usb_inv parse lm g db0 contents s"
    unfolding assms(3) by (rule op_system.inv_run [OF usb_system [OF assms(1,2)]]) simp
  then show ?thesis using awake_drains [OF assms(1)] by (simp add: usb_inv_def)
qed

theorem usb_receiver_drains_witness:
  "drains (list_ring RINGBUF_BYTES) (\<lambda>buf descr src. (- 22, src)) libm_flat tuning0 5 (\<lambda>r. r)
     (fst (run (usb_step (list_ring RINGBUF_BYTES) (\<lambda>buf descr src. (- 22, src)) libm_flat tuning0)
        ((snd (usb_handler_init True (Inr ()) (usb_rx_boot [])), aircraft_db_init), []) [UsbIrq ''ab'', UsbThread 1]))"
  by (rule usb_receiver_drains [OF list_ring_spec _ refl]) simp

section \<open>Simulated aircraft\<close>

text \<open>
  C27: whatever happens to the simulator, except an operator's \<open>set\<close>, it stays in the Brisbane
  box below 15000 m, and the frame it notifies arrives as sent, is accepted by the bridge, and
  carries the simulator's address.
\<close>

theorem sim_frames_accepted:
  assumes "\<forall>x \<in> set ops. sim_legal x" "s = run (sim_step lm) sim_boot ops"
  shows "in_bounds s \<and> frame_decode (frame_encode (sim_frame now s)) = Some (sim_frame now s)
    \<and> bridge_convert (sim_frame now s) st = (Inr (frame_observation (sim_frame now s)), st)
    \<and> ac_icao (frame_observation (sim_frame now s)) = ''da7705''"
proof -
  have b: "in_bounds s" unfolding assms(2) by (rule sim_sys.inv_run [OF assms(1)])
  show ?thesis
    using b aircraft_codec.dec_enc [OF sim_frame_accepted(2) [OF b]] convert_accepts [OF sim_frame_accepted(1) [OF b]]
      sim_frame_icao by blast
qed

theorem sim_frames_accepted_witness:
  "in_bounds (run (sim_step \<lparr>mf_cos = (\<lambda>x. x), mf_sin = (\<lambda>x. x)\<rparr>) sim_boot [SimShell [''aircraft'', ''wasd'', ''q''], SimTick 200])"
  by (rule conjunct1 [OF sim_frames_accepted [OF _ refl]]) simp

text \<open>
  C13: an accepted CRASH frame freezes the simulator: for ten seconds nothing but the operator
  moves it, whatever frames, ticks, timers and link events come, and the reset that is scheduled
  for the end puts it back at St Lucia and unfreezes it.
\<close>

theorem sim_crash_freezes:
  assumes "fst (warn_write t bs s) = Inr n" "bs ! 0 = BLE_WARN_MSG_CRASH" "0 \<le> t" "\<forall>x \<in> set ops. within_freeze t x"
    "s' = run (sim_step lm) (fst (snd (warn_write t bs s))) ops"
  shows "same_flight s s' \<and> t + 10000 \<le> g_frozen_until_ms s' \<and> crash_reset_due s' = Some (g_frozen_until_ms s')
    \<and> at_home (sim_step lm (SimResetWork (g_frozen_until_ms s')) s')
    \<and> \<not> frozen now (sim_step lm (SimResetWork (g_frozen_until_ms s')) s')"
proof -
  have "crashed_until (t + 10000) s' \<and> same_flight s s'"
    unfolding assms(5) crash_write [OF assms(1-3)]
    by (rule frozen_run [OF conjunct1 [OF freeze_crashed [OF assms(3)]] conjunct2 [OF freeze_crashed [OF assms(3)]] assms(4,3)])
  then show ?thesis using reset_after_crash [of "t + 10000" s'] by (simp add: crashed_until_def)
qed

theorem sim_crash_freezes_witness:
  "same_flight sim_boot (run (sim_step \<lparr>mf_cos = (\<lambda>x. x), mf_sin = (\<lambda>x. x)\<rparr>)
     (fst (snd (warn_write 700 (warning_encode (crash_frame 650 ''bbbbbb'')) sim_boot))) [SimTick 800, SimDisconnected, SimTick 1000])"
proof -
  have "warning_ok (crash_frame 650 ''bbbbbb'')" "crc_ok (warning_encode (crash_frame 650 ''bbbbbb''))"
    "wf_msg_type (crash_frame 650 ''bbbbbb'') = 5"
    using crc_ok_with_crc [OF warning_zero_ok [OF length_pack]] by (simp_all add: crash_frame_def BLE_WARN_MSG_CRASH_def)
  note c = this
  have w: "fst (warn_write 700 (warning_encode (crash_frame 650 ''bbbbbb'')) sim_boot) = Inr 16"
    by (subst warn_write_frame [OF c(1,2)]) (simp_all add: c(3))
  have t: "warning_encode (crash_frame 650 ''bbbbbb'') ! 0 = BLE_WARN_MSG_CRASH"
    using c(3) by (simp add: warning_encode_def BLE_WARN_MSG_CRASH_def)
  show ?thesis using sim_crash_freezes [OF w t _ _ refl, of "[SimTick 800, SimDisconnected, SimTick 1000]"] by simp
qed

section \<open>The whole controller\<close>

text \<open>
  C3: from the start on, through any interleaving of interrupts, threads, work items, callbacks
  of the Bluetooth stack and shell commands, the invariants of the components hold together:
  the database is sound with addresses that fit, the table of pairs is sound, the missile's
  handler is scheduled exactly while it flies, the filter's tuning is not zero or negative,
  every frame is accounted for, and the receiver is awake.
\<close>

theorem controller_invariant:
  assumes "environment_ok qc rc en" "qc q = []" "rc r = []" "\<forall>x \<in> set ops. op_clock_ok x"
  shows "controller_inv qc rc (run (ct_step en) (started en b enable now q r) ops)"
  by (rule op_system.inv_run [OF controller_system [OF assms(1-3)] assms(4)])

theorem controller_invariant_witness:
  "controller_inv (\<lambda>q. q) (\<lambda>r. r) (run (ct_step plain_environment) (started plain_environment rc_ok (Inr ()) 0 [] [])
     [OpUsbIrq ''x'', OpUsbThread 1, OpShell (console_at 2) [''skywatch'', ''ble'', ''inject''],
      OpShell (console_at 3) [''skywatch'', ''collision'', ''ghost'', ''15''], OpTick rc_ok True True 200,
      OpShell (console_at 300) [''skywatch'', ''missile'', ''launch''], OpTick rc_ok True False 400, OpMissile 800, OpReap 900])"
  by (rule controller_invariant [OF plain_environment_ok]) (simp_all add: console_at_def)

text \<open>
  C26: a shell command that returns an error has changed nothing and sent nothing, over the air
  or the data port, and has told the operator why; except that a missile launch that finds no
  target has already cancelled the missile in flight.
\<close>

theorem shell_failure_clean:
  assumes "shell_line en io ws s = Some (Inl e, s', out)"
  shows "s' = (if take 3 ws = [''skywatch'', ''missile'', ''launch'']
      then s\<lparr>ct_missile := snd (missile_cancel (ct_missile s))\<rparr> else s)
    \<and> (\<exists>l. OutError l \<in> set out) \<and> console_only out"
  by (rule shell_fails_clean [OF assms])

theorem shell_failure_clean_witness:
  "\<exists>s' out. shell_line plain_environment (console_at 9) [''skywatch'', ''kalman'', ''q'']
      (started plain_environment rc_ok (Inr ()) 0 [] []) = Some (Inl EINVAL, s', out)
    \<and> s' = started plain_environment rc_ok (Inr ()) 0 [] []"
proof -
  let ?s = "started plain_environment rc_ok (Inr ()) 0 [] []"
  have "shell_line plain_environment (console_at 9) [''skywatch'', ''kalman'', ''q''] ?s
      = Some (cmd_kalman_q plain_environment [''q''] ?s)"
    by (simp add: shell_line_def shell_root_def sub_skywatch_def sub_kalman_def)
  then obtain s' out where r: "shell_line plain_environment (console_at 9) [''skywatch'', ''kalman'', ''q''] ?s
      = Some (Inl EINVAL, s', out)"
    by (simp add: cmd_kalman_q_def)
  from shell_failure_clean [OF r] have "s' = ?s" by simp
  then show ?thesis using r by blast
qed

text \<open>
  C18: what the firmware stores, exactly: any step of the controller, in any state, makes of the
  database what the operations \<open>step_stores\<close> make of it, in their order, with the filter's current
  tuning.  The receiver stores what the parser makes of the lines its chunk completes, the bridge
  the observation in the oldest frame if it is to be accepted, the reaper reaps; the injected pair,
  the ghost and the missile store themselves, where their state has them, while they are active;
  so do the commands that start them, \<open>db clear\<close> clears, \<open>ble inject\<close> stores its sample; and every
  other step, a command that fails included, leaves the database alone.
\<close>

theorem controller_stores_exactly:
  "ct_db (ct_step en x s) = run (db_step (en_libm en) (ct_kal s)) (ct_db s) (step_stores en x s (ct_step en x s))"
  by (rule step_stores_exactly)

text \<open>
  C40: in the running controller, whatever its threads and its operator do (the tuning of the
  filter may change at any time), every aircraft whose filter has seen enough updates is
  published with a prediction, and it is what the filter extrapolates from its current state.
\<close>

theorem controller_predictions_current:
  "list_all prediction_current (db_rows (ct_db (run (ct_step en) (started en b enable now q r) ops)))"
proof -
  have "db_sound (ct_db (run (ct_step en) (started en b enable now q r) ops))"
    by (rule controller_db_sound_run) (simp add: db_pred_sys.inv_init)
  then show ?thesis by (simp add: db_sound_def)
qed

text \<open>
  C15: a line gets through: in every state of the controller that satisfies its invariant, with
  the receiver quiet and room in the database, a line of ordinary characters that the parser
  accepts, however the UART cuts it into bursts, is after some rounds of the receiver's thread
  in the database under its address, the receiver is quiet again, and the publisher's next round
  writes the aircraft's line to the open data port, when that line fits the buffer.
\<close>

theorem usb_line_published:
  assumes "environment_ok qc rc en" "controller_inv qc rc s" "drained rc (ct_usb s)" "ux_line (ct_usb s) = []"
    "plain_line l" "json_parse_aircraft (en_json en) l = Inr a" "ac_icao a \<noteq> []"
    "aircraft_db_count (ct_db s) < int AIRCRAFT_DB_MAX_ENTRIES"
    "concat chunks = l @ [CHR 0x0A]" "list_all (\<lambda>c. length c \<le> 64) chunks"
  shows "\<exists>n b. let s' = run (ct_step en) s (map OpUsbIrq chunks @ replicate n (OpUsbThread now))
    in aircraft_db_lookup (ac_icao a) (ct_db s') = Inr b \<and> same_observation b a \<and> drained rc (ct_usb s')
     \<and> (length (aircraft_line b) < LINE_CAP \<longrightarrow> (\<exists>before after.
          snd (ct_exec en (OpPublish True True t) s') = [OutUsb (before @ aircraft_line b @ [CHR 0x0A] @ after)]))"
proof -
  let ?s' = "\<lambda>n. run (ct_step en) s (map OpUsbIrq chunks @ replicate n (OpUsbThread now))"
  obtain n b where r: "aircraft_db_lookup (ac_icao a) (ct_db (?s' n)) = Inr b" "same_observation b a"
    "drained rc (ct_usb (?s' n))" "db_inv (ct_db (?s' n))"
    using line_goes_through [OF assms, of now] by auto
  then show ?thesis using lookup_published [OF r(4,1), of t "ct_pub (?s' n)"]
    by (intro exI [of _ n] exI [of _ b]) (auto simp: on_publish_def case_prod_unfold Let_def simp del: run_append)
qed

theorem usb_line_published_witness:
  "\<exists>n b. aircraft_db_lookup ''abc123'' (ct_db (run (ct_step json_environment) (started json_environment rc_ok (Inr ()) 0 [] [])
      ([OpUsbIrq ''{'', OpUsbIrq (''}'' @ [CHR 0x0A])] @ replicate n (OpUsbThread 9)))) = Inr b \<and> ac_source b = SRC_ADS_B"
proof -
  have inv: "controller_inv (\<lambda>q. q) (\<lambda>r. r) (started json_environment rc_ok (Inr ()) 0 [] [])"
    by (rule started_inv [OF json_environment_ok]) simp_all
  have p: "plain_line ''{}''" by (simp add: plain_line_def LINE_BUF_BYTES_def)
  obtain a where a: "json_parse_aircraft (en_json json_environment) ''{}'' = Inr a" "ac_icao a = ''abc123''" "ac_source a = SRC_ADS_B"
    using json_environment_parses by blast
  have icao: "ac_icao a \<noteq> []" and room: "aircraft_db_count (ct_db (started json_environment rc_ok (Inr ()) 0 [] [])) < int AIRCRAFT_DB_MAX_ENTRIES"
    by (simp_all add: a(2) count_rows AIRCRAFT_DB_MAX_ENTRIES_def)
  have "concat [''{'', ''}'' @ [CHR 0x0A]] = ''{}'' @ [CHR 0x0A]" "list_all (\<lambda>c. length c \<le> 64) [''{'', ''}'' @ [CHR 0x0A]]"
    by simp_all
  from usb_line_published [OF json_environment_ok inv started_quiet p a(1) icao room this, of 9] obtain n b where
    "aircraft_db_lookup ''abc123'' (ct_db (run (ct_step json_environment) (started json_environment rc_ok (Inr ()) 0 [] [])
      (map OpUsbIrq [''{'', ''}'' @ [CHR 0x0A]] @ replicate n (OpUsbThread 9)))) = Inr b" "same_observation b a"
    unfolding Let_def a(2) by blast
  then show ?thesis using a(3) by (intro exI [of _ n] exI [of _ b]) (simp add: same_observation_def del: run_append run.simps)
qed

section \<open>The controller on a clock\<close>

text \<open>
  C12: nothing scheduled is forgotten or late: on a kernel that wakes threads and runs work items
  at most \<open>L\<close> milliseconds late, at every time after the start the detector, the publisher, the
  reaper and the watchdog each have a next run, at most a period ahead and at most \<open>L\<close> overdue;
  so have the injected pair and the ghost while they are active, and the missile while it flies.
\<close>

theorem schedule_kept:
  assumes "0 \<le> L" "timed_reachable en L (timed_start en b t0 q r) s"
  shows "(\<exists>tick. c_due (ct_col (tm_ctl s)) = Some tick \<and> tm_now s \<le> tick + L \<and> tick \<le> tm_now s + COLLISION_TICK_MS)
    \<and> (\<exists>pub. pb_due (ct_pub (tm_ctl s)) = Some pub \<and> tm_now s \<le> pub + L \<and> pub \<le> tm_now s + PUBLISH_PERIOD_MS)
    \<and> tm_now s \<le> tm_reap s + L \<and> tm_reap s \<le> tm_now s + REAPER_TICK_MS
    \<and> tm_now s \<le> tm_wd s + L \<and> tm_wd s \<le> tm_now s + WD_PERIOD_MS
    \<and> (c_inject_active (ct_col (tm_ctl s)) \<longrightarrow>
         (\<exists>d. c_inject_due (ct_col (tm_ctl s)) = Some d \<and> tm_now s \<le> d + L \<and> d \<le> tm_now s + INJECT_TICK_MS))
    \<and> (c_ghost_active (ct_col (tm_ctl s)) \<longrightarrow>
         (\<exists>d. c_ghost_due (ct_col (tm_ctl s)) = Some d \<and> tm_now s \<le> d + L \<and> d \<le> tm_now s + GHOST_TICK_MS))
    \<and> (ms_active (ct_missile (tm_ctl s)) \<longrightarrow>
         (\<exists>d. ms_due (ct_missile (tm_ctl s)) = Some d \<and> tm_now s \<le> d + L \<and> d \<le> tm_now s + MISSILE_TICK_MS))"
  using timed_inv_reachable [OF assms] by (auto simp: timed_inv_def on_time_def missile_on_time_def timers_def)

theorem schedule_kept_witness:
  "\<exists>tick. c_due (ct_col (tm_ctl clock_launched)) = Some tick \<and> 190 \<le> tick \<and> tick \<le> 440"
  using schedule_kept [OF _ clock_reachable [unfolded clock_start_def]] by (force simp: COLLISION_TICK_MS_def)

text \<open>
  C11: the database never shows an aircraft that is long gone: at every time after the start,
  every entry was seen at most twelve seconds ago (ten until it is stale and two until the reaper
  comes), plus the kernel's lateness, and none in the future.
\<close>

theorem aircraft_age_bounded:
  assumes "0 \<le> L" "timed_reachable en L (timed_start en b t0 q r) s"
  shows "list_all (\<lambda>e. de_last_seen_ms e \<le> tm_now s \<and> tm_now s - de_last_seen_ms e \<le> 12000 + L) (db_rows (ct_db (tm_ctl s)))"
  using ages_ok_reachable [OF assms] timed_inv_reachable [OF assms]
  by (fastforce simp: ages_ok_def seen_within_def timed_inv_def list_all_iff REAPER_TICK_MS_def AIRCRAFT_DB_STALE_MS_def)

theorem aircraft_age_bounded_witness:
  "list_all (\<lambda>e. de_last_seen_ms e \<le> 240 \<and> 240 - de_last_seen_ms e \<le> 12050) (db_rows (ct_db (tm_ctl clock_launched)))"
  using aircraft_age_bounded [OF _ clock_reachable [unfolded clock_start_def]] by simp

text \<open>
  C21: a missile does not outlive its time: whatever the operator, the detector and the other
  activities do, while a missile flies it is at most one tick and the kernel's lateness past the
  time it was to expire (or past its launch, when it was to live for less than that).
\<close>

theorem missile_lifetime_bounded:
  assumes "0 \<le> L" "timed_reachable en L (timed_start en b t0 q r) s" "ms_active (ct_missile (tm_ctl s))"
  shows "tm_now s \<le> max (ms_launch_ms (ct_missile (tm_ctl s))) (ms_expire_ms (ct_missile (tm_ctl s))) + MISSILE_TICK_MS + L"
  by (rule missile_deadline [OF timed_inv_reachable [OF assms(1,2)] assms(3)])

theorem missile_lifetime_bounded_witness:
  "240 \<le> max (ms_launch_ms (ct_missile (tm_ctl clock_launched))) (ms_expire_ms (ct_missile (tm_ctl clock_launched))) + 550"
  using missile_lifetime_bounded [OF _ clock_reachable [unfolded clock_start_def] clock_flying] by (simp add: MISSILE_TICK_MS_def)

text \<open>
  C19: the link is never idle for long: from any state reached after the start, a run in which
  the central neither scans nor connects nor is connected, while the stack is ready to start a
  scan, lasts at most four seconds (two until an attempt may be repeated and two until the
  watchdog comes), plus the kernel's lateness.
\<close>

theorem idle_link_bounded:
  assumes "0 \<le> L" "0 \<le> t0" "timed_reachable en L (timed_start en b t0 q r) s" "idle_run en L s s'"
  shows "tm_now s' - tm_now s \<le> 4000 + L"
  using idle_bounded [OF assms] by (simp add: RECONNECT_RETRY_MS_def WD_PERIOD_MS_def)

theorem idle_link_bounded_witness:
  "tm_now ((timed_start plain_environment rc_no_scan 0 [] [])\<lparr>tm_now := 240\<rparr>) - 0 \<le> 4050"
  using idle_link_bounded [OF _ _ timed_reachable.Start clock_idle] by simp

section \<open>The two boards together\<close>

text \<open>
  C25: the controller finds what the simulator offers: the advertised name is the one it looks
  for, and wherever the stack puts the simulator's two services, among others and in either
  order, four answers to its searches take it from the start of discovery to the subscription
  to positions and the handle to write warnings to.
\<close>

theorem gatt_discovery:
  assumes "sim_gatt_db db hs hw" "stack_finds db search"
  shows "parse_name sim_ad = Some SKYWATCH_BLE_DEVICE_NAME
    \<and> (discovery_round search ^^ 4) (start_discovery s) =
      (s\<lparr>g_aircraft_handle := of_nat (hs + 2), g_warn_handle := of_nat (hw + 2), g_disc_state := DISC_WARN_CHR\<rparr>,
       [Discover UUID_SKY_SVC 1 0xffff, Discover UUID_SKY_CHR (of_nat hs + 1) 0xffff,
        Subscribe (of_nat (hs + 2)) (of_nat (hs + 3)), Discover UUID_WARN_SVC 1 0xffff,
        Discover UUID_WARN_CHR (of_nat hw + 1) 0xffff])"
  using sim_ad_name discovery_finds [OF assms] by blast

theorem gatt_discovery_witness:
  "g_warn_handle (fst ((discovery_round (gatt_find two_services) ^^ 4) (start_discovery ble_central_boot))) = 22"
  using gatt_discovery [OF two_services_db, of "gatt_find two_services"] by (simp add: stack_finds_def)

text \<open>
  C4: whatever the two boards, their operators (no \<open>aircraft set\<close>) and the link do, in any order
  and with any losses, the boards understand each other: the controller has never refused a
  notification, every notification in the air is a frame it will accept, every write in the air
  is one the simulator accepts in whatever state it is, and turns its warning on.
\<close>

theorem world_protocol_safe:
  assumes "environment_ok qc rc en" "qc q = []" "rc r = []" "\<forall>x \<in> set ops. world_legal x"
    "w = run (world_step en lm) (world_start en b enable now q r wdt vh) ops"
  shows "none_refused qc (w_ctl w) \<and> in_bounds (w_sim w)
    \<and> list_all (\<lambda>bs. \<exists>f. frame_decode bs = Some f \<and> frame_accepted f) (w_up w)
    \<and> list_all (\<lambda>(h, bs). fst (warn_write t bs s) = Inr 16 \<and> g_warning_active (fst (snd (warn_write t bs s)))) (w_down w)"
proof -
  have "world_inv qc rc w"
    unfolding assms(5) by (rule op_system.inv_run [OF world_system [OF assms(1-3)] assms(4)])
  then show ?thesis using up_ok_any down_ok_warns by (auto simp: world_inv_def list_all_iff)
qed

theorem world_protocol_safe_witness:
  "none_refused (\<lambda>q. q) (w_ctl (run (world_step plain_environment \<lparr>mf_cos = (\<lambda>x. x), mf_sin = (\<lambda>x. x)\<rparr>)
     (world_start plain_environment rc_ok (Inr ()) 0 [] [] 1 22)
     [WSim (SimConnected False), WSim (SimCcc 1), WSim (SimTick 200), WSim (SimTick 400), WLose 1 0, WNotify,
      WCtl (OpBridge 410), WCtl (OpTick rc_ok True True 600), WWrite 700]))"
  by (rule conjunct1 [OF world_protocol_safe [OF plain_environment_ok _ _ _ refl]]) simp_all

text \<open>
  C17: a position gets through: in every state of the two boards that satisfies their invariant,
  with the simulator connected and subscribed to, nothing else under way and room in the
  database, a tick of the simulator, its notification and a round of the bridge's thread leave
  the simulator's position, altitude, speed and heading under its address in the database.
\<close>

theorem sim_position_reaches_db:
  assumes "environment_ok qc rc en" "world_inv qc rc w" "w_up w = []" "qc (br_msgq (ct_bridge (w_ctl w))) = []"
    "s_conn (w_sim w)" "s_notif_enabled (w_sim w)"
    "aircraft_db_count (ct_db (w_ctl w)) < int AIRCRAFT_DB_MAX_ENTRIES"
    "w' = run (world_step en lm) w [WSim (SimTick t), WNotify, WCtl (OpBridge now)]"
  shows "\<exists>a. aircraft_db_lookup ''da7705'' (ct_db (w_ctl w')) = Inr a
    \<and> same_observation a (frame_observation (sim_frame t (w_sim w')))"
  by (rule position_arrives [OF assms])

theorem sim_position_reaches_db_witness:
  "\<exists>a. aircraft_db_lookup ''da7705'' (ct_db (w_ctl (run (world_step plain_environment \<lparr>mf_cos = (\<lambda>x. x), mf_sin = (\<lambda>x. x)\<rparr>)
      (meet_world\<lparr>w_sim := sim_boot\<lparr>s_conn := True, s_notif_enabled := True\<rparr>\<rparr>)
      [WSim (SimTick 200), WNotify, WCtl (OpBridge 230)]))) = Inr a"
proof -
  let ?w = "meet_world\<lparr>w_sim := sim_boot\<lparr>s_conn := True, s_notif_enabled := True\<rparr>\<rparr>"
  have inv: "world_inv (\<lambda>q. q) (\<lambda>r. r) ?w" using meet_world_inv by (simp add: world_inv_def in_bounds_boot)
  have idle: "w_up ?w = []" "br_msgq (ct_bridge (w_ctl ?w)) = []"
    by (simp_all add: meet_world_def world_start_def started_def controller_main_def controller_boot_def bridge_init_def
        case_prod_unfold Let_def)
  have "aircraft_db_count (ct_db (w_ctl ?w)) < int AIRCRAFT_DB_MAX_ENTRIES"
    by (simp add: meet_world_simps(1) count_rows meet_rows AIRCRAFT_DB_MAX_ENTRIES_def)
  from sim_position_reaches_db [OF plain_environment_ok inv idle _ _ this refl] show ?thesis
    by (fastforce simp del: run.simps)
qed

text \<open>
  C16: from power-up to a position: on any two boards just started, when the stack reports what
  it does when all goes well (advertisement, connection, MTU, the answers to the searches, the
  subscription), the controller is connected and has the warnings' handle, and the first
  position the simulator notifies is in the database after a round of the bridge's thread.
\<close>

theorem power_up_to_position:
  assumes "environment_ok qc rc en" "qc q = []" "rc r = []" "rc_scan_start b = Inr ()" "rc_conn_create b = Inr ()"
    "rc_exchange_mtu b = Inr ()" "sim_gatt_db db hs hw" "stack_finds db search"
    "w = run (world_step en lm) (world_start en b (Inr ()) t0 q r wdt (of_nat (hw + 2))) (link_events search b t1 addr hs hw)"
    "w' = run (world_step en lm) w [WSim (SimTick t), WNotify, WCtl (OpBridge now)]"
  shows "g_connected (ct_ble (w_ctl w)) \<and> g_conn (ct_ble (w_ctl w)) \<and> g_warn_handle (ct_ble (w_ctl w)) = of_nat (hw + 2)
    \<and> w_warn w = of_nat (hw + 2)
    \<and> (\<exists>a. aircraft_db_lookup ''da7705'' (ct_db (w_ctl w')) = Inr a
        \<and> same_observation a (frame_observation (sim_frame t (w_sim w'))))"
  using power_up [OF assms] by blast

theorem power_up_to_position_witness:
  "g_warn_handle (ct_ble (w_ctl (run (world_step plain_environment \<lparr>mf_cos = (\<lambda>x. x), mf_sin = (\<lambda>x. x)\<rparr>)
      (world_start plain_environment rc_ok (Inr ()) 0 [] [] 1 22)
      (link_events (gatt_find two_services) rc_ok 40 [7] 16 20)))) = 22"
proof -
  have "stack_finds two_services (gatt_find two_services)" by (simp add: stack_finds_def)
  from power_up_to_position [OF plain_environment_ok _ _ _ _ _ two_services_db this refl refl, of "[]" "[]" rc_ok]
  show ?thesis by (simp add: rc_ok_def del: run.simps)
qed



end
